(* ===== verification/Prelude.thy ===== *)
theory Prelude
  imports Main "HOL-Library.Signed_Division" "HOL-Library.Log_Nat"
begin

text \<open>
  Vocabulary shared by every component: the fixed width of Go integers, the parts of
  package strings the program calls, decimal rendering, and generic list facts.
  A Go string is a byte sequence and is modelled as a \<^typ>\<open>string\<close> (whose characters
  are bytes); case mapping and trimming are those of the ASCII range.
  Times are integers counting nanoseconds since the zero \<^verbatim>\<open>time.Time\<close>
  (January 1 of year 1), durations are integers counting nanoseconds; the wall and the
  monotonic reading of a \<^verbatim>\<open>time.Time\<close> are not distinguished.
\<close>

named_theorems go_simps \<open>unfolding rules of the small Go helpers\<close>

type_synonym bytes = string
type_synonym time = int
type_synonym duration = int

subsection \<open>Results\<close>

text \<open>A Go call that can fail, followed by the code that runs when its error is nil.\<close>

fun and_then :: "'e + 'a \<Rightarrow> ('a \<Rightarrow> 'e + 'b) \<Rightarrow> 'e + 'b" where
  "and_then (Inl e) f = Inl e"
| "and_then (Inr x) f = f x"

lemma and_then_Inr: "and_then m f = Inr y \<longleftrightarrow> (\<exists>x. m = Inr x \<and> f x = Inr y)"
  by (cases m) auto

fun map_error :: "('e \<Rightarrow> 'f) \<Rightarrow> 'e + 'a \<Rightarrow> 'f + 'a" where
  "map_error g (Inl e) = Inl (g e)"
| "map_error g (Inr x) = Inr x"

lemma map_error_Inr [simp]: "map_error g m = Inr x \<longleftrightarrow> m = Inr x"
  by (cases m) auto

lemma and_then_Inl: "and_then m f = Inl e \<longleftrightarrow> m = Inl e \<or> (\<exists>x. m = Inr x \<and> f x = Inl e)"
  by (cases m) auto

lemma map_error_Inl: "map_error g m = Inl e \<longleftrightarrow> (\<exists>d. m = Inl d \<and> e = g d)"
  by (cases m) auto

lemma map_sum_Inl: "map_sum f g m = Inl e \<longleftrightarrow> (\<exists>d. m = Inl d \<and> e = f d)"
  by (cases m) auto

lemma map_sum_Inr: "map_sum f g m = Inr y \<longleftrightarrow> (\<exists>x. m = Inr x \<and> y = g x)"
  by (cases m) auto

subsection \<open>Fixed-width integers\<close>

definition s64 :: "int \<Rightarrow> int" where
  "s64 x = (x + 2 ^ 63) mod 2 ^ 64 - 2 ^ 63"

definition in_i64 :: "int \<Rightarrow> bool" where
  "in_i64 x \<longleftrightarrow> - (2 ^ 63) \<le> x \<and> x < 2 ^ 63"

lemma s64_id [simp]: "in_i64 x \<Longrightarrow> s64 x = x"
  by (simp add: s64_def in_i64_def)

lemma s64_range [simp, intro]: "in_i64 (s64 x)"
  using pos_mod_bound [of "2 ^ 64" "x + 2 ^ 63"] pos_mod_sign [of "2 ^ 64" "x + 2 ^ 63"]
  by (simp add: s64_def in_i64_def)

lemma in_i64_small [intro]: "0 \<le> x \<Longrightarrow> x < 2 ^ 63 \<Longrightarrow> in_i64 x"
  by (simp add: in_i64_def)

lemma s64_small [simp]: "0 \<le> x \<Longrightarrow> x < 9223372036854775808 \<Longrightarrow> s64 x = x"
  by (simp add: s64_def)

lemma s64_cong_mod: "s64 x mod 2 ^ 64 = x mod 2 ^ 64"
  by (simp add: s64_def mod_simps)

lemma s64_add_s64 [simp]: "s64 (s64 x + y) = s64 (x + y)"
proof -
  have "(s64 x + y + 2 ^ 63) mod 2 ^ 64 = (x + y + 2 ^ 63) mod 2 ^ 64"
    using s64_cong_mod [of x]
    by (metis (no_types, opaque_lifting) add.assoc mod_add_left_eq)
  then show ?thesis by (simp add: s64_def)
qed

lemma s64_add_s64_right [simp]: "s64 (x + s64 y) = s64 (x + y)"
  using s64_add_s64 [of y x] by (simp add: add.commute)

subsection \<open>Durations and instants\<close>

definition second :: duration where "second = 1000000000"
definition millisecond :: duration where "millisecond = 1000000"
definition microsecond :: duration where "microsecond = 1000"
definition hour :: duration where "hour = 3600 * 1000000000"

text \<open>\<^verbatim>\<open>t.Sub(u)\<close> saturates at the extreme durations.\<close>

definition time_sub :: "time \<Rightarrow> time \<Rightarrow> duration" where
  "time_sub t u = max (- (2 ^ 63)) (min (2 ^ 63 - 1) (t - u))"

definition time_add :: "time \<Rightarrow> duration \<Rightarrow> time" where
  "time_add t d = t + d"

definition is_zero_time :: "time \<Rightarrow> bool" where
  "is_zero_time t \<longleftrightarrow> t = 0"

definition unix_epoch :: time where
  "unix_epoch = 62135596800 * 1000000000"

definition unix_nano :: "time \<Rightarrow> int" where
  "unix_nano t = s64 (t - unix_epoch)"

lemma time_sub_exact: "in_i64 (t - u) \<Longrightarrow> time_sub t u = t - u"
  by (auto simp: time_sub_def in_i64_def)

lemma time_sub_nonneg: "0 \<le> time_sub t u \<longleftrightarrow> u \<le> t"
  by (auto simp: time_sub_def)

lemmas duration_defs = second_def millisecond_def microsecond_def hour_def

subsection \<open>Package strings\<close>

fun has_prefix :: "string \<Rightarrow> string \<Rightarrow> bool" where
  "has_prefix s [] = True"
| "has_prefix [] (c # cs) = False"
| "has_prefix (x # xs) (c # cs) = (x = c \<and> has_prefix xs cs)"

definition has_suffix :: "string \<Rightarrow> string \<Rightarrow> bool" where
  "has_suffix s t = has_prefix (rev s) (rev t)"

text \<open>\<^verbatim>\<open>strings.Index\<close>: the first position of the pattern, or \<open>None\<close> for -1.\<close>

fun index_of :: "string \<Rightarrow> string \<Rightarrow> nat option" where
  "index_of [] p = (if p = [] then Some 0 else None)"
| "index_of (c # cs) p =
     (if has_prefix (c # cs) p then Some 0 else map_option Suc (index_of cs p))"

definition contains :: "string \<Rightarrow> string \<Rightarrow> bool" where
  "contains s p \<longleftrightarrow> index_of s p \<noteq> None"

definition is_space :: "char \<Rightarrow> bool" where
  "is_space c \<longleftrightarrow> of_char c \<in> {9, 10, 11, 12, 13, 32 :: nat}"

definition trim_left :: "string \<Rightarrow> string" where
  "trim_left s = dropWhile is_space s"

definition trim_space :: "string \<Rightarrow> string" where
  "trim_space s = rev (dropWhile is_space (rev (dropWhile is_space s)))"

definition to_lower_char :: "char \<Rightarrow> char" where
  "to_lower_char c = (let n = of_char c :: nat in if 65 \<le> n \<and> n \<le> 90 then char_of (n + 32) else c)"

definition to_lower :: "string \<Rightarrow> string" where
  "to_lower s = map to_lower_char s"

definition to_upper_char :: "char \<Rightarrow> char" where
  "to_upper_char c = (let n = of_char c :: nat in if 97 \<le> n \<and> n \<le> 122 then char_of (n - 32) else c)"

definition to_upper :: "string \<Rightarrow> string" where
  "to_upper s = map to_upper_char s"

definition equal_fold :: "string \<Rightarrow> string \<Rightarrow> bool" where
  "equal_fold s t \<longleftrightarrow> to_lower s = to_lower t"

fun join :: "string \<Rightarrow> string list \<Rightarrow> string" where
  "join sep [] = []"
| "join sep [x] = x"
| "join sep (x # y # xs) = x @ sep @ join sep (y # xs)"

text \<open>\<^verbatim>\<open>strings.Split\<close> on a one-byte separator.\<close>

fun split_on :: "char \<Rightarrow> string \<Rightarrow> string list" where
  "split_on c [] = [[]]"
| "split_on c (x # xs) =
     (if x = c then [] # split_on c xs
      else (case split_on c xs of [] \<Rightarrow> [[x]] | p # ps \<Rightarrow> (x # p) # ps))"

subsection \<open>Bytes\<close>

definition byte :: "char \<Rightarrow> int" where
  "byte c = int (of_char c)"

lemma byte_range: "0 \<le> byte c" "byte c < 256"
proof -
  have "of_char c < (256 :: nat)" by (cases c) (auto split: bool.splits)
  then show "0 \<le> byte c" "byte c < 256" by (simp_all add: byte_def)
qed

lemma byte_char_of [simp]: "byte (char_of (n :: nat)) = int (n mod 256)"
  by (simp add: byte_def)

subsection \<open>Decimal rendering\<close>

definition digit_char :: "nat \<Rightarrow> char" where
  "digit_char d = char_of (48 + d)"

fun nat_dec :: "nat \<Rightarrow> string" where
  "nat_dec n = (if n < 10 then [digit_char n] else nat_dec (n div 10) @ [digit_char (n mod 10)])"

declare nat_dec.simps [simp del]

definition int_dec :: "int \<Rightarrow> string" where
  "int_dec i = (if i < 0 then ''-'' @ nat_dec (nat (- i)) else nat_dec (nat i))"

text \<open>At least \<open>width\<close> digits.\<close>

definition pad_dec :: "nat \<Rightarrow> nat \<Rightarrow> string" where
  "pad_dec width n = replicate (width - length (nat_dec n)) (CHR ''0'') @ nat_dec n"

text \<open>\<^verbatim>\<open>%q\<close> for strings without characters that need an escape.\<close>

definition go_quote :: "string \<Rightarrow> string" where
  "go_quote s = [CHR 0x22] @ s @ [CHR 0x22]"

text \<open>Digits and the number they spell.\<close>

definition is_digit :: "char \<Rightarrow> bool" where
  "is_digit c \<longleftrightarrow> 48 \<le> byte c \<and> byte c \<le> 57"

definition digit_at :: "string \<Rightarrow> nat \<Rightarrow> bool" where
  "digit_at s i \<longleftrightarrow> i < length s \<and> is_digit (s ! i)"

definition num :: "string \<Rightarrow> int" where
  "num s = foldl (\<lambda>a c. a * 10 + (byte c - 48)) 0 s"

lemma num_append: "num (s @ [c]) = num s * 10 + (byte c - 48)"
  by (simp add: num_def)

lemma has_prefix_append [simp]: "has_prefix (p @ s) p"
  by (induction p) auto

lemma has_prefix_iff: "has_prefix s p \<longleftrightarrow> (\<exists>t. s = p @ t)"
  by (induction s p rule: has_prefix.induct) auto

lemma has_prefixD: "has_prefix s p \<Longrightarrow> length p \<le> length s \<and> take (length p) s = p"
  by (induction s p rule: has_prefix.induct) auto

lemma index_of_Some:
  "index_of s p = Some i \<Longrightarrow> i + length p \<le> length s \<and> take (length p) (drop i s) = p"
proof (induction s p arbitrary: i rule: index_of.induct)
  case (1 p)
  then show ?case by (auto split: if_splits)
next
  case (2 c cs p)
  then show ?case by (fastforce split: if_splits dest: has_prefixD)
qed

lemma contains_Nil [simp]: "contains [] p \<longleftrightarrow> p = []"
  by (simp add: contains_def)

lemma split_on_nonempty [simp]: "split_on c s \<noteq> []"
  by (induction s) (auto split: list.splits)

lemma count_split_on: "length (split_on c s) = Suc (count_list s c)"
  by (induction s) (auto split: list.splits)

lemma of_digit_char [simp]: "d < 10 \<Longrightarrow> of_char (digit_char d) = 48 + d"
  by (simp add: digit_char_def)

lemma digit_char_inj: "a < 10 \<Longrightarrow> b < 10 \<Longrightarrow> digit_char a = digit_char b \<longleftrightarrow> a = b"
  by (metis add_left_cancel of_digit_char)

subsection \<open>Decimal digits are read back\<close>

lemma num_Nil [simp]: "num [] = 0" by (simp add: num_def)

lemma num_nat_dec [simp]: "num (nat_dec n) = int n"
proof (induction n rule: nat_dec.induct)
  case (1 n)
  have "byte (digit_char d) = 48 + int d" if "d < 10" for d using that by (simp add: byte_def)
  with 1 show ?case by (subst nat_dec.simps) (auto simp: num_append num_append [of "[]", simplified] zdiv_int zmod_int)
qed

lemma num_zeros: "num (replicate k (CHR ''0'') @ s) = num s"
proof (induction k)
  case (Suc k)
  then show ?case by (simp add: num_def byte_def)
qed simp

lemma num_pad_dec [simp]: "num (pad_dec k n) = int n"
  by (simp add: pad_dec_def num_zeros)

lemma length_nat_dec: "0 < k \<Longrightarrow> n < 10 ^ k \<Longrightarrow> length (nat_dec n) \<le> k"
proof (induction n arbitrary: k rule: nat_dec.induct)
  case (1 n)
  show ?case
  proof (cases "n < 10")
    case True
    with 1 show ?thesis by (subst nat_dec.simps) simp
  next
    case False
    with 1 have "1 < k" by (cases "k = 1") auto
    then have "n div 10 < 10 ^ (k - 1)" using 1(3)
      by (cases k) (auto simp: div_less_iff_less_mult mult.commute)
    with 1(1) [of "k - 1"] False \<open>1 < k\<close> show ?thesis by (subst nat_dec.simps) auto
  qed
qed

lemma length_pad_dec: "0 < k \<Longrightarrow> n < 10 ^ k \<Longrightarrow> length (pad_dec k n) = k"
  using length_nat_dec [of k n] by (simp add: pad_dec_def)

lemma digits_nat_dec: "list_all is_digit (nat_dec n)"
proof (induction n rule: nat_dec.induct)
  case (1 n)
  have "is_digit (digit_char d)" if "d < 10" for d using that by (simp add: is_digit_def byte_def)
  with 1 show ?case by (subst nat_dec.simps) auto
qed

lemma digits_pad_dec: "list_all is_digit (pad_dec k n)"
  using digits_nat_dec by (auto simp: pad_dec_def list_all_iff is_digit_def byte_def)

lemma num_trim: "num (rev (dropWhile (\<lambda>c. c = CHR ''0'') (rev s))) * 10 ^ (length s - length (dropWhile (\<lambda>c. c = CHR ''0'') (rev s))) = num s"
proof (induction s rule: rev_induct)
  case (snoc c s)
  let ?z = "dropWhile (\<lambda>c. c = CHR ''0'') (rev s)"
  have "length ?z \<le> length s" using length_dropWhile_le [of _ "rev s"] by simp
  then have "Suc (length s) - length ?z = Suc (length s - length ?z)" by simp
  with snoc show ?case by (auto simp: num_append byte_def)
qed simp

subsection \<open>Generic list facts\<close>

definition count_true :: "bool list \<Rightarrow> int" where
  "count_true bs = int (length (filter id bs))"

lemma count_true_simps [simp]:
  "count_true [] = 0"
  "count_true (b # bs) = (if b then 1 else 0) + count_true bs"
  "count_true (xs @ ys) = count_true xs + count_true ys"
  by (simp_all add: count_true_def)

lemma count_true_bounds: "0 \<le> count_true bs" "count_true bs \<le> int (length bs)"
  by (simp_all add: count_true_def)

text \<open>\<open>lastn n xs\<close>: the newest \<open>n\<close> entries of a history kept oldest first.\<close>

definition lastn :: "nat \<Rightarrow> 'a list \<Rightarrow> 'a list" where
  "lastn n xs = drop (length xs - n) xs"

lemma length_lastn [simp]: "length (lastn n xs) = min n (length xs)"
  by (auto simp: lastn_def)

lemma lastn_all [simp]: "length xs \<le> n \<Longrightarrow> lastn n xs = xs"
  by (simp add: lastn_def)

lemma lastn_snoc: "0 < n \<Longrightarrow> lastn n (xs @ [x]) = lastn (n - 1) xs @ [x]"
  by (cases "n \<le> Suc (length xs)") (auto simp: lastn_def)

end
