(* ===== verification/Quota.thy ===== *)
theory Quota
  imports Prelude
begin

text \<open>
  The budget of physical request attempts, \<^verbatim>\<open>internal/load/quota.go\<close>.
  The operations are functions on the record \<open>quota\<close>; \<open>acquire\<close> is the compare-and-swap
  loop as it runs when nothing interferes.  The second half models the loop as the
  goroutines execute it: each load and each compare-and-swap is one atomic step of an
  arbitrary interleaving, and the properties are invariants of its reachable states.
\<close>

datatype quota_error = ErrQuotaExhausted

record quota =
  q_budget :: int
  q_hardCap :: int
  q_used :: int
  q_closed :: bool

definition new_quota :: "int \<Rightarrow> int \<Rightarrow> quota" where
  "new_quota budget hardCap =
     (let b = (if hardCap > 0 \<and> budget > hardCap then hardCap else budget)
      in \<lparr>q_budget = b, q_hardCap = hardCap, q_used = 0, q_closed = False\<rparr>)"

definition remaining :: "quota \<Rightarrow> int" where
  "remaining q = (let r = s64 (q_budget q - q_used q) in if r < 0 then 0 else r)"

definition close_quota :: "quota \<Rightarrow> quota" where
  "close_quota q = q\<lparr>q_closed := True\<rparr>"

definition exhausted :: "quota \<Rightarrow> int \<Rightarrow> bool" where
  "exhausted q cur \<longleftrightarrow> cur \<ge> q_budget q \<or> (q_hardCap q > 0 \<and> cur \<ge> q_hardCap q)"

definition acquire :: "quota \<Rightarrow> (quota_error + int) \<times> quota" where
  "acquire q =
     (if q_closed q then (Inl ErrQuotaExhausted, q)
      else (let cur = q_used q in
        if exhausted q cur then (Inl ErrQuotaExhausted, q)
        else (Inr (cur + 1), q\<lparr>q_used := cur + 1\<rparr>)))"

text \<open>The number of attempts the two limits allow together.\<close>

definition limit :: "quota \<Rightarrow> int" where
  "limit q = (if q_hardCap q > 0 then min (q_budget q) (q_hardCap q) else q_budget q)"

lemma exhausted_iff: "exhausted q cur \<longleftrightarrow> limit q \<le> cur"
  by (auto simp: exhausted_def limit_def)

lemma limit_new_quota: "limit (new_quota b h) = (if h > 0 then min b h else b)"
  by (auto simp: limit_def new_quota_def Let_def)

lemma new_quota_sel [simp]:
  "q_used (new_quota b h) = 0" "q_closed (new_quota b h) = False"
  "q_hardCap (new_quota b h) = h"
  by (simp_all add: new_quota_def Let_def)

lemma limit_upd [simp]: "limit (q\<lparr>q_used := u\<rparr>) = limit q" "limit (q\<lparr>q_closed := c\<rparr>) = limit q"
  by (simp_all add: limit_def)

subsection \<open>The interface the load runner relies on\<close>

text \<open>
  A guard hands out the units of a budget: a unit is numbered one above the units spent so
  far, a refusal changes nothing, and no number exceeds the cap.
\<close>

locale budget_guard =
  fixes take_unit :: "'q \<Rightarrow> ('e + int) \<times> 'q"
    and spent :: "'q \<Rightarrow> int"
    and cap :: "'q \<Rightarrow> int"
  assumes take_ok: "take_unit q = (Inr n, q') \<Longrightarrow>
      n = spent q + 1 \<and> spent q' = n \<and> cap q' = cap q \<and> n \<le> cap q"
    and take_refused: "take_unit q = (Inl e, q') \<Longrightarrow> q' = q"
begin

fun take_units :: "nat \<Rightarrow> 'q \<Rightarrow> int list \<times> 'q" where
  "take_units 0 q = ([], q)"
| "take_units (Suc n) q =
     (case take_unit q of
        (Inl e, q') \<Rightarrow> take_units n q'
      | (Inr u, q') \<Rightarrow> let (us, q'') = take_units n q' in (u # us, q''))"

lemma take_units_consecutive:
  "take_units n q = (us, q') \<Longrightarrow> us = [spent q + 1..spent q'] \<and> spent q \<le> spent q' \<and> cap q' = cap q
     \<and> (us \<noteq> [] \<longrightarrow> spent q' \<le> cap q)"
proof (induction n arbitrary: q us q')
  case 0
  then show ?case by simp
next
  case (Suc n)
  obtain r q1 where r: "take_unit q = (r, q1)" by (cases "take_unit q")
  show ?case
  proof (cases r)
    case (Inl e)
    then have "take_units n q1 = (us, q')" "q1 = q"
      using Suc.prems r take_refused [of q e q1] by auto
    then show ?thesis using Suc.IH by blast
  next
    case (Inr u)
    obtain vs where vs: "take_units n q1 = (vs, q')" "us = u # vs"
      using Suc.prems r Inr by (auto split: prod.splits)
    have u: "u = spent q + 1" "spent q1 = u" "cap q1 = cap q" "u \<le> cap q"
      using take_ok [of q u q1] r Inr by auto
    have ih: "vs = [spent q1 + 1..spent q'] \<and> spent q1 \<le> spent q' \<and> cap q' = cap q1
        \<and> (vs \<noteq> [] \<longrightarrow> spent q' \<le> cap q1)"
      using Suc.IH [OF vs(1)] .
    then have "us = [spent q + 1..spent q']"
      using vs u by (simp add: upto.simps [of "spent q + 1"])
    then show ?thesis using ih u by auto
  qed
qed

lemma take_units_distinct: "take_units n q = (us, q') \<Longrightarrow> distinct us"
  using take_units_consecutive [of n q us q'] by simp

end

lemma acquire_ok_iff:
  "acquire q = (Inr n, q') \<longleftrightarrow>
     \<not> q_closed q \<and> q_used q < limit q \<and> n = q_used q + 1 \<and> q' = q\<lparr>q_used := n\<rparr>"
  by (auto simp: acquire_def Let_def exhausted_iff)

lemma acquire_refused_iff:
  "acquire q = (Inl e, q') \<longleftrightarrow> (q_closed q \<or> limit q \<le> q_used q) \<and> q' = q"
  by (cases e) (auto simp: acquire_def Let_def exhausted_iff)

interpretation quota_guard: budget_guard acquire q_used limit
  by unfold_locales (auto simp: acquire_ok_iff acquire_refused_iff)

subsection \<open>The compare-and-swap loop under interleaving\<close>

text \<open>
  Every goroutine is in one phase of \<^verbatim>\<open>Acquire\<close>.  \<open>Loading\<close> is the top of the retry loop,
  \<open>Loaded cur\<close> the point between a load of \<open>cur\<close> that passed both checks and the
  compare-and-swap.  \<open>grants\<close> is the history of the units handed out, oldest first.
\<close>

datatype phase = Idle | Loading | Loaded int | Granted int | Refused

record shared =
  quota_of :: quota
  phases :: "phase list"
  grants :: "int list"

definition initial :: "int \<Rightarrow> int \<Rightarrow> nat \<Rightarrow> shared" where
  "initial b h n = \<lparr>quota_of = new_quota b h, phases = replicate n Idle, grants = []\<rparr>"

definition set_phase :: "nat \<Rightarrow> phase \<Rightarrow> shared \<Rightarrow> shared" where
  "set_phase t p s = s\<lparr>phases := (phases s)[t := p]\<rparr>"

definition at_phase :: "shared \<Rightarrow> nat \<Rightarrow> phase \<Rightarrow> bool" where
  "at_phase s t p \<longleftrightarrow> t < length (phases s) \<and> phases s ! t = p"

inductive acquire_step :: "shared \<Rightarrow> shared \<Rightarrow> bool" where
  call_closed: "at_phase s t Idle \<Longrightarrow> q_closed (quota_of s) \<Longrightarrow>
     acquire_step s (set_phase t Refused s)"
| call_open: "at_phase s t Idle \<Longrightarrow> \<not> q_closed (quota_of s) \<Longrightarrow>
     acquire_step s (set_phase t Loading s)"
| load_refused: "at_phase s t Loading \<Longrightarrow> exhausted (quota_of s) (q_used (quota_of s)) \<Longrightarrow>
     acquire_step s (set_phase t Refused s)"
| load_passed: "at_phase s t Loading \<Longrightarrow> \<not> exhausted (quota_of s) (q_used (quota_of s)) \<Longrightarrow>
     acquire_step s (set_phase t (Loaded (q_used (quota_of s))) s)"
| cas_won: "at_phase s t (Loaded cur) \<Longrightarrow> q_used (quota_of s) = cur \<Longrightarrow>
     acquire_step s (set_phase t (Granted (cur + 1))
       (s\<lparr>quota_of := (quota_of s)\<lparr>q_used := cur + 1\<rparr>, grants := grants s @ [cur + 1]\<rparr>))"
| cas_lost: "at_phase s t (Loaded cur) \<Longrightarrow> q_used (quota_of s) \<noteq> cur \<Longrightarrow>
     acquire_step s (set_phase t Loading s)"
| returned: "at_phase s t (Granted n) \<or> at_phase s t Refused \<Longrightarrow>
     acquire_step s (set_phase t Idle s)"
| closing: "acquire_step s (s\<lparr>quota_of := close_quota (quota_of s)\<rparr>)"

inductive reachable :: "int \<Rightarrow> int \<Rightarrow> nat \<Rightarrow> shared \<Rightarrow> bool" for b h n where
  start: "reachable b h n (initial b h n)"
| step: "reachable b h n s \<Longrightarrow> acquire_step s s' \<Longrightarrow> reachable b h n s'"

inductive_cases acquire_stepE: "acquire_step s s'"

text \<open>The invariant: what a goroutine that passed the checks still knows about the counter.\<close>

definition phase_ok :: "quota \<Rightarrow> phase \<Rightarrow> bool" where
  "phase_ok q p = (case p of
     Loaded cur \<Rightarrow> 0 \<le> cur \<and> cur \<le> q_used q \<and> cur < limit q
   | Granted n \<Rightarrow> 1 \<le> n \<and> n \<le> q_used q
   | Refused \<Rightarrow> q_closed q \<or> limit q \<le> q_used q
   | _ \<Rightarrow> True)"

definition quota_inv :: "shared \<Rightarrow> bool" where
  "quota_inv s \<longleftrightarrow>
     0 \<le> q_used (quota_of s) \<and> q_used (quota_of s) \<le> max 0 (limit (quota_of s))
     \<and> grants s = [1..q_used (quota_of s)]
     \<and> (\<forall>p \<in> set (phases s). phase_ok (quota_of s) p)"

lemma phase_ok_simps [simp]:
  "phase_ok q Idle" "phase_ok q Loading"
  "phase_ok q (Loaded c) \<longleftrightarrow> 0 \<le> c \<and> c \<le> q_used q \<and> c < limit q"
  "phase_ok q (Granted m) \<longleftrightarrow> 1 \<le> m \<and> m \<le> q_used q"
  "phase_ok q Refused \<longleftrightarrow> q_closed q \<or> limit q \<le> q_used q"
  by (simp_all add: phase_ok_def)

lemma phase_ok_mono:
  "phase_ok q p \<Longrightarrow> q_used q \<le> q_used q' \<Longrightarrow> limit q' = limit q \<Longrightarrow> (q_closed q \<longrightarrow> q_closed q')
    \<Longrightarrow> phase_ok q' p"
  by (cases p) auto

lemma set_phase_sel [simp]:
  "quota_of (set_phase t p s) = quota_of s" "grants (set_phase t p s) = grants s"
  "phases (set_phase t p s) = (phases s)[t := p]"
  by (simp_all add: set_phase_def)

lemma at_phaseD: "at_phase s t p \<Longrightarrow> p \<in> set (phases s)"
  by (auto simp: at_phase_def)

lemma phases_update:
  "\<forall>x \<in> set xs. P x \<Longrightarrow> P p \<Longrightarrow> \<forall>x \<in> set (xs[t := p]). P x"
proof
  fix x assume a: "\<forall>x \<in> set xs. P x" "P p" and "x \<in> set (xs[t := p])"
  then have "x \<in> insert p (set xs)" using set_update_subset_insert [of xs t p] by auto
  with a show "P x" by auto
qed

lemma quota_inv_set_phase:
  "quota_inv s \<Longrightarrow> phase_ok (quota_of s) p \<Longrightarrow> quota_inv (set_phase t p s)"
  using phases_update [of "phases s" "phase_ok (quota_of s)" p t] by (simp add: quota_inv_def)

lemma quota_inv_initial: "quota_inv (initial b h n)"
  by (simp add: quota_inv_def initial_def)

lemma quota_inv_cas_won:
  assumes inv: "quota_inv s" and at: "at_phase s t (Loaded (q_used (quota_of s)))"
  defines "u \<equiv> q_used (quota_of s) + 1"
  shows "quota_inv (s\<lparr>quota_of := (quota_of s)\<lparr>q_used := u\<rparr>, grants := grants s @ [u]\<rparr>)"
proof -
  have ok: "phase_ok (quota_of s) (Loaded (q_used (quota_of s)))"
    using inv at_phaseD [OF at] by (auto simp: quota_inv_def)
  have "\<forall>p \<in> set (phases s). phase_ok ((quota_of s)\<lparr>q_used := u\<rparr>) p"
    using inv by (auto simp: quota_inv_def u_def elim!: phase_ok_mono)
  then show ?thesis
    using inv ok upto_rec2 [of 1 u] by (auto simp: quota_inv_def u_def)
qed

lemma quota_inv_step: "acquire_step s s' \<Longrightarrow> quota_inv s \<Longrightarrow> quota_inv s'"
proof (induction rule: acquire_step.induct)
  case (load_refused s t)
  then show ?case by (intro quota_inv_set_phase) (auto simp: exhausted_iff)
next
  case (load_passed s t)
  then show ?case
    by (intro quota_inv_set_phase) (auto simp: exhausted_iff quota_inv_def)
next
  case (cas_won s t cur)
  then have "quota_inv (s\<lparr>quota_of := (quota_of s)\<lparr>q_used := cur + 1\<rparr>, grants := grants s @ [cur + 1]\<rparr>)"
    using quota_inv_cas_won [of s t] by auto
  then show ?case
    using cas_won by (intro quota_inv_set_phase) (auto simp: quota_inv_def)
next
  case (closing s)
  have "\<forall>p \<in> set (phases s). phase_ok (close_quota (quota_of s)) p"
    using closing by (auto simp: quota_inv_def close_quota_def elim!: phase_ok_mono)
  then show ?case using closing by (simp add: quota_inv_def close_quota_def)
qed (auto intro: quota_inv_set_phase)

lemma reachable_quota_inv: "reachable b h n s \<Longrightarrow> quota_inv s"
  by (induction rule: reachable.induct) (auto intro: quota_inv_initial quota_inv_step)

lemma step_limit: "acquire_step s s' \<Longrightarrow> limit (quota_of s') = limit (quota_of s)"
  by (induction rule: acquire_step.induct) (auto simp: close_quota_def)

lemma reachable_limit: "reachable b h n s \<Longrightarrow> limit (quota_of s) = (if h > 0 then min b h else b)"
  by (induction rule: reachable.induct) (simp_all add: initial_def limit_new_quota step_limit)

text \<open>A goroutine already past the test of the closed flag.\<close>

definition past_check :: "phase \<Rightarrow> bool" where
  "past_check p = (case p of Loading \<Rightarrow> True | Loaded _ \<Rightarrow> True | _ \<Rightarrow> False)"

definition in_loop :: "shared \<Rightarrow> nat" where
  "in_loop s = length (filter past_check (phases s))"

lemma past_check_simps [simp]:
  "past_check Loading" "past_check (Loaded c)" "\<not> past_check Idle" "\<not> past_check (Granted m)"
  "\<not> past_check Refused"
  by (simp_all add: past_check_def)

lemma filter_update:
  "t < length xs \<Longrightarrow>
   length (filter P (xs[t := x])) + (if P (xs ! t) then 1 else 0) =
   length (filter P xs) + (if P x then 1 else 0)"
proof (induction xs arbitrary: t)
  case (Cons y ys)
  then show ?case by (cases t) auto
qed simp

lemma in_loop_update:
  "at_phase s t p \<Longrightarrow>
   in_loop (set_phase t x s) + (if past_check p then 1 else 0) =
   in_loop s + (if past_check x then 1 else 0)"
  using filter_update [of t "phases s" past_check x] by (auto simp: in_loop_def at_phase_def)

lemma in_loop_frame [simp]: "in_loop (s\<lparr>quota_of := q, grants := g\<rparr>) = in_loop s"
  "in_loop (s\<lparr>quota_of := q\<rparr>) = in_loop s"
  "at_phase (s\<lparr>quota_of := q, grants := g\<rparr>) t p = at_phase s t p"
  by (simp_all add: in_loop_def at_phase_def)

lemma in_loop_le:
  "at_phase s t p \<Longrightarrow> past_check p \<or> \<not> past_check x \<Longrightarrow> in_loop (set_phase t x s) \<le> in_loop s"
  using in_loop_update [of s t p x] by (auto split: if_splits)

lemma closed_step:
  "acquire_step s s' \<Longrightarrow> q_closed (quota_of s) \<Longrightarrow>
   q_closed (quota_of s') \<and> length (grants s') + in_loop s' \<le> length (grants s) + in_loop s"
proof (induction rule: acquire_step.induct)
  case (cas_won s t cur)
  then show ?case
    using in_loop_update [of "s\<lparr>quota_of := (quota_of s)\<lparr>q_used := cur + 1\<rparr>, grants := grants s @ [cur + 1]\<rparr>"
        t "Loaded cur" "Granted (cur + 1)"] by simp
next
  case (closing s)
  then show ?case by (simp add: close_quota_def)
qed (auto intro: in_loop_le)

inductive acquire_steps :: "shared \<Rightarrow> shared \<Rightarrow> bool" where
  none: "acquire_steps s s"
| more: "acquire_steps s s' \<Longrightarrow> acquire_step s' s'' \<Longrightarrow> acquire_steps s s''"

lemma closed_steps:
  "acquire_steps s s' \<Longrightarrow> q_closed (quota_of s) \<Longrightarrow>
   q_closed (quota_of s') \<and> length (grants s') + in_loop s' \<le> length (grants s) + in_loop s"
  by (induction rule: acquire_steps.induct) (use closed_step in fastforce)+

subsection \<open>Properties\<close>

text \<open>C13: the quota is exact under any interleaving of \<open>n\<close> goroutines calling
  \<^verbatim>\<open>Acquire\<close> and \<^verbatim>\<open>Close\<close>: the units handed out, in the order of the
  compare-and-swaps that won, are 1, 2, ..., used, each exactly once, and their number never
  exceeds the budget nor, when it is set, the hard cap.\<close>

theorem quota_exact:
  assumes "reachable b h n s"
  shows "grants s = [1..q_used (quota_of s)] \<and>
    q_used (quota_of s) \<le> max 0 (if h > 0 then min b h else b)"
  using reachable_quota_inv [OF assms] reachable_limit [OF assms] by (auto simp: quota_inv_def)

text \<open>One goroutine taking the only unit of a budget of 1, step by step.\<close>

definition demo :: "phase \<Rightarrow> int \<Rightarrow> bool \<Rightarrow> shared" where
  "demo p u c = \<lparr>quota_of = \<lparr>q_budget = 1, q_hardCap = 0, q_used = u, q_closed = c\<rparr>,
     phases = [p], grants = [1..u]\<rparr>"

lemma demo_start: "reachable 1 0 1 (demo Idle 0 False)"
  using reachable.start [of 1 0 1] by (simp add: demo_def initial_def new_quota_def)

lemma demo_loading: "reachable 1 0 1 (demo Loading 0 False)"
  using reachable.step [OF demo_start acquire_step.call_open [of _ 0]]
  by (simp add: demo_def at_phase_def set_phase_def)

lemma demo_loaded: "reachable 1 0 1 (demo (Loaded 0) 0 False)"
  using reachable.step [OF demo_loading acquire_step.load_passed [of _ 0]]
  by (simp add: demo_def at_phase_def set_phase_def exhausted_def)

lemma demo_granted: "reachable 1 0 1 (demo (Granted 1) 1 False)"
  using reachable.step [OF demo_loaded acquire_step.cas_won [of _ 0 0]]
  by (simp add: demo_def at_phase_def set_phase_def)

lemma demo_closed: "reachable 1 0 1 (demo (Loaded 0) 0 True)"
  using reachable.step [OF demo_loaded acquire_step.closing]
  by (simp add: demo_def close_quota_def)

lemma demo_closed_grant: "acquire_step (demo (Loaded 0) 0 True) (demo (Granted 1) 1 True)"
  using acquire_step.cas_won [of "demo (Loaded 0) 0 True" 0 0]
  by (simp add: demo_def at_phase_def set_phase_def)

lemma demo_refused: "reachable 1 0 1 (demo Refused 1 False)"
proof -
  have "reachable 1 0 1 (demo Idle 1 False)"
    using reachable.step [OF demo_granted acquire_step.returned [of _ 0 1]]
    by (simp add: demo_def at_phase_def set_phase_def)
  from reachable.step [OF this acquire_step.call_open [of _ 0]]
  have "reachable 1 0 1 (demo Loading 1 False)"
    by (simp add: demo_def at_phase_def set_phase_def)
  from reachable.step [OF this acquire_step.load_refused [of _ 0]]
  show ?thesis by (simp add: demo_def at_phase_def set_phase_def exhausted_def)
qed

theorem quota_exact_witness:
  "grants (demo (Granted 1) 1 False) = [1..1] \<and> q_used (quota_of (demo (Granted 1) 1 False)) \<le> 1"
  using quota_exact [OF demo_granted] by (simp add: demo_def)

text \<open>No unit is lost: a goroutine is refused only when the budget was closed or every unit
  of it has been handed out, whatever compare-and-swaps it lost before.\<close>

theorem quota_refusal_justified:
  assumes "reachable b h n s" and "at_phase s t Refused"
  shows "q_closed (quota_of s) \<or> (if h > 0 then min b h else b) \<le> q_used (quota_of s)"
  using reachable_quota_inv [OF assms(1)] reachable_limit [OF assms(1)] at_phaseD [OF assms(2)]
  by (auto simp: quota_inv_def)

theorem quota_refusal_justified_witness:
  "q_closed (quota_of (demo Refused 1 False)) \<or> 1 \<le> q_used (quota_of (demo Refused 1 False))"
  using quota_refusal_justified [OF demo_refused, of 0] by (simp add: demo_def at_phase_def)

text \<open>After \<^verbatim>\<open>Close\<close> the budget stays closed and hands out at most one more unit for
  each goroutine that had already passed the test of the closed flag; every later call is
  refused.\<close>

theorem quota_after_close:
  assumes "acquire_steps s s'" and "q_closed (quota_of s)"
  shows "q_closed (quota_of s') \<and> length (grants s') \<le> length (grants s) + in_loop s"
  using closed_steps [OF assms] by linarith

theorem quota_after_close_witness:
  "q_closed (quota_of (demo (Granted 1) 1 True)) \<and>
   length (grants (demo (Granted 1) 1 True)) \<le> length (grants (demo (Loaded 0) 0 True)) + 1"
  using quota_after_close [OF acquire_steps.more [OF acquire_steps.none demo_closed_grant]]
  by (simp add: demo_def in_loop_def)

text \<open>That bound is reached: a unit can be issued after the budget was closed, by a
  goroutine that loaded the counter before the close.\<close>

theorem quota_issue_after_close:
  "\<exists>s s'. reachable 1 0 1 s \<and> q_closed (quota_of s) \<and> acquire_step s s' \<and> grants s' = grants s @ [1]"
  using demo_closed demo_closed_grant
  by (intro exI [of _ "demo (Loaded 0) 0 True"] exI [of _ "demo (Granted 1) 1 True"])
    (simp add: demo_def)

end
