(* ===== verification/Go_Float.thy ===== *)
theory Go_Float
  imports Prelude Complex_Main
begin

text \<open>
  Go's \<^verbatim>\<open>float64\<close>: IEEE 754 binary64 with round-to-nearest-even after every operation.
  A finite value is the rational number it denotes; NaN and the infinities are separate
  constructors, so the comparisons behave as Go's do (every comparison with NaN is false).
  The sign of zero is not kept: it is observable only through a division by zero, which is
  taken to be a division by \<open>+0\<close>.
  The conversion of a float64 to an integer type is implementation-specific when the value
  does not fit; that choice is the parameter \<open>oob\<close> of \<open>f64_to_i64\<close>.
\<close>

datatype f64 = FNaN | FInf bool | Fin rat

subsection \<open>Rounding\<close>

text \<open>\<open>ilog2 r\<close> is the binary exponent of a positive rational: \<open>2 powi ilog2 r \<le> r < 2 powi (ilog2 r + 1)\<close>.\<close>

definition ilog2 :: "rat \<Rightarrow> int" where
  "ilog2 r = (if 1 \<le> r then bitlen \<lfloor>r\<rfloor> - 1 else - bitlen (\<lceil>1 / r\<rceil> - 1))"

text \<open>Round half to even.\<close>

definition rne :: "rat \<Rightarrow> int" where
  "rne x = (let f = \<lfloor>x\<rfloor>; d = x - of_int f in
     if d < 1 / 2 then f else if 1 / 2 < d then f + 1 else if even f then f else f + 1)"

definition ulp_exp :: "rat \<Rightarrow> int" where
  "ulp_exp r = max (ilog2 \<bar>r\<bar> - 52) (- 1074)"

definition grid :: "rat \<Rightarrow> rat" where
  "grid r = (if r = 0 then 0 else of_int (rne (r / 2 powi ulp_exp r)) * 2 powi ulp_exp r)"

definition rnd :: "rat \<Rightarrow> f64" where
  "rnd r = (let g = grid r in if 2 ^ 1024 \<le> \<bar>g\<bar> then FInf (g < 0) else Fin g)"

subsection \<open>Operations\<close>

definition f64_of_int :: "int \<Rightarrow> f64" where
  "f64_of_int n = rnd (of_int n)"

definition f64_neg :: "f64 \<Rightarrow> bool" where
  "f64_neg x = (case x of FNaN \<Rightarrow> False | FInf n \<Rightarrow> n | Fin r \<Rightarrow> r < 0)"

fun fadd :: "f64 \<Rightarrow> f64 \<Rightarrow> f64" where
  "fadd (Fin a) (Fin b) = rnd (a + b)"
| "fadd FNaN _ = FNaN"
| "fadd _ FNaN = FNaN"
| "fadd (FInf s) (FInf t) = (if s = t then FInf s else FNaN)"
| "fadd (FInf s) (Fin _) = FInf s"
| "fadd (Fin _) (FInf s) = FInf s"

fun fmul :: "f64 \<Rightarrow> f64 \<Rightarrow> f64" where
  "fmul (Fin a) (Fin b) = rnd (a * b)"
| "fmul FNaN _ = FNaN"
| "fmul _ FNaN = FNaN"
| "fmul (FInf s) (FInf t) = FInf (s \<noteq> t)"
| "fmul (FInf s) (Fin b) = (if b = 0 then FNaN else FInf (s \<noteq> (b < 0)))"
| "fmul (Fin a) (FInf s) = (if a = 0 then FNaN else FInf (s \<noteq> (a < 0)))"

fun fdiv :: "f64 \<Rightarrow> f64 \<Rightarrow> f64" where
  "fdiv (Fin a) (Fin b) =
     (if b = 0 then (if a = 0 then FNaN else FInf (a < 0)) else rnd (a / b))"
| "fdiv FNaN _ = FNaN"
| "fdiv _ FNaN = FNaN"
| "fdiv (FInf s) (FInf t) = FNaN"
| "fdiv (FInf s) (Fin b) = FInf (s \<noteq> (b < 0))"
| "fdiv (Fin a) (FInf s) = Fin 0"

text \<open>Go's comparison operators on float64.\<close>

instantiation f64 :: ord
begin

fun less_eq_f64 :: "f64 \<Rightarrow> f64 \<Rightarrow> bool" where
  "less_eq_f64 (Fin a) (Fin b) = (a \<le> b)"
| "less_eq_f64 FNaN _ = False"
| "less_eq_f64 _ FNaN = False"
| "less_eq_f64 (FInf s) (FInf t) = (s \<or> \<not> t)"
| "less_eq_f64 (FInf s) (Fin _) = s"
| "less_eq_f64 (Fin _) (FInf t) = (\<not> t)"

fun less_f64 :: "f64 \<Rightarrow> f64 \<Rightarrow> bool" where
  "less_f64 (Fin a) (Fin b) = (a < b)"
| "less_f64 FNaN _ = False"
| "less_f64 _ FNaN = False"
| "less_f64 (FInf s) (FInf t) = (s \<and> \<not> t)"
| "less_f64 (FInf s) (Fin _) = s"
| "less_f64 (Fin _) (FInf t) = (\<not> t)"

instance ..

end

text \<open>\<^verbatim>\<open>==\<close> on float64.\<close>

definition feq :: "f64 \<Rightarrow> f64 \<Rightarrow> bool" where
  "feq x y \<longleftrightarrow> x = y \<and> x \<noteq> FNaN"

text \<open>\<^verbatim>\<open>int64(x)\<close>: truncation towards zero.\<close>

definition trunc_rat :: "rat \<Rightarrow> int" where
  "trunc_rat r = (if 0 \<le> r then \<lfloor>r\<rfloor> else \<lceil>r\<rceil>)"

definition f64_to_i64 :: "(f64 \<Rightarrow> int) \<Rightarrow> f64 \<Rightarrow> int" where
  "f64_to_i64 oob x = (case x of
     Fin r \<Rightarrow> (if in_i64 (trunc_rat r) then trunc_rat r else oob x)
   | _ \<Rightarrow> oob x)"

text \<open>\<^verbatim>\<open>Duration.Seconds\<close>: whole seconds plus the remaining nanoseconds over 1e9.\<close>

definition duration_seconds :: "duration \<Rightarrow> f64" where
  "duration_seconds d =
     fadd (f64_of_int (d sdiv second)) (fdiv (f64_of_int (d smod second)) (Fin 1000000000))"

text \<open>\<^verbatim>\<open>%.<d>f\<close> and \<^verbatim>\<open>strconv.FormatFloat(x, 'f', d, 64)\<close>: the exact value rounded
  half to even at \<open>d\<close> decimals.\<close>

definition fmt_fixed :: "nat \<Rightarrow> f64 \<Rightarrow> string" where
  "fmt_fixed d x = (case x of
     FNaN \<Rightarrow> ''NaN''
   | FInf n \<Rightarrow> (if n then ''-Inf'' else ''+Inf'')
   | Fin r \<Rightarrow> (let m = nat \<bar>rne (r * 10 ^ d)\<bar> in
       (if r < 0 then ''-'' else []) @ nat_dec (m div 10 ^ d) @
       (if d = 0 then [] else ''.'' @ pad_dec d (m mod 10 ^ d))))"

subsection \<open>The binary exponent and integer rounding\<close>

lemma ilog2_bounds:
  assumes "0 < r"
  shows "2 powi ilog2 r \<le> r" and "r < 2 powi (ilog2 r + 1)"
proof -
  have "2 powi ilog2 r \<le> r \<and> r < 2 powi (ilog2 r + 1)"
  proof (cases "1 \<le> r")
    case True
    define n where "n = \<lfloor>r\<rfloor>"
    have n: "0 < n" using True by (simp add: n_def)
    have b: "2 ^ nat (bitlen n - 1) \<le> n" "n < 2 ^ nat (bitlen n)"
      using bitlen_bounds [OF n] by auto
    have p: "0 < bitlen n" using b(2) n by (cases "bitlen n \<le> 0") auto
    have "2 powi (bitlen n - 1) = (of_int (2 ^ nat (bitlen n - 1)) :: rat)"
      using p by (simp add: power_int_def)
    moreover have "of_int (2 ^ nat (bitlen n - 1)) \<le> r"
      using b(1) by (simp add: n_def le_floor_iff)
    moreover have "r < of_int (2 ^ nat (bitlen n))"
      using b(2) by (simp add: n_def floor_less_iff)
    moreover have "2 powi bitlen n = (of_int (2 ^ nat (bitlen n)) :: rat)"
      using p by (simp add: power_int_def)
    ultimately show ?thesis using True by (simp add: ilog2_def n_def)
  next
    case False
    define n where "n = \<lceil>1 / r\<rceil>"
    have r1: "1 < 1 / r" using False assms by (simp add: field_simps)
    then have n: "1 < n" by (simp add: n_def less_ceiling_iff)
    have b: "2 ^ nat (bitlen (n - 1) - 1) \<le> n - 1" "n - 1 < 2 ^ nat (bitlen (n - 1))"
      using bitlen_bounds [of "n - 1"] n by auto
    have p: "0 < bitlen (n - 1)" using b(2) n by (cases "bitlen (n - 1) \<le> 0") auto
    have "n \<le> 2 ^ nat (bitlen (n - 1))" using b(2) by simp
    then have u: "1 / r \<le> of_int (2 ^ nat (bitlen (n - 1)))"
      by (simp add: n_def ceiling_le_iff)
    have "2 ^ nat (bitlen (n - 1) - 1) < n" using b(1) by simp
    then have l: "of_int (2 ^ nat (bitlen (n - 1) - 1)) < 1 / r"
      by (simp add: n_def less_ceiling_iff)
    have e1: "2 powi (- bitlen (n - 1)) = (1 / of_int (2 ^ nat (bitlen (n - 1))) :: rat)"
      using p by (simp add: power_int_minus_divide power_int_def power_one_over)
    have e2: "2 powi (- bitlen (n - 1) + 1) = (1 / of_int (2 ^ nat (bitlen (n - 1) - 1)) :: rat)"
      using p power_int_minus_divide [of "2::rat" "bitlen (n - 1) - 1"] by (simp add: power_int_def)
    have "2 powi (- bitlen (n - 1)) \<le> r" using u assms unfolding e1 by (simp add: field_simps)
    moreover have "r < 2 powi (- bitlen (n - 1) + 1)" using l assms unfolding e2 by (simp add: field_simps)
    ultimately show ?thesis using False by (simp add: ilog2_def n_def)
  qed
  then show "2 powi ilog2 r \<le> r" and "r < 2 powi (ilog2 r + 1)" by simp_all
qed

lemma powi_less_iff: "(2::rat) powi a < 2 powi b \<longleftrightarrow> a < b"
  using power_int_strict_increasing [of a b "2::rat"] power_int_increasing [of b a "2::rat"]
  by (cases "a < b") auto

lemma powi_le_iff: "(2::rat) powi a \<le> 2 powi b \<longleftrightarrow> a \<le> b"
  by (metis linorder_not_less powi_less_iff)

lemma ilog2_less_iff: "0 < r \<Longrightarrow> ilog2 r < e \<longleftrightarrow> r < 2 powi e"
proof -
  assume r: "0 < r"
  show ?thesis
  proof
    assume "ilog2 r < e"
    then have "(2::rat) powi (ilog2 r + 1) \<le> 2 powi e" by (simp add: powi_le_iff)
    with ilog2_bounds(2) [OF r] show "r < 2 powi e" by simp
  next
    assume "r < 2 powi e"
    with ilog2_bounds(1) [OF r] have "(2::rat) powi ilog2 r < 2 powi e" by simp
    then show "ilog2 r < e" by (simp add: powi_less_iff)
  qed
qed

lemma ilog2_mono: "0 < x \<Longrightarrow> x \<le> y \<Longrightarrow> ilog2 x \<le> ilog2 y"
proof -
  assume a: "0 < x" "x \<le> y"
  then have "\<not> ilog2 y < ilog2 x"
    using ilog2_bounds(1) [OF a(1)] ilog2_less_iff [of y "ilog2 x"] by simp
  then show ?thesis by simp
qed

lemma rne_mono: "x \<le> y \<Longrightarrow> rne x \<le> rne y"
proof -
  assume xy: "x \<le> y"
  then have f: "\<lfloor>x\<rfloor> \<le> \<lfloor>y\<rfloor>" by (rule floor_mono)
  show ?thesis
  proof (cases "\<lfloor>x\<rfloor> = \<lfloor>y\<rfloor>")
    case True
    then show ?thesis using xy by (auto simp: rne_def Let_def)
  next
    case False
    then have "\<lfloor>x\<rfloor> + 1 \<le> \<lfloor>y\<rfloor>" using f by simp
    moreover have "rne x \<le> \<lfloor>x\<rfloor> + 1" "\<lfloor>y\<rfloor> \<le> rne y" by (auto simp: rne_def Let_def)
    ultimately show ?thesis by simp
  qed
qed

lemma rne_of_int [simp]: "rne (of_int k) = k"
  by (simp add: rne_def)

lemma rne_err: "\<bar>of_int (rne x) - x\<bar> \<le> 1 / 2"
proof -
  have "of_int \<lfloor>x\<rfloor> \<le> x" "x < of_int \<lfloor>x\<rfloor> + 1" by linarith+
  then show ?thesis by (auto simp: rne_def Let_def abs_le_iff)
qed

lemma rne_minus: "rne (- x) = - rne x"
proof (cases "x = of_int \<lfloor>x\<rfloor>")
  case True
  then show ?thesis by (metis of_int_minus rne_of_int)
next
  case False
  have b: "of_int \<lfloor>x\<rfloor> < x" "x < of_int \<lfloor>x\<rfloor> + 1"
    using False by linarith+
  then have "\<lfloor>- x\<rfloor> = - \<lfloor>x\<rfloor> - 1"
    by (intro floor_unique) simp_all
  then show ?thesis using b by (auto simp: rne_def Let_def)
qed

lemma rne_le_int: "x \<le> of_int k \<Longrightarrow> rne x \<le> k"
  using rne_mono [of x "of_int k"] by simp

lemma rne_ge_int: "of_int k \<le> x \<Longrightarrow> k \<le> rne x"
  using rne_mono [of "of_int k" x] by simp

subsection \<open>The rounding grid\<close>

lemma grid_0 [simp]: "grid 0 = 0"
  by (simp add: grid_def)

lemma grid_minus [simp]: "grid (- r) = - grid r"
  by (simp add: grid_def ulp_exp_def rne_minus)

lemma grid_form: "\<exists>k. grid r = of_int k * 2 powi ulp_exp r"
  by (cases "r = 0") (auto simp: grid_def)

text \<open>A multiple of the spacing at \<open>r\<close> that bounds \<open>r\<close> bounds the rounded value.\<close>

lemma grid_le:
  assumes "r \<noteq> 0" "r \<le> of_int k * 2 powi ulp_exp r"
  shows "grid r \<le> of_int k * 2 powi ulp_exp r"
proof -
  have "r / 2 powi ulp_exp r \<le> of_int k" using assms by (simp add: pos_divide_le_eq)
  then show ?thesis using assms by (simp add: grid_def rne_le_int)
qed

lemma grid_ge:
  assumes "r \<noteq> 0" "of_int k * 2 powi ulp_exp r \<le> r"
  shows "of_int k * 2 powi ulp_exp r \<le> grid r"
proof -
  have "of_int k \<le> r / 2 powi ulp_exp r" using assms by (simp add: pos_le_divide_eq)
  then show ?thesis using assms by (simp add: grid_def rne_ge_int)
qed

lemma powi_shift: "e \<le> f \<Longrightarrow> (2::rat) powi f = of_int (2 ^ nat (f - e)) * 2 powi e"
  using power_int_add [of "2::rat" "f - e" e] by (simp add: power_int_def)

lemma grid_le_powi: "0 < r \<Longrightarrow> r \<le> 2 powi f \<Longrightarrow> ulp_exp r \<le> f \<Longrightarrow> grid r \<le> 2 powi f"
  using grid_le [of r "2 ^ nat (f - ulp_exp r)"] powi_shift [of "ulp_exp r" f] by simp

lemma grid_ge_powi: "0 < r \<Longrightarrow> 2 powi f \<le> r \<Longrightarrow> ulp_exp r \<le> f \<Longrightarrow> 2 powi f \<le> grid r"
  using grid_ge [of r "2 ^ nat (f - ulp_exp r)"] powi_shift [of "ulp_exp r" f] by simp

lemma grid_nonneg: "0 \<le> r \<Longrightarrow> 0 \<le> grid r"
  using grid_ge [of r 0] by (cases "r = 0") simp_all

lemma ulp_exp_mono: "0 < x \<Longrightarrow> x \<le> y \<Longrightarrow> ulp_exp x \<le> ulp_exp y"
  using ilog2_mono [of x y] by (simp add: ulp_exp_def)

lemma grid_mono_pos:
  assumes "0 < x" "x \<le> y"
  shows "grid x \<le> grid y"
proof (cases "ulp_exp x = ulp_exp y")
  case True
  have "x / 2 powi ulp_exp y \<le> y / 2 powi ulp_exp y" using assms by (simp add: divide_right_mono)
  then show ?thesis using True assms by (simp add: grid_def rne_mono)
next
  case False
  then have lt: "ulp_exp x < ulp_exp y" using ulp_exp_mono [OF assms] by simp
  have y: "0 < y" and a: "\<bar>x\<bar> = x" "\<bar>y\<bar> = y" using assms by auto
  from lt have uy: "ulp_exp y = ilog2 y - 52" and xy: "ilog2 x < ilog2 y"
    by (auto simp: ulp_exp_def max_def a split: if_splits)
  have "grid x \<le> 2 powi ilog2 y"
    using lt uy xy assms ilog2_less_iff [of x "ilog2 y"] by (intro grid_le_powi) auto
  also have "\<dots> \<le> grid y"
    using ilog2_bounds(1) [OF y] uy y by (intro grid_ge_powi) auto
  finally show ?thesis .
qed

lemma grid_mono: "x \<le> y \<Longrightarrow> grid x \<le> grid y"
proof -
  assume xy: "x \<le> y"
  consider "0 < x" | "y < 0" | "x \<le> 0" "0 \<le> y" using xy by linarith
  then show ?thesis
  proof cases
    case 1
    then show ?thesis using xy by (rule grid_mono_pos)
  next
    case 2
    then show ?thesis using grid_mono_pos [of "- y" "- x"] xy by simp
  next
    case 3
    then show ?thesis using grid_nonneg [of "- x"] grid_nonneg [of y] by simp
  qed
qed

text \<open>Values with at most 53 significant bits are not changed.\<close>

lemma grid_exact:
  assumes "\<bar>k\<bar> \<le> 2 ^ 53" "- 1074 \<le> j"
  shows "grid (of_int k * 2 powi j) = of_int k * 2 powi j"
proof (cases "k = 0")
  case False
  let ?r = "of_int k * 2 powi j :: rat"
  have r0: "?r \<noteq> 0" using False by simp
  have ab: "\<bar>?r\<bar> = of_int \<bar>k\<bar> * 2 powi j" by (simp add: abs_mult)
  have step: "grid ?r = ?r" if "ulp_exp ?r \<le> j"
  proof -
    have "?r = of_int (k * 2 ^ nat (j - ulp_exp ?r)) * 2 powi ulp_exp ?r"
      using powi_shift [OF that] by (simp add: mult.assoc)
    then have "?r / 2 powi ulp_exp ?r = of_int (k * 2 ^ nat (j - ulp_exp ?r))"
      by (metis nonzero_mult_div_cancel_right power_int_eq_0_iff zero_neq_numeral)
    then show ?thesis
      using r0 by (simp only: grid_def if_False rne_of_int) (metis nonzero_mult_div_cancel_right
        power_int_eq_0_iff zero_neq_numeral times_divide_eq_left)
  qed
  consider "\<bar>k\<bar> < 2 ^ 53" | "\<bar>k\<bar> = 2 ^ 53" using assms by linarith
  then show ?thesis
  proof cases
    case 1
    then have "of_int \<bar>k\<bar> < (of_int (2 ^ 53) :: rat)" by (simp only: of_int_less_iff)
    then have "\<bar>?r\<bar> < 2 powi (53 + j)"
      by (simp add: ab power_int_add)
    then have "ilog2 \<bar>?r\<bar> < 53 + j" using r0 ilog2_less_iff [of "\<bar>?r\<bar>"] by simp
    then show ?thesis using assms by (intro step) (simp add: ulp_exp_def)
  next
    case 2
    then have "\<bar>?r\<bar> = 2 powi (53 + j)" by (simp add: ab power_int_add)
    then have il: "ulp_exp ?r \<le> 53 + j"
      using ilog2_less_iff [of "\<bar>?r\<bar>" "54 + j"] assms r0 by (simp add: ulp_exp_def powi_less_iff)
    have g: "grid \<bar>?r\<bar> = \<bar>?r\<bar>"
      using grid_le_powi [of "\<bar>?r\<bar>" "53 + j"] grid_ge_powi [of "\<bar>?r\<bar>" "53 + j"] il r0
        \<open>\<bar>?r\<bar> = 2 powi (53 + j)\<close> by (simp add: ulp_exp_def)
    then show ?thesis by (cases "0 \<le> ?r") (auto simp: abs_if split: if_splits)
  qed
qed simp


lemma rne_abs_bound: "\<bar>x\<bar> \<le> of_int k \<Longrightarrow> \<bar>rne x\<bar> \<le> k"
  using rne_le_int [of x k] rne_ge_int [of "- k" x] by (simp add: abs_le_iff minus_le_iff)

lemma grid_idem [simp]: "grid (grid r) = grid r"
proof (cases "r = 0")
  case False
  let ?e = "ulp_exp r"
  have "\<bar>r\<bar> < 2 powi (ilog2 \<bar>r\<bar> + 1)" using ilog2_bounds(2) [of "\<bar>r\<bar>"] False by simp
  also have "\<dots> \<le> 2 powi (53 + ?e)" by (simp add: powi_le_iff ulp_exp_def)
  finally have "\<bar>r / 2 powi ?e\<bar> \<le> of_int (2 ^ 53)"
    by (simp add: abs_divide pos_divide_le_eq power_int_add)
  then have "\<bar>rne (r / 2 powi ?e)\<bar> \<le> 2 ^ 53" by (rule rne_abs_bound)
  then show ?thesis
    using grid_exact [of "rne (r / 2 powi ?e)" ?e] False by (simp add: grid_def ulp_exp_def)
qed simp

lemma grid_of_int: "\<bar>n\<bar> \<le> 2 ^ 53 \<Longrightarrow> grid (of_int n) = of_int n"
  using grid_exact [of n 0] by simp

lemma grid_le_rep: "x \<le> z \<Longrightarrow> grid z = z \<Longrightarrow> grid x \<le> z"
  by (metis grid_mono)

lemma grid_ge_rep: "z \<le> x \<Longrightarrow> grid z = z \<Longrightarrow> z \<le> grid x"
  by (metis grid_mono)

text \<open>The relative rounding error of a normal value is at most \<open>2 powi - 53\<close>.\<close>

lemma grid_err:
  assumes "2 powi (- 1022) \<le> \<bar>r\<bar>"
  shows "\<bar>grid r - r\<bar> \<le> \<bar>r\<bar> / 2 ^ 53"
proof -
  have p: "(0::rat) < 2 powi (- 1022)" by simp
  have r: "0 < \<bar>r\<bar>" using order_less_le_trans [OF p assms] .
  have "\<not> ilog2 \<bar>r\<bar> < - 1022" using assms ilog2_less_iff [OF r, of "- 1022"] by simp
  then have e: "ulp_exp r = ilog2 \<bar>r\<bar> - 52" by (simp add: ulp_exp_def)
  let ?u = "2 powi ulp_exp r :: rat"
  have "grid r - r = (of_int (rne (r / ?u)) - r / ?u) * ?u"
    using r by (simp add: grid_def left_diff_distrib)
  then have "\<bar>grid r - r\<bar> \<le> 1 / 2 * ?u"
    using mult_right_mono [OF rne_err [of "r / ?u"], of ?u] by (simp add: abs_mult)
  also have "?u = 2 powi ilog2 \<bar>r\<bar> / 2 ^ 52"
    unfolding e by (simp add: power_int_diff)
  also have "1 / 2 * (2 powi ilog2 \<bar>r\<bar> / 2 ^ 52) \<le> \<bar>r\<bar> / 2 ^ 53"
    using ilog2_bounds(1) [OF r] by simp
  finally show ?thesis .
qed

text \<open>Up to \<open>2 ^ 53\<close> the absolute rounding error is at most one half.\<close>

lemma grid_err_half:
  assumes "\<bar>r\<bar> \<le> 2 ^ 53"
  shows "\<bar>grid r - r\<bar> \<le> 1 / 2"
proof -
  consider "r = 0" | "\<bar>r\<bar> = 2 ^ 53" | "r \<noteq> 0" "\<bar>r\<bar> < 2 ^ 53" using assms by linarith
  then show ?thesis
  proof cases
    case 2
    then have "r = 2 ^ 53 \<or> r = - (2 ^ 53)" by linarith
    then have "grid r = r" using grid_of_int [of "2 ^ 53"] by auto
    then show ?thesis by simp
  next
    case 3
    let ?u = "2 powi ulp_exp r :: rat"
    have "ilog2 \<bar>r\<bar> < 53" using 3 ilog2_less_iff [of "\<bar>r\<bar>" 53] by simp
    then have u: "?u \<le> 1" using powi_le_iff [of "ulp_exp r" 0] by (simp add: ulp_exp_def)
    have "grid r - r = (of_int (rne (r / ?u)) - r / ?u) * ?u"
      using 3 by (simp add: grid_def left_diff_distrib)
    then have "\<bar>grid r - r\<bar> \<le> 1 / 2 * ?u"
      using mult_right_mono [OF rne_err [of "r / ?u"], of ?u] by (simp add: abs_mult)
    then show ?thesis using u by simp
  qed simp
qed

subsection \<open>Facts about the operations\<close>

lemma rnd_exact: "grid r = r \<Longrightarrow> \<bar>r\<bar> < 2 ^ 1024 \<Longrightarrow> rnd r = Fin r"
  by (simp add: rnd_def)

lemma f64_of_int_exact [simp]: "\<bar>n\<bar> \<le> 9007199254740992 \<Longrightarrow> f64_of_int n = Fin (of_int n)"
proof -
  assume n: "\<bar>n\<bar> \<le> 9007199254740992"
  have "\<bar>of_int n :: rat\<bar> = of_int \<bar>n\<bar>" by simp
  also have "\<dots> \<le> of_int 9007199254740992" using n by (simp only: of_int_le_iff)
  also have "\<dots> < 2 ^ 1024" by simp
  finally show ?thesis using n by (simp add: f64_of_int_def rnd_exact grid_of_int)
qed

lemma rnd_of_int: "\<bar>n\<bar> \<le> 9007199254740992 \<Longrightarrow> rnd (of_int n) = Fin (of_int n)"
  using f64_of_int_exact [of n] by (simp add: f64_of_int_def)

lemma rnd_numeral [simp]: "numeral n \<le> (9007199254740992 :: int) \<Longrightarrow> rnd (numeral n) = Fin (numeral n)"
  using f64_of_int_exact [of "numeral n"] by (simp add: f64_of_int_def)

lemma rnd_0 [simp]: "rnd 0 = Fin 0" and rnd_1 [simp]: "rnd 1 = Fin 1"
  using f64_of_int_exact [of 0] f64_of_int_exact [of 1] by (simp_all add: f64_of_int_def)

lemma rnd_mono: "x \<le> y \<Longrightarrow> rnd x \<le> rnd y"
proof -
  assume "x \<le> y"
  then have "grid x \<le> grid y" by (rule grid_mono)
  then show ?thesis by (auto simp: rnd_def Let_def)
qed

lemma rnd_bounded:
  assumes "\<bar>r\<bar> \<le> 2 ^ 1023"
  shows "rnd r = Fin (grid r)" and "\<bar>grid r\<bar> \<le> 2 ^ 1023"
proof -
  have g: "grid (2 ^ 1023) = 2 ^ 1023" using grid_exact [of 1 1023] by simp
  have "grid r \<le> 2 ^ 1023" using assms by (intro grid_le_rep [OF _ g]) simp
  moreover have "- (2 ^ 1023) \<le> grid r"
    using assms g by (intro grid_ge_rep) (simp_all add: abs_le_iff minus_le_iff)
  ultimately show b: "\<bar>grid r\<bar> \<le> 2 ^ 1023" by (simp add: abs_le_iff minus_le_iff)
  have "(2::rat) ^ 1023 < 2 ^ 1024" by simp
  with b show "rnd r = Fin (grid r)" by (simp add: rnd_def)
qed

lemma f64_le_refl: "x \<noteq> FNaN \<Longrightarrow> x \<le> (x :: f64)"
  by (cases x) auto

lemma f64_le_trans: "x \<le> y \<Longrightarrow> y \<le> z \<Longrightarrow> x \<le> (z :: f64)"
  by (cases x; cases y; cases z) auto

lemma f64_not_le: "x \<noteq> FNaN \<Longrightarrow> y \<noteq> FNaN \<Longrightarrow> \<not> x \<le> y \<longleftrightarrow> y < (x :: f64)"
  by (cases x; cases y) auto

lemma f64_le_not_NaN: "x \<le> y \<Longrightarrow> x \<noteq> FNaN \<and> y \<noteq> (FNaN :: f64)"
  by (cases x; cases y) auto

lemma NaN_compare [simp]: "\<not> FNaN \<le> x" "\<not> x \<le> FNaN" "\<not> FNaN < x" "\<not> x < (FNaN :: f64)"
  by (cases x; simp)+

lemma rnd_not_NaN [simp]: "rnd r \<noteq> FNaN"
  by (simp add: rnd_def Let_def)

lemma f64_of_int_mono: "m \<le> n \<Longrightarrow> f64_of_int m \<le> f64_of_int n"
  by (simp add: f64_of_int_def rnd_mono)

lemma trunc_rat_mono: "x \<le> y \<Longrightarrow> trunc_rat x \<le> trunc_rat y"
  by (auto simp: trunc_rat_def floor_mono ceiling_mono) (metis ceiling_le_zero dual_order.trans
      linorder_not_le order_less_imp_le zero_le_floor)

lemma trunc_rat_of_int [simp]: "trunc_rat (of_int n) = n"
  by (simp add: trunc_rat_def)

lemma trunc_rat_err: "\<bar>of_int (trunc_rat r) - r\<bar> < 1"
  by (auto simp: trunc_rat_def) linarith+

end
