(* ===== verification/Breaker.thy ===== *)
theory Breaker
  imports Go_Float
begin

text \<open>
  The circuit breaker, \<^verbatim>\<open>internal/load/breaker.go\<close>: a ring buffer of the last
  \<^verbatim>\<open>Window\<close> outcomes with running counters.  \<open>record_outcome\<close> is \<^verbatim>\<open>Record\<close>; the mutex
  makes each call one atomic step.  The abstract view is the history of outcomes filed so
  far, oldest first: the counters are functions of its last \<^verbatim>\<open>Window\<close> entries.
\<close>

record breaker =
  ErrorRate :: f64
  Window :: int
  ConsecutiveFailures :: int
  recent :: "bool list"
  pos :: int
  filled :: int
  failures :: int
  consecutive :: int
  tripped :: bool
  reason :: string

definition new_breaker :: "f64 \<Rightarrow> int \<Rightarrow> int \<Rightarrow> breaker" where
  "new_breaker errorRate window consec =
     (let w = (if window < 1 then 1 else window) in
      \<lparr>ErrorRate = errorRate, Window = w, ConsecutiveFailures = consec,
       recent = replicate (nat w) False, pos = 0, filled = 0, failures = 0, consecutive = 0,
       tripped = False, reason = []\<rparr>)"

definition disabled_breaker :: breaker where
  "disabled_breaker = new_breaker (Fin 0) 1 0"

definition disabled :: "breaker \<Rightarrow> bool" where
  "disabled b \<longleftrightarrow> ErrorRate b \<le> Fin 0 \<and> ConsecutiveFailures b \<le> 0"

text \<open>The two trip conditions, in the order the code tests them.\<close>

definition consecutive_trip :: "breaker \<Rightarrow> bool" where
  "consecutive_trip b \<longleftrightarrow> ConsecutiveFailures b > 0 \<and> consecutive b \<ge> ConsecutiveFailures b"

definition rate_trip :: "breaker \<Rightarrow> bool" where
  "rate_trip b \<longleftrightarrow> Fin 0 < ErrorRate b \<and> filled b = Window b \<and>
     ErrorRate b \<le> fdiv (f64_of_int (failures b)) (f64_of_int (filled b))"

definition file_outcome :: "breaker \<Rightarrow> bool \<Rightarrow> breaker" where
  "file_outcome b failed =
     (let p = nat (pos b);
          f0 = (if filled b = Window b \<and> recent b ! p then failures b - 1 else failures b)
      in b\<lparr>recent := (recent b)[p := failed],
           pos := (pos b + 1) mod Window b,
           filled := (if filled b < Window b then filled b + 1 else filled b),
           failures := (if failed then f0 + 1 else f0),
           consecutive := (if failed then consecutive b + 1 else 0)\<rparr>)"

definition decide_trip :: "breaker \<Rightarrow> breaker" where
  "decide_trip b =
     (if consecutive_trip b
      then b\<lparr>tripped := True, reason := int_dec (consecutive b) @ '' consecutive failures''\<rparr>
      else if rate_trip b
      then b\<lparr>tripped := True, reason :=
             ''error rate '' @
             fmt_fixed 1 (fmul (fdiv (f64_of_int (failures b)) (f64_of_int (filled b))) (Fin 100)) @
             ''% over the last '' @ int_dec (filled b) @ '' attempts exceeded the '' @
             fmt_fixed 1 (fmul (ErrorRate b) (Fin 100)) @ ''% limit''\<rparr>
      else b)"

definition record_outcome :: "breaker \<Rightarrow> bool \<Rightarrow> bool \<times> breaker" where
  "record_outcome b failed =
     (if disabled b then (False, b)
      else if tripped b then (True, b)
      else (let b' = decide_trip (file_outcome b failed) in (tripped b', b')))"

text \<open>Filing a sequence of outcomes, oldest first.\<close>

definition record_all :: "breaker \<Rightarrow> bool list \<Rightarrow> breaker" where
  "record_all b os = fold (\<lambda>o' b. snd (record_outcome b o')) os b"

lemma record_all_simps [simp]:
  "record_all b [] = b"
  "record_all b (os @ [x]) = snd (record_outcome (record_all b os) x)"
  by (simp_all add: record_all_def)

subsection \<open>The abstract view\<close>

text \<open>The length of the run of failures that ends a history.\<close>

definition failure_run :: "bool list \<Rightarrow> int" where
  "failure_run h = int (length (takeWhile id (rev h)))"

definition window_failures :: "int \<Rightarrow> bool list \<Rightarrow> int" where
  "window_failures w h = count_true (lastn (nat w) h)"

text \<open>\<open>trips\<close>: the specification of when a history of outcomes must stop the run.\<close>

definition trips :: "f64 \<Rightarrow> int \<Rightarrow> int \<Rightarrow> bool list \<Rightarrow> bool" where
  "trips rate w consec h \<longleftrightarrow>
     (consec > 0 \<and> failure_run h \<ge> consec) \<or>
     (Fin 0 < rate \<and> int (length h) \<ge> w \<and>
      rate \<le> fdiv (f64_of_int (window_failures w h)) (f64_of_int w))"

text \<open>The ring read from its oldest entry, which is at \<open>pos\<close> once the ring is full.\<close>

definition ring_view :: "breaker \<Rightarrow> bool list" where
  "ring_view b = (if filled b = Window b
     then drop (nat (pos b)) (recent b) @ take (nat (pos b)) (recent b)
     else take (nat (pos b)) (recent b))"

definition breaker_rel :: "breaker \<Rightarrow> bool list \<Rightarrow> bool" where
  "breaker_rel b h \<longleftrightarrow>
     1 \<le> Window b \<and> length (recent b) = nat (Window b) \<and>
     0 \<le> pos b \<and> pos b < Window b \<and>
     filled b = min (int (length h)) (Window b) \<and>
     (filled b < Window b \<longrightarrow> pos b = filled b) \<and>
     ring_view b = lastn (nat (Window b)) h \<and>
     failures b = window_failures (Window b) h \<and>
     consecutive b = failure_run h"

subsection \<open>Refinement\<close>

lemma failure_run_simps [simp]:
  "failure_run [] = 0"
  "failure_run (h @ [x]) = (if x then failure_run h + 1 else 0)"
  by (simp_all add: failure_run_def)

lemma take_update_snoc: "p < length xs \<Longrightarrow> take (Suc p) (xs[p := x]) = take p xs @ [x]"
  by (simp add: take_Suc_conv_app_nth)

lemma breaker_rel_new: "breaker_rel (new_breaker r w c) []"
  by (auto simp: breaker_rel_def new_breaker_def ring_view_def window_failures_def lastn_def Let_def)

lemma file_outcome_filling:
  assumes rel: "breaker_rel b h" and part: "filled b < Window b"
  shows "breaker_rel (file_outcome b x) (h @ [x])"
proof -
  define p where "p = nat (pos b)"
  have h: "int (length h) = filled b" "length h < nat (Window b)" "p = length h"
    using rel part by (auto simp: breaker_rel_def p_def)
  have len: "p < length (recent b)" "length (recent b) = nat (Window b)"
    using rel h by (auto simp: breaker_rel_def)
  have view: "take p (recent b) = h"
  proof -
    have "lastn (nat (Window b)) h = h" using h(2) by simp
    moreover have "ring_view b = take p (recent b)" using part by (simp add: ring_view_def p_def)
    ultimately show ?thesis using rel unfolding breaker_rel_def by metis
  qed
  have upd: "take (Suc p) ((recent b)[p := x]) = h @ [x]"
    using take_update_snoc [OF len(1)] view by simp
  have last: "lastn (nat (Window b)) (h @ [x]) = h @ [x]" "lastn (nat (Window b)) h = h"
    using h by simp_all
  have ring: "ring_view (file_outcome b x) = h @ [x]"
  proof (cases "pos b + 1 < Window b")
    case True
    then have "(pos b + 1) mod Window b = pos b + 1" using rel by (simp add: breaker_rel_def)
    then show ?thesis using True part rel upd h
      by (simp add: ring_view_def file_outcome_def Let_def p_def breaker_rel_def nat_add_distrib)
  next
    case False
    then have "pos b + 1 = Window b" using rel by (simp add: breaker_rel_def)
    then show ?thesis using part rel upd h len
      by (simp add: ring_view_def file_outcome_def Let_def p_def breaker_rel_def)
  qed
  show ?thesis
    using rel part ring h last
    by (auto simp: breaker_rel_def window_failures_def file_outcome_def Let_def min_def)
qed

lemma file_outcome_full:
  assumes rel: "breaker_rel b h" and full: "\<not> filled b < Window b"
  shows "breaker_rel (file_outcome b x) (h @ [x])"
proof -
  define p where "p = nat (pos b)"
  define W where "W = nat (Window b)"
  have f: "filled b = Window b" and w: "0 < W" "W \<le> length h"
    using rel full by (auto simp: breaker_rel_def W_def)
  have len: "p < length (recent b)" "length (recent b) = W"
    using rel by (auto simp: breaker_rel_def p_def W_def)
  have view: "drop p (recent b) @ take p (recent b) = lastn W h"
    using rel f by (simp add: breaker_rel_def ring_view_def p_def W_def)
  have old: "lastn W h = recent b ! p # drop (Suc p) (recent b) @ take p (recent b)"
    using view Cons_nth_drop_Suc [OF len(1)] by (metis append_Cons)
  have tl: "lastn W (h @ [x]) = tl (lastn W h) @ [x]"
    using w by (simp add: lastn_snoc) (simp add: lastn_def tl_drop drop_Suc [symmetric] Suc_diff_le)
  have ring: "ring_view (file_outcome b x) = lastn W (h @ [x])"
  proof (cases "pos b + 1 < Window b")
    case True
    then have "(pos b + 1) mod Window b = pos b + 1" using rel by (simp add: breaker_rel_def)
    moreover have "nat (pos b + 1) = Suc p"
      using rel by (auto simp: breaker_rel_def p_def nat_add_distrib)
    ultimately show ?thesis using rel f len take_update_snoc [OF len(1), of x]
      by (simp add: ring_view_def file_outcome_def Let_def p_def [symmetric] W_def [symmetric]
          breaker_rel_def tl old)
  next
    case False
    then have e: "pos b + 1 = Window b" using rel by (simp add: breaker_rel_def)
    then have sp: "Suc p = W" using rel by (auto simp: p_def W_def breaker_rel_def)
    have "ring_view (file_outcome b x) = (recent b)[p := x]"
      using e f rel by (simp add: ring_view_def file_outcome_def Let_def p_def breaker_rel_def)
    also have "\<dots> = take p (recent b) @ [x]"
      using take_update_snoc [OF len(1), of x] sp len(2) by simp
    also have "\<dots> = lastn W (h @ [x])" using sp len(2) by (simp add: tl old)
    finally show ?thesis .
  qed
  have "count_true (lastn W h) = (if recent b ! p then 1 else 0) + count_true (tl (lastn W h))"
    by (simp add: old)
  then have "failures (file_outcome b x) = window_failures (Window b) (h @ [x])"
    using rel f by (simp add: breaker_rel_def window_failures_def W_def [symmetric] tl
        file_outcome_def Let_def p_def [symmetric])
  then show ?thesis
    using rel f ring w by (auto simp: breaker_rel_def file_outcome_def Let_def W_def min_def)
qed

lemma file_outcome_rel: "breaker_rel b h \<Longrightarrow> breaker_rel (file_outcome b x) (h @ [x])"
  using file_outcome_filling file_outcome_full by blast

lemma file_outcome_frame [simp]:
  "ErrorRate (file_outcome b x) = ErrorRate b" "Window (file_outcome b x) = Window b"
  "ConsecutiveFailures (file_outcome b x) = ConsecutiveFailures b"
  "tripped (file_outcome b x) = tripped b"
  by (simp_all add: file_outcome_def Let_def)

lemma decide_trip_frame [simp]:
  "ErrorRate (decide_trip b) = ErrorRate b" "Window (decide_trip b) = Window b"
  "ConsecutiveFailures (decide_trip b) = ConsecutiveFailures b"
  by (simp_all add: decide_trip_def)

lemma record_outcome_frame [simp]:
  "ErrorRate (snd (record_outcome b x)) = ErrorRate b"
  "Window (snd (record_outcome b x)) = Window b"
  "ConsecutiveFailures (snd (record_outcome b x)) = ConsecutiveFailures b"
  by (simp_all add: record_outcome_def Let_def)

lemma record_all_frame [simp]:
  "ErrorRate (record_all b os) = ErrorRate b" "Window (record_all b os) = Window b"
  "ConsecutiveFailures (record_all b os) = ConsecutiveFailures b"
  by (induction os rule: rev_induct) simp_all

lemma disabled_record_all [simp]: "disabled (record_all b os) = disabled b"
  by (simp add: disabled_def)

lemma decide_trip_iff:
  assumes "breaker_rel b h" "\<not> tripped b"
  shows "tripped (decide_trip b) \<longleftrightarrow> trips (ErrorRate b) (Window b) (ConsecutiveFailures b) h"
  using assms
  by (auto simp: decide_trip_def trips_def consecutive_trip_def rate_trip_def breaker_rel_def)

lemma decide_trip_rel: "breaker_rel (decide_trip b) h = breaker_rel b h"
  by (simp add: decide_trip_def breaker_rel_def ring_view_def)

lemma record_all_inv:
  assumes "\<not> disabled b" "breaker_rel b []" "\<not> tripped b"
  shows "if tripped (record_all b os)
     then \<exists>n. 0 < n \<and> n \<le> length os \<and>
            trips (ErrorRate b) (Window b) (ConsecutiveFailures b) (take n os)
     else breaker_rel (record_all b os) os \<and>
          (\<forall>n. 0 < n \<and> n \<le> length os \<longrightarrow>
             \<not> trips (ErrorRate b) (Window b) (ConsecutiveFailures b) (take n os))"
proof (induction os rule: rev_induct)
  case Nil
  then show ?case using assms by simp
next
  case (snoc x os)
  let ?b = "record_all b os"
  let ?T = "trips (ErrorRate b) (Window b) (ConsecutiveFailures b)"
  show ?case
  proof (cases "tripped ?b")
    case True
    then obtain n where "0 < n" "n \<le> length os" "?T (take n os)" using snoc.IH by auto
    then show ?thesis using True assms(1)
      by (auto simp: record_outcome_def intro!: exI [of _ n])
  next
    case False
    let ?b' = "decide_trip (file_outcome ?b x)"
    have eq: "record_all b (os @ [x]) = ?b'"
      using False assms(1) by (simp add: record_outcome_def Let_def)
    have rel: "breaker_rel (file_outcome ?b x) (os @ [x])"
      using snoc.IH False by (auto intro: file_outcome_rel)
    have trip: "tripped ?b' \<longleftrightarrow> ?T (os @ [x])"
      using decide_trip_iff [OF rel] False by simp
    have old: "\<not> ?T (take n os)" if "0 < n" "n \<le> length os" for n
      using snoc.IH False that by simp
    show ?thesis
    proof (cases "?T (os @ [x])")
      case True
      then show ?thesis using trip unfolding eq
        by (auto intro!: exI [of _ "Suc (length os)"])
    next
      case no: False
      have "\<not> ?T (take n (os @ [x]))" if "0 < n" "n \<le> Suc (length os)" for n
        using old [of n] no that by (cases "n = Suc (length os)") auto
      then show ?thesis using no trip rel unfolding eq by (simp add: decide_trip_rel)
    qed
  qed
qed

lemma record_all_disabled: "disabled b \<Longrightarrow> record_all b os = b"
  by (induction os rule: rev_induct) (simp_all add: record_outcome_def)

lemma new_breaker_sel [simp]:
  "ErrorRate (new_breaker r w c) = r" "ConsecutiveFailures (new_breaker r w c) = c"
  "Window (new_breaker r w c) = (if w < 1 then 1 else w)" "\<not> tripped (new_breaker r w c)"
  by (simp_all add: new_breaker_def Let_def)

lemma record_all_trips:
  "tripped (record_all (new_breaker r w c) os) \<longleftrightarrow>
     \<not> disabled (new_breaker r w c) \<and>
     (\<exists>n. 0 < n \<and> n \<le> length os \<and> trips r (if w < 1 then 1 else w) c (take n os))"
proof (cases "disabled (new_breaker r w c)")
  case True
  then show ?thesis by (simp add: record_all_disabled)
next
  case False
  then show ?thesis
    using record_all_inv [OF False breaker_rel_new, of os] by (auto split: if_splits)
qed

subsection \<open>Properties\<close>

text \<open>C17: the ring buffer implements its specification.  After any sequence of outcomes the
  breaker has tripped exactly if it is enabled and some non-empty prefix of the sequence ends
  in at least \<^verbatim>\<open>ConsecutiveFailures\<close> failures in a row or, once \<^verbatim>\<open>Window\<close>
  outcomes are known, has a failure fraction over the last \<^verbatim>\<open>Window\<close> of them that
  reaches \<^verbatim>\<open>ErrorRate\<close> in float64 arithmetic.\<close>

theorem breaker_refines_history:
  "tripped (record_all (new_breaker r w c) os) \<longleftrightarrow>
     \<not> disabled (new_breaker r w c) \<and>
     (\<exists>n. 0 < n \<and> n \<le> length os \<and> trips r (if w < 1 then 1 else w) c (take n os))"
  by (rule record_all_trips)

text \<open>A breaker that has fired stays fired: later outcomes change neither its state nor the
  reason it reports, and every later call answers true.\<close>

theorem breaker_trip_final:
  assumes "tripped b" and "\<not> disabled b"
  shows "record_all b os = b \<and> fst (record_outcome b x)"
proof -
  have "record_all b os = b"
    using assms by (induction os rule: rev_induct) (simp_all add: record_outcome_def)
  then show ?thesis using assms by (simp add: record_outcome_def)
qed

theorem breaker_trip_final_witness:
  "record_all (record_all (new_breaker (Fin 0) 5 1) [True]) [False, False] =
     record_all (new_breaker (Fin 0) 5 1) [True]"
proof (rule breaker_trip_final [THEN conjunct1])
  have "trips (Fin 0) 5 1 (take 1 [True])" by (simp add: trips_def failure_run_def)
  then show "tripped (record_all (new_breaker (Fin 0) 5 1) [True])"
    unfolding record_all_trips by (auto simp: disabled_def intro!: exI [of _ 1])
  show "\<not> disabled (record_all (new_breaker (Fin 0) 5 1) [True])" by (simp add: disabled_def)
qed


lemma quarter_threshold: "Fin (1 / 4) \<le> fdiv (Fin (of_int k)) (Fin 200) \<longleftrightarrow> 50 \<le> k"
proof (cases "50 \<le> k")
  case True
  have "rnd (1 / 4) = Fin (1 / 4)" using grid_exact [of 1 "- 2"] by (intro rnd_exact) (simp_all add: power_int_minus)
  moreover have "(1 / 4 :: rat) \<le> of_int k / 200" using True by simp
  ultimately show ?thesis using True rnd_mono [of "1 / 4" "of_int k / 200"] by simp
next
  case False
  have "rnd (63 / 256) = Fin (63 / 256)"
    using grid_exact [of 63 "- 8"] by (intro rnd_exact) (simp_all add: power_int_minus)
  moreover have "(of_int k / 200 :: rat) \<le> 63 / 256" using False by simp
  ultimately have "rnd (of_int k / 200) \<le> Fin (63 / 256)"
    using rnd_mono [of "of_int k / 200" "63 / 256"] by simp
  then have "\<not> Fin (1 / 4) \<le> rnd (of_int k / 200)"
    by (cases "rnd (of_int k / 200)") auto
  then show ?thesis using False by simp
qed

text \<open>With the default limits (error rate 0.25, window 200, 50 in a row) the breaker fires
  exactly on 50 consecutive failures or on 50 failures among the last 200 outcomes: the float64
  quotient never moves the threshold.\<close>

theorem default_breaker_threshold:
  "tripped (record_all (new_breaker (Fin (1 / 4)) 200 50) os) \<longleftrightarrow>
     (\<exists>n. 0 < n \<and> n \<le> length os \<and>
        (failure_run (take n os) \<ge> 50 \<or>
         (200 \<le> n \<and> window_failures 200 (take n os) \<ge> 50)))"
proof -
  have e: "f64_of_int (window_failures 200 h) = Fin (of_int (window_failures 200 h))" for h
    using count_true_bounds [of "lastn 200 h"]
    by (intro f64_of_int_exact) (simp add: window_failures_def)
  then have "trips (Fin (1 / 4)) 200 50 h \<longleftrightarrow>
      failure_run h \<ge> 50 \<or> (200 \<le> length h \<and> window_failures 200 h \<ge> 50)" for h
    using e [of h] quarter_threshold [of "window_failures 200 h"] by (auto simp: trips_def)
  then show ?thesis
    by (auto simp: record_all_trips disabled_def)
qed

text \<open>An error rate that is not a number disables the rate test without disabling the
  breaker: with no consecutive limit no sequence of outcomes ever trips it, yet
  \<^verbatim>\<open>Disabled\<close> answers false.\<close>

theorem breaker_nan_rate_never_trips:
  "\<not> tripped (record_all (new_breaker FNaN w 0) os) \<and> \<not> disabled (new_breaker FNaN w 0)"
  by (simp add: record_all_trips trips_def disabled_def)

end
