(* ===== verification/Redact.thy ===== *)
theory Redact
  imports Prelude
begin

text \<open>
  Masking of credentials, \<^verbatim>\<open>internal/redact/redact.go\<close>.  Package net/url enters
  through \<open>url_lib\<close>: its \<^verbatim>\<open>Parse\<close> (\<open>None\<close> for an error) and \<^verbatim>\<open>URL.String\<close>, over
  the components of a URL the program reads.
\<close>

record url =
  u_scheme :: string
  u_user :: "string option"
  u_host :: string
  u_path :: string
  u_query :: string
  u_fragment :: string

record url_lib =
  url_parse :: "string \<Rightarrow> url option"
  url_string :: "url \<Rightarrow> string"

definition Mask :: string where
  "Mask = ''[REDACTED]''"

definition sensitive_headers :: "string list" where
  "sensitive_headers = [''authorization'', ''proxy-authorization'', ''cookie'', ''set-cookie'',
     ''x-api-key'', ''api-key'', ''x-auth-token'']"

definition is_sensitive_header :: "string \<Rightarrow> bool" where
  "is_sensitive_header name = (to_lower (trim_space name) \<in> set sensitive_headers)"

definition header_value :: "string \<Rightarrow> string \<Rightarrow> string" where
  "header_value name value = (if is_sensitive_header name then Mask else value)"

definition headers :: "(string \<rightharpoonup> string) \<Rightarrow> (string \<rightharpoonup> string)" where
  "headers hdr = (\<lambda>k. map_option (header_value k) (hdr k))"

text \<open>The map is the list of its entries in the order in which it is visited.\<close>

definition header_names :: "(string \<times> string) list \<Rightarrow> string list" where
  "header_names hdr = map fst hdr"

definition mask_url :: "url \<Rightarrow> url" where
  "mask_url u =
     (let u1 = (if u_user u \<noteq> None then u\<lparr>u_user := Some Mask\<rparr> else u);
          u2 = (if u_query u1 \<noteq> [] then u1\<lparr>u_query := Mask\<rparr> else u1)
      in u2\<lparr>u_fragment := []\<rparr>)"

definition redact_url :: "url_lib \<Rightarrow> string \<Rightarrow> string" where
  "redact_url lib raw = (case url_parse lib raw of
     None \<Rightarrow> Mask
   | Some u \<Rightarrow> url_string lib (mask_url u))"

definition index_scheme :: "string \<Rightarrow> nat option" where
  "index_scheme s = (case index_of s ''http://'' of
     None \<Rightarrow> index_of s ''https://''
   | Some h \<Rightarrow> (case index_of s ''https://'' of
       None \<Rightarrow> Some h
     | Some s2 \<Rightarrow> if h < s2 then Some h else Some s2))"

definition url_delimiter :: "char \<Rightarrow> bool" where
  "url_delimiter c \<longleftrightarrow> c \<in> {CHR '' '', CHR 0x09, CHR 0x0A, CHR 0x22, CHR 0x27}"

definition trim_right_punct :: "string \<Rightarrow> string" where
  "trim_right_punct s = rev (dropWhile (\<lambda>c. c \<in> set ''.,;:'') (rev s))"

definition url_span :: "string \<Rightarrow> string" where
  "url_span rest = takeWhile (\<lambda>c. \<not> url_delimiter c) rest"

lemma scheme_no_delimiter:
  "has_prefix rest ''http://'' \<or> has_prefix rest ''https://'' \<Longrightarrow> 7 \<le> length (url_span rest)"
  by (auto simp: has_prefix_iff url_span_def url_delimiter_def)

lemma index_of_prefix: "index_of s p = Some i \<Longrightarrow> has_prefix (drop i s) p"
  by (metis append_take_drop_id has_prefix_append index_of_Some)

lemma index_scheme_prefix:
  "index_scheme s = Some i \<Longrightarrow>
   has_prefix (drop i s) ''http://'' \<or> has_prefix (drop i s) ''https://''"
  using index_of_prefix by (auto simp: index_scheme_def split: option.splits if_splits)

text \<open>The loop of \<^verbatim>\<open>Text\<close> over the unread remainder of the string.\<close>

function redact_loop :: "url_lib \<Rightarrow> string \<Rightarrow> string" where
  "redact_loop lib s =
     (if s = [] then []
      else case index_scheme s of
        None \<Rightarrow> s
      | Some start \<Rightarrow>
          (let rest = drop start s; span = url_span rest in
           take start s @ redact_url lib (trim_right_punct span) @
           redact_loop lib (drop (length span) rest)))"
  by pat_completeness auto
termination
proof (relation "measure (\<lambda>(lib, s). length s)")
  fix lib s start rest span
  assume s: "s \<noteq> []" and i: "index_scheme s = Some start"
    and r: "rest = drop start s" and sp: "span = url_span rest"
  have "7 \<le> length span"
    using scheme_no_delimiter index_scheme_prefix [OF i] r sp by blast
  then show "((lib, drop (length span) rest), lib, s) \<in> measure (\<lambda>(lib, s). length s)"
    using s r by (cases s) auto
qed simp

declare redact_loop.simps [simp del]

lemma redact_loop_none: "index_scheme s = None \<Longrightarrow> redact_loop lib s = s"
  by (simp add: redact_loop.simps [of lib s])

lemma redact_loop_some:
  "s \<noteq> [] \<Longrightarrow> index_scheme s = Some i \<Longrightarrow> w = url_span (drop i s) \<Longrightarrow>
   redact_loop lib s = take i s @ redact_url lib (trim_right_punct w) @
     redact_loop lib (drop (length w) (drop i s))"
  by (simp add: redact_loop.simps [of lib s] Let_def)

definition redact_text :: "url_lib \<Rightarrow> string \<Rightarrow> string" where
  "redact_text lib s = (if s = [] then [] else redact_loop lib s)"

text \<open>The parts of a text as \<^verbatim>\<open>Text\<close> sees them: copied as they are, or taken for a URL.\<close>

datatype segment = Copied string | Embedded string

function segments :: "string \<Rightarrow> segment list" where
  "segments s =
     (if s = [] then []
      else case index_scheme s of
        None \<Rightarrow> [Copied s]
      | Some start \<Rightarrow>
          (let rest = drop start s; span = url_span rest in
           Copied (take start s) # Embedded (trim_right_punct span) #
           segments (drop (length span) rest)))"
  by pat_completeness auto
termination
proof (relation "measure length")
  fix s start rest span
  assume s: "s \<noteq> []" and i: "index_scheme s = Some start"
    and r: "rest = drop start s" and sp: "span = url_span rest"
  have "7 \<le> length span"
    using scheme_no_delimiter index_scheme_prefix [OF i] r sp by blast
  then show "(drop (length span) rest, s) \<in> measure length"
    using s r by (cases s) auto
qed simp

declare segments.simps [simp del]

definition show_segment :: "url_lib \<Rightarrow> segment \<Rightarrow> string" where
  "show_segment lib g = (case g of Copied c \<Rightarrow> c | Embedded u \<Rightarrow> redact_url lib u)"

lemma redact_loop_segments: "redact_loop lib s = concat (map (show_segment lib) (segments s))"
proof (induction s rule: segments.induct)
  case (1 s)
  show ?case
  proof (cases "s = [] \<or> index_scheme s = None")
    case True
    then show ?thesis
      by (auto simp: redact_loop.simps [of lib s] segments.simps [of s] show_segment_def)
  next
    case False
    then obtain i where "index_scheme s = Some i" by auto
    then show ?thesis using False 1
      by (simp add: redact_loop.simps [of lib s] segments.simps [of s] show_segment_def Let_def)
  qed
qed

lemma index_of_None_take: "index_of s p = Some i \<Longrightarrow> p \<noteq> [] \<Longrightarrow> j \<le> i \<Longrightarrow> index_of (take j s) p = None"
proof (induction s p arbitrary: i j rule: index_of.induct)
  case (2 c cs p)
  show ?case
  proof (cases j)
    case (Suc k)
    then obtain m where m: "index_of cs p = Some m" "i = Suc m" "\<not> has_prefix (c # cs) p"
      using "2.prems" by (auto split: if_splits)
    have "\<not> has_prefix (c # take k cs) p"
    proof
      assume "has_prefix (c # take k cs) p"
      then obtain t where "c # take k cs = p @ t" by (auto simp: has_prefix_iff)
      then have "c # cs = p @ t @ drop k cs" by (metis append.assoc append_Cons append_take_drop_id)
      then show False using m(3) by (simp add: has_prefix_iff)
    qed
    then show ?thesis using "2.IH" [of m k] m "2.prems" Suc by simp
  qed (use 2 in simp)
qed (auto split: if_splits)

lemma index_of_None_take_None: "index_of s p = None \<Longrightarrow> p \<noteq> [] \<Longrightarrow> index_of (take j s) p = None"
proof (induction s p arbitrary: j rule: index_of.induct)
  case (2 c cs p)
  show ?case
  proof (cases j)
    case (Suc k)
    have np: "\<not> has_prefix (c # cs) p" "index_of cs p = None" using "2.prems" by (auto split: if_splits)
    have "\<not> has_prefix (c # take k cs) p"
    proof
      assume "has_prefix (c # take k cs) p"
      then obtain t where "c # take k cs = p @ t" by (auto simp: has_prefix_iff)
      then have "c # cs = p @ t @ drop k cs" by (metis append.assoc append_Cons append_take_drop_id)
      then show False using np by (simp add: has_prefix_iff)
    qed
    then show ?thesis using "2.IH" [of k] np "2.prems" Suc by simp
  qed (use 2 in simp)
qed simp

lemma index_scheme_take:
  "index_scheme s = Some i \<Longrightarrow>
     \<not> contains (take i s) ''http://'' \<and> \<not> contains (take i s) ''https://''"
  unfolding contains_def index_scheme_def
  by (auto split: option.splits if_splits
      simp: index_of_None_take index_of_None_take_None)

text \<open>A copied segment holds no scheme of a URL.\<close>

definition scheme_free :: "segment \<Rightarrow> bool" where
  "scheme_free g = (case g of
     Copied c \<Rightarrow> \<not> contains c ''http://'' \<and> \<not> contains c ''https://''
   | Embedded _ \<Rightarrow> True)"

lemma segments_scheme_free: "list_all scheme_free (segments s)"
proof (induction s rule: segments.induct)
  case (1 s)
  show ?case
  proof (cases "s = [] \<or> index_scheme s = None")
    case True
    then show ?thesis
      by (auto simp: segments.simps [of s] scheme_free_def contains_def index_scheme_def
          split: option.splits if_splits)
  next
    case False
    then obtain i where "index_scheme s = Some i" by auto
    then show ?thesis using False 1 index_scheme_take [of s i]
      by (auto simp: segments.simps [of s] Let_def scheme_free_def)
  qed
qed

subsection \<open>Properties\<close>

text \<open>\<^verbatim>\<open>Text\<close> is a concatenation of segments of its input, and every segment it copies
  unchanged is free of \<^verbatim>\<open>http://\<close> and \<^verbatim>\<open>https://\<close>: each URL it can
  recognise has gone through \<^verbatim>\<open>URL\<close>.\<close>

theorem redact_text_segments:
  "redact_text lib s = concat (map (show_segment lib) (segments s)) \<and>
   list_all scheme_free (segments s)"
  by (simp add: redact_text_def redact_loop_segments segments.simps [of "[]"] segments_scheme_free)


text \<open>A concrete net/url for the witness: it knows two URLs that differ in the password.\<close>

definition demo_url :: "string \<Rightarrow> url" where
  "demo_url pw = \<lparr>u_scheme = ''http'', u_user = Some (''u:'' @ pw), u_host = ''h'', u_path = ''/'',
     u_query = [], u_fragment = []\<rparr>"

definition demo_lib :: url_lib where
  "demo_lib = \<lparr>url_parse = (\<lambda>s.
       if s = ''http://u:one@h/'' then Some (demo_url ''one'')
       else if s = ''http://u:two@h/'' then Some (demo_url ''two'') else None),
     url_string = (\<lambda>u. u_scheme u @ ''://'' @
       (case u_user u of None \<Rightarrow> [] | Some w \<Rightarrow> w @ ''@'') @ u_host u @ u_path u)\<rparr>"


text \<open>A URL is taken to end at the first quote, blank, tab or newline, so what follows such a
  character inside its user information is copied unmasked, whatever net/url does.\<close>

theorem redact_text_quote_tail:
  "redact_text lib (''http://u:p'' @ [CHR 0x27] @ ''word@h/'') =
     redact_url lib ''http://u:p'' @ [CHR 0x27] @ ''word@h/''"
proof -
  let ?t = "[CHR 0x27] @ ''word@h/''"
  have "redact_loop lib (''http://u:p'' @ ?t) =
      take 0 (''http://u:p'' @ ?t) @ redact_url lib (trim_right_punct ''http://u:p'') @
      redact_loop lib (drop (length ''http://u:p'') (drop 0 (''http://u:p'' @ ?t)))"
    by (rule redact_loop_some) (simp_all add: index_scheme_def url_span_def url_delimiter_def)
  moreover have "redact_loop lib ?t = ?t"
    by (rule redact_loop_none) (simp add: index_scheme_def)
  moreover have "trim_right_punct ''http://u:p'' = ''http://u:p''"
    by (simp add: trim_right_punct_def)
  ultimately show ?thesis by (simp add: redact_text_def)
qed

end
