(* ===== verification/Errclass.thy ===== *)
theory Errclass
  imports Redact
begin

text \<open>
  The error taxonomy, \<^verbatim>\<open>internal/errclass/errclass.go\<close>, and the Go error values it
  classifies.  A Go error is modelled by the chain of errors its \<^verbatim>\<open>Unwrap\<close> method visits,
  outermost first; each node carries its dynamic type as far as the program asks for it, the text
  of \<^verbatim>\<open>Error()\<close>, and the answer of its \<^verbatim>\<open>Timeout()\<close> method when it has
  one.  \<^verbatim>\<open>errors.As\<close> and \<^verbatim>\<open>errors.Is\<close> search the chain from the outside.
\<close>

datatype err_class =
    OK | DNSError | ConnectError | TLSError | RequestTimeout | ResponseTimeout | HTTP4xx | HTTP5xx
  | InvalidContentType | TSPRejection | InvalidNonce | InvalidImprint | InvalidSignature
  | UntrustedCert | MalformedResponse | ClockSkewExceeded
  | ClientSaturation | ScheduleLag | QuotaGuard | Cancelled | UnknownError

fun class_string :: "err_class \<Rightarrow> string" where
  "class_string OK = ''ok''"
| "class_string DNSError = ''dns_error''"
| "class_string ConnectError = ''connect_error''"
| "class_string TLSError = ''tls_error''"
| "class_string RequestTimeout = ''request_timeout''"
| "class_string ResponseTimeout = ''response_timeout''"
| "class_string HTTP4xx = ''http_4xx''"
| "class_string HTTP5xx = ''http_5xx''"
| "class_string InvalidContentType = ''invalid_content_type''"
| "class_string TSPRejection = ''tsp_rejection''"
| "class_string InvalidNonce = ''invalid_nonce''"
| "class_string InvalidImprint = ''invalid_imprint''"
| "class_string InvalidSignature = ''invalid_signature''"
| "class_string UntrustedCert = ''untrusted_certificate''"
| "class_string MalformedResponse = ''malformed_response''"
| "class_string ClockSkewExceeded = ''clock_skew_exceeded''"
| "class_string ClientSaturation = ''client_saturation''"
| "class_string ScheduleLag = ''schedule_lag''"
| "class_string QuotaGuard = ''quota_guard''"
| "class_string Cancelled = ''cancelled''"
| "class_string UnknownError = ''unknown_error''"

definition all_classes :: "err_class list" where
  "all_classes = [OK,
     DNSError, ConnectError, TLSError, RequestTimeout, ResponseTimeout,
     HTTP4xx, HTTP5xx,
     InvalidContentType, TSPRejection, InvalidNonce, InvalidImprint,
     InvalidSignature, UntrustedCert, MalformedResponse, ClockSkewExceeded,
     ClientSaturation, ScheduleLag, QuotaGuard, Cancelled, UnknownError]"

definition is_failure :: "err_class \<Rightarrow> bool" where
  "is_failure c \<longleftrightarrow> c \<noteq> OK"

definition is_timeout :: "err_class \<Rightarrow> bool" where
  "is_timeout c \<longleftrightarrow> c = RequestTimeout \<or> c = ResponseTimeout"

definition counts_against_provider :: "err_class \<Rightarrow> bool" where
  "counts_against_provider c = (case c of
     Cancelled \<Rightarrow> False | QuotaGuard \<Rightarrow> False | ClientSaturation \<Rightarrow> False | ScheduleLag \<Rightarrow> False
   | _ \<Rightarrow> True)"

record class_error =
  e_class :: err_class
  e_detail :: string
  e_sub :: string

definition new_error :: "err_class \<Rightarrow> string \<Rightarrow> class_error" where
  "new_error c d = \<lparr>e_class = c, e_detail = d, e_sub = []\<rparr>"

definition new_sub :: "err_class \<Rightarrow> string \<Rightarrow> string \<Rightarrow> class_error" where
  "new_sub c sub d = \<lparr>e_class = c, e_detail = d, e_sub = sub\<rparr>"

definition error_text :: "class_error \<Rightarrow> string" where
  "error_text e =
     (if e_sub e \<noteq> [] then class_string (e_class e) @ ''.'' @ e_sub e @ '': '' @ e_detail e
      else class_string (e_class e) @ '': '' @ e_detail e)"

definition error_key :: "class_error \<Rightarrow> string" where
  "error_key e =
     (if e_sub e \<noteq> [] then class_string (e_class e) @ ''.'' @ e_sub e else class_string (e_class e))"

lemma new_error_sel [simp]:
  "e_class (new_error c d) = c" "e_detail (new_error c d) = d" "e_sub (new_error c d) = []"
  "e_class (new_sub c s d) = c" "e_detail (new_sub c s d) = d" "e_sub (new_sub c s d) = s"
  by (simp_all add: new_error_def new_sub_def)

subsection \<open>Go error values\<close>

datatype err_kind =
    KPlain | KClassified class_error | KCanceled | KDeadlineExceeded | KOSDeadline | KDNS
  | KCertVerification | KHostname | KUnknownAuthority | KCertInvalid | KNetOp | KURL
  | KAuth | KRequest | KStopped | KQuota

record err_node =
  n_kind :: err_kind
  n_text :: string
  n_timeout :: "bool option"

type_synonym goerr = "err_node list"

definition err_text :: "goerr \<Rightarrow> string" where
  "err_text e = (case e of [] \<Rightarrow> [] | n # _ \<Rightarrow> n_text n)"

definition is_kind :: "err_kind \<Rightarrow> goerr \<Rightarrow> bool" where
  "is_kind k e = list_ex (\<lambda>n. n_kind n = k) e"

fun as_classified :: "goerr \<Rightarrow> class_error option" where
  "as_classified [] = None"
| "as_classified (n # ns) = (case n_kind n of KClassified c \<Rightarrow> Some c | _ \<Rightarrow> as_classified ns)"

text \<open>\<^verbatim>\<open>errors.New\<close> and \<^verbatim>\<open>fmt.Errorf\<close> with and without \<^verbatim>\<open>%w\<close>.\<close>

definition plain_error :: "string \<Rightarrow> goerr" where
  "plain_error t = [\<lparr>n_kind = KPlain, n_text = t, n_timeout = None\<rparr>]"

definition kind_error :: "err_kind \<Rightarrow> string \<Rightarrow> goerr" where
  "kind_error k t = [\<lparr>n_kind = k, n_text = t, n_timeout = None\<rparr>]"

definition wrap_error :: "string \<Rightarrow> goerr \<Rightarrow> goerr" where
  "wrap_error prefix e = \<lparr>n_kind = KPlain, n_text = prefix @ err_text e, n_timeout = None\<rparr> # e"

text \<open>The types \<^verbatim>\<open>AuthError\<close> and \<^verbatim>\<open>RequestError\<close> of package transport: same text, one more node.\<close>

definition tag_error :: "err_kind \<Rightarrow> goerr \<Rightarrow> goerr" where
  "tag_error k e = \<lparr>n_kind = k, n_text = err_text e, n_timeout = None\<rparr> # e"

text \<open>\<^verbatim>\<open>isTimeout\<close>: the first error of the chain that has a \<^verbatim>\<open>Timeout\<close> method decides.\<close>

fun is_timeout_error :: "goerr \<Rightarrow> bool" where
  "is_timeout_error [] = False"
| "is_timeout_error (n # ns) = (case n_timeout n of Some b \<Rightarrow> b | None \<Rightarrow> is_timeout_error ns)"

definition is_tls_alert :: "goerr \<Rightarrow> bool" where
  "is_tls_alert e = (let s = err_text e in
     contains s ''tls:'' \<or> contains s ''x509:'' \<or> contains s ''remote error:'')"

definition classify :: "url_lib \<Rightarrow> goerr \<Rightarrow> bool \<Rightarrow> class_error" where
  "classify lib e requestWritten =
     (case as_classified e of
        Some c \<Rightarrow> c
      | None \<Rightarrow>
         (let detail = redact_text lib (err_text e) in
          if is_kind KCanceled e then new_error Cancelled detail
          else if is_kind KDNS e then new_error DNSError detail
          else if is_kind KCertVerification e \<or> is_kind KHostname e \<or> is_tls_alert e
            then new_error TLSError detail
          else if is_kind KDeadlineExceeded e \<or> is_kind KOSDeadline e \<or> is_timeout_error e
            then (if requestWritten then new_error ResponseTimeout detail
                  else new_error RequestTimeout detail)
          else if is_kind KNetOp e then new_error ConnectError detail
          else if is_kind KURL e then new_error ConnectError detail
          else new_error UnknownError detail))"

text \<open>\<^verbatim>\<open>itoa\<close> writes into an 8-byte buffer from its end: \<open>None\<close> is the run-time panic of an
  index below zero.  A negative argument never enters the loop.\<close>

function itoa_loop :: "int \<Rightarrow> nat \<Rightarrow> string \<Rightarrow> string option" where
  "itoa_loop i pos acc =
     (if 0 < i
      then (if pos = 0 then None
            else itoa_loop (i div 10) (pos - 1) (char_of (48 + nat (i mod 10)) # acc))
      else Some acc)"
  by pat_completeness auto
termination
  by (relation "measure (\<lambda>(i, pos, acc). nat i)") auto

declare itoa_loop.simps [simp del]

definition itoa :: "int \<Rightarrow> string option" where
  "itoa i = (if i = 0 then Some ''0'' else itoa_loop i 8 [])"

text \<open>\<^verbatim>\<open>FromHTTPStatus\<close>: the outer \<open>None\<close> is the panic of \<open>itoa\<close>, the inner one a nil error.\<close>

definition from_http_status :: "int \<Rightarrow> class_error option option" where
  "from_http_status code =
     (if code \<ge> 200 \<and> code < 300 then Some None
      else if code \<ge> 400 \<and> code < 500
        then map_option (\<lambda>s. Some (new_sub HTTP4xx s ''unexpected HTTP status'')) (itoa code)
      else if code \<ge> 500
        then map_option (\<lambda>s. Some (new_sub HTTP5xx s ''unexpected HTTP status'')) (itoa code)
      else map_option (\<lambda>s. Some (new_sub UnknownError s ''unexpected HTTP status'')) (itoa code))"

subsection \<open>Lemmas\<close>

lemma is_kind_simps [simp]:
  "\<not> is_kind k []" "is_kind k (n # ns) \<longleftrightarrow> n_kind n = k \<or> is_kind k ns"
  by (simp_all add: is_kind_def)

lemma itoa_loop_digits:
  "nat i < 10 ^ pos \<Longrightarrow> 0 < i \<Longrightarrow> itoa_loop i pos acc = Some (nat_dec (nat i) @ acc)"
proof (induction i pos acc rule: itoa_loop.induct)
  case (1 i pos acc)
  obtain p where pos: "pos = Suc p" using "1.prems" by (cases pos) auto
  have dm: "nat (i div 10) = nat i div 10" "nat (i mod 10) = nat i mod 10"
    using "1.prems" by (simp_all add: nat_div_distrib nat_mod_distrib)
  show ?case
  proof (cases "i < 10")
    case True
    then have "i div 10 = 0" "i mod 10 = i" "nat i < 10" using "1.prems" by auto
    then show ?thesis using "1.prems" pos True
      by (simp add: itoa_loop.simps [of i "Suc p"] itoa_loop.simps [of 0] nat_dec.simps [of "nat i"] digit_char_def)
  next
    case False
    have "nat (i div 10) < 10 ^ (pos - 1)" using "1.prems" pos dm by (simp add: div_less_iff_less_mult)
    moreover have "0 < i div 10" using False by (simp add: pos_imp_zdiv_pos_iff)
    ultimately have "itoa_loop (i div 10) (pos - 1) (char_of (48 + nat (i mod 10)) # acc) =
        Some (nat_dec (nat (i div 10)) @ char_of (48 + nat (i mod 10)) # acc)"
      using "1.IH" "1.prems" pos by simp
    moreover have "\<not> nat i < 10" using False by simp
    ultimately show ?thesis using "1.prems" pos dm
      by (simp add: itoa_loop.simps [of i "Suc p"] nat_dec.simps [of "nat i"] digit_char_def)
  qed
qed

lemma itoa_loop_panics: "10 ^ pos \<le> i \<Longrightarrow> itoa_loop i pos acc = None"
proof (induction i pos acc rule: itoa_loop.induct)
  case (1 i pos acc)
  have i: "0 < i" using "1.prems" order_less_le_trans [of 0 "10 ^ pos" i] by simp
  show ?case
  proof (cases pos)
    case 0
    then show ?thesis using i by (simp add: itoa_loop.simps [of i 0])
  next
    case (Suc p)
    then have "10 ^ p \<le> i div 10" using "1.prems" zdiv_mono1 [of "10 * 10 ^ p" i 10] by simp
    then show ?thesis using "1.IH" i Suc by (simp add: itoa_loop.simps [of i "Suc p"])
  qed
qed

lemma class_string_no_dot: "CHR ''.'' \<notin> set (class_string c)"
  by (cases c) simp_all

lemma class_string_inj: "class_string c = class_string d \<longleftrightarrow> c = d"
  by (cases c; cases d; simp)

lemma append_sep_inj:
  "x \<notin> set a \<Longrightarrow> x \<notin> set b \<Longrightarrow> a @ x # s = b @ x # t \<longleftrightarrow> a = b \<and> s = t"
  by (induction a arbitrary: b; case_tac b; auto)

lemma error_key_parts: "error_key e = class_string (e_class e) @ (if e_sub e = [] then [] else CHR ''.'' # e_sub e)"
  by (simp add: error_key_def)

subsection \<open>Properties\<close>

text \<open>The report key of an error determines its class and its sub-category: no two different
  (class, sub) pairs share a row of the error distribution.\<close>

theorem error_key_injective:
  "error_key d = error_key e \<longleftrightarrow> e_class d = e_class e \<and> e_sub d = e_sub e"
proof -
  have mem: "CHR ''.'' \<in> set (error_key x) \<longleftrightarrow> e_sub x \<noteq> [] \<or> CHR ''.'' \<in> set (e_sub x)" for x
    using class_string_no_dot [of "e_class x"] by (auto simp: error_key_parts)
  show ?thesis
  proof (cases "e_sub d = [] \<longleftrightarrow> e_sub e = []")
    case True
    then show ?thesis
      using append_sep_inj [OF class_string_no_dot class_string_no_dot, of "e_class d" "e_sub d" "e_class e" "e_sub e"]
      by (cases "e_sub d = []") (auto simp: error_key_parts class_string_inj)
  next
    case False
    then have "error_key d \<noteq> error_key e" using mem [of d] mem [of e] by auto
    then show ?thesis using False by auto
  qed
qed

text \<open>\<^verbatim>\<open>All\<close> lists every class once, and the 21 classes have 21 different names.\<close>

theorem all_classes_complete:
  "set all_classes = UNIV \<and> distinct (map class_string all_classes)"
proof
  have "c \<in> set all_classes" for c by (cases c) (simp_all add: all_classes_def)
  then show "set all_classes = UNIV" by auto
  show "distinct (map class_string all_classes)" by (simp add: all_classes_def)
qed



text \<open>An HTTP status is an error exactly outside 200..299, a client error for 400..499 and a
  server error from 500 on, with the status in decimal as its sub-category; for every status below
  100000000 the conversion does not run out of its buffer, and from there on it panics.\<close>

theorem from_http_status_correct:
  assumes "0 \<le> code"
  shows "from_http_status code =
    (if 200 \<le> code \<and> code < 300 then Some None
     else if code < 100000000
     then Some (Some (new_sub (if 400 \<le> code \<and> code < 500 then HTTP4xx
                               else if 500 \<le> code then HTTP5xx else UnknownError)
                      (nat_dec (nat code)) ''unexpected HTTP status''))
     else None)"
proof -
  have "itoa code = (if code < 100000000 then Some (nat_dec (nat code)) else None)"
  proof (cases "code = 0")
    case True
    moreover have "nat_dec 0 = ''0''" by code_simp
    ultimately show ?thesis by (simp add: itoa_def)
  next
    case False
    then show ?thesis using assms itoa_loop_digits [of code 8 "[]"] itoa_loop_panics [of 8 code "[]"]
      by (simp add: itoa_def nat_less_iff)
  qed
  then show ?thesis by (simp add: from_http_status_def)
qed

theorem from_http_status_correct_witness:
  "from_http_status 503 =
     Some (Some (new_sub HTTP5xx (nat_dec (nat 503)) ''unexpected HTTP status''))"
  using from_http_status_correct [of 503] by simp

end
