(* ===== verification/Clock.thy ===== *)
theory Clock
  imports Errclass
begin

text \<open>
  Time sources, \<^verbatim>\<open>internal/load/clock.go\<close>.  The locale \<open>clock\<close> is the Go interface
  \<^verbatim>\<open>Clock\<close> over a world \<open>'w\<close> that holds everything outside the scheduler: reading the
  clock and sleeping are operations on the world, and \<open>time_of\<close> is the instant the world has
  reached.  Its assumptions are what the scheduler relies on; \<^verbatim>\<open>RealClock\<close> and
  \<^verbatim>\<open>FakeClock\<close>, modelled below, provide them.
\<close>

locale clock =
  fixes now_clock :: "'w \<Rightarrow> time \<times> 'w"
    and sleep_until :: "'w \<Rightarrow> time \<Rightarrow> goerr option \<times> 'w"
    and ctx_err :: "'w \<Rightarrow> goerr option"
    and time_of :: "'w \<Rightarrow> time"
    and sound :: "'w \<Rightarrow> bool"
  assumes now_reads: "sound w \<Longrightarrow> now_clock w = (t, w') \<Longrightarrow> time_of w \<le> t \<and> t \<le> time_of w'"
    and now_sound: "sound w \<Longrightarrow> now_clock w = (t, w') \<Longrightarrow> sound w'"
    and sleep_forward: "sound w \<Longrightarrow> sleep_until w d = (r, w') \<Longrightarrow> time_of w \<le> time_of w' \<and> sound w'"
    and sleep_reaches: "sound w \<Longrightarrow> d - time_of w < 2 ^ 63 \<Longrightarrow> sleep_until w d = (None, w') \<Longrightarrow>
      d \<le> time_of w'"
begin

text \<open>Wait for a deadline only when it lies ahead, as the scheduler does.\<close>

definition wait_until :: "'w \<Rightarrow> time \<Rightarrow> goerr option \<times> 'w" where
  "wait_until w d = (let (t, w1) = now_clock w in if t < d then sleep_until w1 d else (None, w1))"

lemma wait_until_reaches:
  assumes "sound w" "d - time_of w < 2 ^ 63" "wait_until w d = (r, w')"
  shows "sound w'" "time_of w \<le> time_of w'" "r = None \<Longrightarrow> d \<le> time_of w'"
proof -
  obtain t w1 where n: "now_clock w = (t, w1)" by (cases "now_clock w")
  have w1: "time_of w \<le> t" "t \<le> time_of w1" "sound w1"
    using now_reads [OF assms(1) n] now_sound [OF assms(1) n] by auto
  show "sound w'" "time_of w \<le> time_of w'" "r = None \<Longrightarrow> d \<le> time_of w'"
    using assms(2,3) n w1 sleep_forward [of w1 d r w'] sleep_reaches [of w1 d w']
    by (auto simp: wait_until_def split: if_splits)
qed

end

subsection \<open>FakeClock\<close>

text \<open>
  The virtual clock together with the context the caller passes: \<open>fc_ctx\<close> is what
  \<^verbatim>\<open>ctx.Err()\<close> answers.  In auto-advance mode a sleep jumps past its deadline by the
  overshoot, which a timer never makes negative.
\<close>

record fake_clock =
  fc_now :: time
  fc_autoAdvance :: bool
  fc_overshoot :: duration
  fc_slept :: "duration list"
  fc_ctx :: "goerr option"

definition new_fake_clock :: "time \<Rightarrow> bool \<Rightarrow> fake_clock" where
  "new_fake_clock t auto = \<lparr>fc_now = t, fc_autoAdvance = auto, fc_overshoot = 0, fc_slept = [], fc_ctx = None\<rparr>"

definition set_overshoot :: "duration \<Rightarrow> fake_clock \<Rightarrow> fake_clock" where
  "set_overshoot d f = f\<lparr>fc_overshoot := d\<rparr>"

definition fake_now :: "fake_clock \<Rightarrow> time \<times> fake_clock" where
  "fake_now f = (fc_now f, f)"

definition fake_since :: "fake_clock \<Rightarrow> time \<Rightarrow> duration" where
  "fake_since f t = time_sub (fc_now f) t"

definition advance :: "duration \<Rightarrow> fake_clock \<Rightarrow> fake_clock" where
  "advance d f = f\<lparr>fc_now := time_add (fc_now f) d\<rparr>"

definition fake_sleep :: "fake_clock \<Rightarrow> duration \<Rightarrow> goerr option \<times> fake_clock" where
  "fake_sleep f d =
     (case fc_ctx f of
        Some e \<Rightarrow> (Some e, f)
      | None \<Rightarrow>
          (let f1 = f\<lparr>fc_slept := fc_slept f @ [d]\<rparr>
           in (None, if fc_autoAdvance f1 \<and> d > 0
                     then f1\<lparr>fc_now := time_add (fc_now f1) (d + fc_overshoot f1)\<rparr> else f1)))"

definition fake_sleep_until :: "fake_clock \<Rightarrow> time \<Rightarrow> goerr option \<times> fake_clock" where
  "fake_sleep_until f deadline = fake_sleep f (time_sub deadline (fc_now f))"

definition sleeps :: "fake_clock \<Rightarrow> duration list" where
  "sleeps f = fc_slept f"

text \<open>An auto-advancing fake clock whose overshoot is not negative, as the tests build it.\<close>

definition auto_clock :: "fake_clock \<Rightarrow> bool" where
  "auto_clock f \<longleftrightarrow> fc_autoAdvance f \<and> 0 \<le> fc_overshoot f"

interpretation fake: clock fake_now fake_sleep_until fc_ctx fc_now auto_clock
  by unfold_locales
    (auto simp: fake_now_def fake_sleep_until_def fake_sleep_def time_sub_def time_add_def
      auto_clock_def Let_def split: option.splits if_splits)

subsection \<open>RealClock\<close>

text \<open>
  The production clock runs in an environment that package time and the context provide: the
  instant reached, how late each timer to come will fire (on time once the list is used up), and
  when the context ends with which error.  The \<^verbatim>\<open>select\<close> of \<^verbatim>\<open>Sleep\<close> returns for the
  context when it ends before the timer fires.
\<close>

record real_world =
  rw_now :: time
  rw_late :: "duration list"
  rw_done :: "(time \<times> goerr) option"

definition real_ctx_err :: "real_world \<Rightarrow> goerr option" where
  "real_ctx_err w = (case rw_done w of
     Some (t, e) \<Rightarrow> if t \<le> rw_now w then Some e else None
   | None \<Rightarrow> None)"

definition real_now :: "real_world \<Rightarrow> time \<times> real_world" where
  "real_now w = (rw_now w, w)"

definition real_sleep :: "real_world \<Rightarrow> duration \<Rightarrow> goerr option \<times> real_world" where
  "real_sleep w d =
     (if d \<le> 0 then (real_ctx_err w, w)
      else (let fire = time_add (rw_now w) (d + (case rw_late w of [] \<Rightarrow> 0 | l # _ \<Rightarrow> l));
                w1 = w\<lparr>rw_late := tl (rw_late w)\<rparr>
            in case rw_done w of
                 Some (t, e) \<Rightarrow>
                   (if t < fire then (Some e, w1\<lparr>rw_now := max (rw_now w) t\<rparr>)
                    else (None, w1\<lparr>rw_now := fire\<rparr>))
               | None \<Rightarrow> (None, w1\<lparr>rw_now := fire\<rparr>)))"

definition real_sleep_until :: "real_world \<Rightarrow> time \<Rightarrow> goerr option \<times> real_world" where
  "real_sleep_until w deadline = real_sleep w (time_sub deadline (rw_now w))"

text \<open>Timers never fire early.\<close>

definition timers_late :: "real_world \<Rightarrow> bool" where
  "timers_late w \<longleftrightarrow> (\<forall>l \<in> set (rw_late w). 0 \<le> l)"

lemma real_sleep_forward:
  "timers_late w \<Longrightarrow> real_sleep w d = (r, w') \<Longrightarrow>
   rw_now w \<le> rw_now w' \<and> timers_late w' \<and> (r = None \<longrightarrow> rw_now w + d \<le> rw_now w')"
  by (cases "rw_late w")
    (auto simp: real_sleep_def timers_late_def time_add_def Let_def
      split: if_splits option.splits prod.splits)

interpretation real: clock real_now real_sleep_until real_ctx_err rw_now timers_late
proof
  fix w d r w' assume s: "timers_late w"
  { assume "real_sleep_until w d = (r, w')"
    from real_sleep_forward [OF s this [unfolded real_sleep_until_def]]
    show "rw_now w \<le> rw_now w' \<and> timers_late w'" by simp }
  { assume "d - rw_now w < 2 ^ 63" "real_sleep_until w d = (None, w')"
    with real_sleep_forward [OF s this(2) [unfolded real_sleep_until_def]]
    show "d \<le> rw_now w'" by (auto simp: time_sub_def) }
qed (auto simp: real_now_def)

end
