(* ===== verification/Scheduler.thy ===== *)
theory Scheduler
  imports Clock Go_Float
begin

text \<open>
  The constant-arrival-rate scheduler, \<^verbatim>\<open>internal/load/scheduler.go\<close>.
  \<open>sched_run\<close> is \<^verbatim>\<open>Scheduler.Run\<close> over any world \<open>'w\<close>: it takes the operations of
  its clock, \<^verbatim>\<open>ctx.Err\<close> and the callback \<^verbatim>\<open>emit\<close> as functions on the world,
  and returns the ticks it handed to \<^verbatim>\<open>emit\<close> (in order, a refused one included), the
  error, and the world.  Its facts are proved for every clock in the context of the locale
  \<open>clock\<close> and reach the model of FakeClock through its interpretation.
\<close>

record tick =
  Sequence :: int
  Scheduled :: time
  Actual :: time
  Lag :: duration

record scheduler =
  Rate :: f64
  HasClock :: bool
  LagThreshold :: duration

definition catch_up_factor :: int where
  "catch_up_factor = 2"

definition interval :: "(f64 \<Rightarrow> int) \<Rightarrow> scheduler \<Rightarrow> duration" where
  "interval oob s = f64_to_i64 oob (fdiv (f64_of_int second) (Rate s))"

text \<open>\<^verbatim>\<open>time.Duration(float64(i) * float64(time.Second) / s.Rate)\<close>\<close>

definition offset :: "(f64 \<Rightarrow> int) \<Rightarrow> f64 \<Rightarrow> int \<Rightarrow> duration" where
  "offset oob rate i = f64_to_i64 oob (fdiv (fmul (f64_of_int i) (f64_of_int second)) rate)"

definition min_gap :: "(f64 \<Rightarrow> int) \<Rightarrow> scheduler \<Rightarrow> duration" where
  "min_gap oob s = interval oob s sdiv catch_up_factor"

definition deadline_of :: "time \<Rightarrow> duration \<Rightarrow> time \<Rightarrow> time" where
  "deadline_of scheduled minGap lastRelease =
     (if \<not> is_zero_time lastRelease
      then (let fl = time_add lastRelease minGap in if fl > scheduled then fl else scheduled)
      else scheduled)"

function sched_loop ::
  "('w \<Rightarrow> time \<times> 'w) \<Rightarrow> ('w \<Rightarrow> time \<Rightarrow> goerr option \<times> 'w) \<Rightarrow> ('w \<Rightarrow> goerr option) \<Rightarrow>
   (tick \<Rightarrow> 'w \<Rightarrow> goerr option \<times> 'w) \<Rightarrow> (f64 \<Rightarrow> int) \<Rightarrow> scheduler \<Rightarrow> time \<Rightarrow> int \<Rightarrow>
   int \<Rightarrow> time \<Rightarrow> 'w \<Rightarrow> tick list \<times> goerr option \<times> 'w" where
  "sched_loop now slp ctx emit oob s start count i lastRelease w =
     (if i < count then
        (case ctx w of
           Some e \<Rightarrow> ([], Some e, w)
         | None \<Rightarrow>
            (let scheduled = time_add start (offset oob (Rate s) i);
                 deadline = deadline_of scheduled (min_gap oob s) lastRelease;
                 (t, w1) = now w;
                 (r, w2) = (if t < deadline then slp w1 deadline else (None, w1))
             in case r of
                  Some e \<Rightarrow> ([], Some e, w2)
                | None \<Rightarrow>
                   (let (actual, w3) = now w2;
                        lag = time_sub actual scheduled;
                        tk = \<lparr>Sequence = i + 1, Scheduled = scheduled, Actual = actual,
                              Lag = (if lag < 0 then 0 else lag)\<rparr>;
                        (er, w4) = emit tk w3
                    in case er of
                         Some e \<Rightarrow> ([tk], Some e, w4)
                       | None \<Rightarrow>
                          (let (tks, res, w5) =
                             sched_loop now slp ctx emit oob s start count (i + 1) actual w4
                           in (tk # tks, res, w5)))))
      else ([], None, w))"
  by pat_completeness auto
termination
  by (relation "measure (\<lambda>(now, slp, ctx, emit, oob, s, start, count, i, l, w). nat (count - i))") auto

declare sched_loop.simps [simp del]

definition sched_run ::
  "('w \<Rightarrow> time \<times> 'w) \<Rightarrow> ('w \<Rightarrow> time \<Rightarrow> goerr option \<times> 'w) \<Rightarrow> ('w \<Rightarrow> goerr option) \<Rightarrow>
   (tick \<Rightarrow> 'w \<Rightarrow> goerr option \<times> 'w) \<Rightarrow> (f64 \<Rightarrow> int) \<Rightarrow> scheduler \<Rightarrow> time \<Rightarrow> int \<Rightarrow> 'w \<Rightarrow>
   tick list \<times> goerr option \<times> 'w" where
  "sched_run now slp ctx emit oob s start count w =
     (if Rate s \<le> Fin 0 then ([], Some (plain_error ''scheduler rate must be positive''), w)
      else if \<not> HasClock s then ([], Some (plain_error ''scheduler requires a clock''), w)
      else sched_loop now slp ctx emit oob s start count 0 0 w)"

subsection \<open>Facts for every clock\<close>

text \<open>\<open>spaced g xs\<close>: neighbours are at least \<open>g\<close> apart.\<close>

fun spaced :: "duration \<Rightarrow> time list \<Rightarrow> bool" where
  "spaced g (x # y # ys) \<longleftrightarrow> x + g \<le> y \<and> spaced g (y # ys)"
| "spaced g _ \<longleftrightarrow> True"

lemma spaced_nth:
  "spaced g xs \<Longrightarrow> j < length xs \<Longrightarrow> i \<le> j \<Longrightarrow> xs ! i + int (j - i) * g \<le> xs ! j"
proof (induction g xs arbitrary: i j rule: spaced.induct)
  case (1 g x y ys)
  show ?case
  proof (cases i)
    case 0
    show ?thesis
    proof (cases j)
      case (Suc k)
      then have "y + int k * g \<le> (y # ys) ! k" using "1.IH" [of k 0] "1.prems" by simp
      then show ?thesis using "1.prems" 0 Suc by (simp add: algebra_simps)
    qed (use 0 in simp)
  next
    case (Suc m)
    then obtain k where "j = Suc k" using "1.prems" by (cases j) auto
    then show ?thesis using "1.IH" [of k m] "1.prems" Suc by simp
  qed
qed auto

definition tick_ok :: "(f64 \<Rightarrow> int) \<Rightarrow> scheduler \<Rightarrow> time \<Rightarrow> int \<Rightarrow> tick \<Rightarrow> bool" where
  "tick_ok oob s start i tk \<longleftrightarrow>
     Sequence tk = i + 1 \<and> Scheduled tk = start + offset oob (Rate s) i \<and>
     Scheduled tk \<le> Actual tk \<and> Lag tk = min (Actual tk - Scheduled tk) (2 ^ 63 - 1)"

lemma f64_to_i64_range: "\<forall>x. in_i64 (oob x) \<Longrightarrow> in_i64 (f64_to_i64 oob y)"
  by (auto simp: f64_to_i64_def split: f64.splits)

lemma offset_range: "\<forall>x. in_i64 (oob x) \<Longrightarrow> in_i64 (offset oob r i)"
  by (simp add: offset_def f64_to_i64_range)

lemma min_gap_less: "\<forall>x. in_i64 (oob x) \<Longrightarrow> min_gap oob s < 2 ^ 62"
  using f64_to_i64_range [of oob "fdiv (f64_of_int second) (Rate s)"]
  by (auto simp: in_i64_def min_gap_def interval_def catch_up_factor_def signed_divide_int_def sgn_if)

context clock
begin

lemma sched_loop_ticks:
  assumes emit: "\<And>tk w r w'. sound w \<Longrightarrow> emit tk w = (r, w') \<Longrightarrow> sound w' \<and> time_of w \<le> time_of w'"
    and oob: "\<forall>x. in_i64 (oob x)" and start: "0 < start"
  shows "sched_loop now_clock sleep_until ctx_err emit oob s start count i lastRelease w = (tks, res, w')
    \<Longrightarrow> sound w \<Longrightarrow> start \<le> time_of w \<Longrightarrow> lastRelease \<le> time_of w \<Longrightarrow> 0 \<le> lastRelease
    \<Longrightarrow> (\<forall>k < length tks. tick_ok oob s start (i + int k) (tks ! k))
        \<and> spaced (min_gap oob s) ((if lastRelease = 0 then [] else [lastRelease]) @ map Actual tks)
        \<and> int (length tks) \<le> max 0 (count - i)
        \<and> (res = None \<longrightarrow> int (length tks) = max 0 (count - i))"
proof (induction "nat (count - i)" arbitrary: i lastRelease w tks res rule: less_induct)
  case less
  let ?sch = "start + offset oob (Rate s) i"
  let ?dl = "deadline_of ?sch (min_gap oob s) lastRelease"
  show ?case
  proof (cases "i < count \<and> ctx_err w = None")
    case False
    then have "tks = []" and "res = None \<Longrightarrow> \<not> i < count" using less.prems(1)
      by (subst (asm) sched_loop.simps, auto split: if_splits option.splits)+
    then show ?thesis by auto
  next
    case True
    obtain t w1 where n1: "now_clock w = (t, w1)" by (cases "now_clock w")
    obtain r w2 where wt: "wait_until w ?dl = (r, w2)" by (cases "wait_until w ?dl")
    then have sl: "(if t < ?dl then sleep_until w1 ?dl else (None, w1)) = (r, w2)"
      using n1 by (simp add: wait_until_def)
    have near: "?dl - time_of w < 2 ^ 63"
      using offset_range [OF oob, of "Rate s" i] min_gap_less [OF oob, of s] less.prems
      by (auto simp: deadline_of_def Let_def time_add_def in_i64_def)
    note w2 = wait_until_reaches [OF less.prems(2) near wt]
    show ?thesis
    proof (cases r)
      case (Some e)
      then show ?thesis using less.prems(1) True n1 sl
        by (subst (asm) sched_loop.simps) (auto simp: time_add_def Let_def)
    next
      case None
      obtain a w3 where n2: "now_clock w2 = (a, w3)" by (cases "now_clock w2")
      define tk where "tk = \<lparr>Sequence = i + 1, Scheduled = ?sch, Actual = a,
          Lag = (if time_sub a ?sch < 0 then 0 else time_sub a ?sch)\<rparr>"
      obtain er w4 where em: "emit tk w3 = (er, w4)" by (cases "emit tk w3")
      have a: "?dl \<le> a" "a \<le> time_of w3" "sound w3"
        using now_reads [OF w2(1) n2] now_sound [OF w2(1) n2] w2(3) [OF None] by auto
      have dl: "?sch \<le> ?dl" "lastRelease \<noteq> 0 \<Longrightarrow> lastRelease + min_gap oob s \<le> ?dl"
        by (auto simp: deadline_of_def Let_def is_zero_time_def time_add_def)
      have w4: "sound w4" "time_of w3 \<le> time_of w4" using emit [OF a(3) em] by auto
      have a0: "start \<le> a" using now_reads [OF w2(1) n2] w2(2) less.prems(3) by linarith
      have tk: "tick_ok oob s start i tk" using a dl
        by (auto simp: tick_ok_def tk_def time_sub_def)
      show ?thesis
      proof (cases er)
        case (Some e)
        then have "tks = [tk]" "res = Some e" using less.prems(1) True n1 sl None n2 em
          by (subst (asm) sched_loop.simps, auto simp: time_add_def Let_def tk_def)+
        then show ?thesis using tk a(1) dl(2) True by (auto simp: tk_def)
      next
        case none: None
        obtain tks' where rest:
          "sched_loop now_clock sleep_until ctx_err emit oob s start count (i + 1) a w4 = (tks', res, w')"
          and tks: "tks = tk # tks'"
          using less.prems(1) True n1 sl None n2 em none
          by (subst (asm) sched_loop.simps) (auto simp: time_add_def Let_def tk_def split: prod.splits)
        have ih: "(\<forall>k < length tks'. tick_ok oob s start (i + 1 + int k) (tks' ! k))
            \<and> spaced (min_gap oob s) ((if a = 0 then [] else [a]) @ map Actual tks')
            \<and> int (length tks') \<le> max 0 (count - (i + 1))
            \<and> (res = None \<longrightarrow> int (length tks') = max 0 (count - (i + 1)))"
          using True a w4 a0 start by (intro less.hyps [OF _ rest]) auto
        have "tick_ok oob s start (i + int k) (tks ! k)" if "k < length tks" for k
          using ih tk that tks by (cases k) (auto simp: algebra_simps)
        then show ?thesis using ih a(1) dl(2) tks True a0 start
          by (auto simp: tk_def)
      qed
    qed
  qed
qed

lemma sched_run_ticks:
  assumes "\<And>tk w r w'. sound w \<Longrightarrow> emit tk w = (r, w') \<Longrightarrow> sound w' \<and> time_of w \<le> time_of w'"
    and "\<forall>x. in_i64 (oob x)" and "0 < start" and "sound w" and "start \<le> time_of w"
    and "sched_run now_clock sleep_until ctx_err emit oob s start count w = (tks, res, w')"
  shows "(\<forall>k < length tks. tick_ok oob s start (int k) (tks ! k))
        \<and> spaced (min_gap oob s) (map Actual tks)
        \<and> int (length tks) \<le> max 0 count
        \<and> (res = None \<longrightarrow> int (length tks) = max 0 count)"
  using assms sched_loop_ticks [OF assms(1,2,3), where i = 0 and lastRelease = 0]
  by (auto simp: sched_run_def split: if_splits)

end

subsection \<open>The ideal schedule\<close>

lemma offset_near:
  assumes "0 \<le> i" "i * second \<le> 2 ^ 53" "0 < r" "of_int (i * second) / r \<le> 2 ^ 53"
  shows "of_int (i * second) / r - 3 / 2 < of_int (offset oob (Fin r) i)
    \<and> of_int (offset oob (Fin r) i) \<le> of_int (i * second) / r + 1 / 2"
proof -
  let ?x = "of_int (i * second) / r"
  have i: "i \<le> 2 ^ 53" using assms(1,2) by (simp add: second_def)
  have "fmul (f64_of_int i) (f64_of_int second) = Fin (of_int (i * second))"
    using i assms(1,2) rnd_of_int [of "i * second"] by (simp add: second_def)
  then have e: "offset oob (Fin r) i = f64_to_i64 oob (rnd ?x)"
    using assms(3) by (simp add: offset_def)
  have x: "0 \<le> ?x" using assms by (simp add: second_def)
  then have g: "0 \<le> grid ?x" "\<bar>grid ?x - ?x\<bar> \<le> 1 / 2"
    using grid_nonneg [OF x] grid_err_half [of ?x] assms(4) by (simp_all only: abs_of_nonneg)
  have "(2 :: rat) ^ 53 \<le> 2 ^ 1023" by (rule power_increasing) simp_all
  then have "\<bar>?x\<bar> \<le> 2 ^ 1023" using x order_trans [OF assms(4)] by (metis abs_of_nonneg)
  then have "rnd ?x = Fin (grid ?x)" by (rule rnd_bounded)
  moreover have "grid ?x \<le> 2 ^ 53 + 1 / 2" using g(2) assms(4) by linarith
  then have "grid ?x < 2 ^ 63" by (rule order_le_less_trans) simp
  then have "trunc_rat (grid ?x) < 2 ^ 63" using g(1) by (simp add: trunc_rat_def floor_less_iff)
  then have "in_i64 (trunc_rat (grid ?x))" using g(1) by (simp add: trunc_rat_def in_i64_def)
  ultimately have "offset oob (Fin r) i = \<lfloor>grid ?x\<rfloor>"
    using e g(1) by (simp add: f64_to_i64_def trunc_rat_def)
  moreover have "of_int \<lfloor>grid ?x\<rfloor> \<le> grid ?x" "grid ?x - 1 < of_int \<lfloor>grid ?x\<rfloor>" by linarith+
  ultimately show ?thesis using g(2) by linarith
qed

subsection \<open>Properties on the two clocks\<close>

text \<open>What is asked of \<^verbatim>\<open>emit\<close>: it may cancel the context and let time pass,
  but it does not turn the clock back or break it.\<close>

definition emit_forward ::
  "('w \<Rightarrow> bool) \<Rightarrow> ('w \<Rightarrow> time) \<Rightarrow> (tick \<Rightarrow> 'w \<Rightarrow> goerr option \<times> 'w) \<Rightarrow> bool" where
  "emit_forward snd_ok tm emit \<longleftrightarrow> (\<forall>tk w r w'. snd_ok w \<longrightarrow> emit tk w = (r, w') \<longrightarrow>
     snd_ok w' \<and> tm w \<le> tm w')"

lemma fake_run_ticks:
  assumes "emit_forward auto_clock fc_now emit" "\<forall>x. in_i64 (oob x)" "0 < start" "auto_clock w"
    and "start \<le> fc_now w"
    and "sched_run fake_now fake_sleep_until fc_ctx emit oob s start count w = (tks, res, w')"
  shows "k < length tks \<Longrightarrow> tick_ok oob s start (int k) (tks ! k)"
    and "spaced (min_gap oob s) (map Actual tks)"
    and "int (length tks) \<le> max 0 count"
    and "res = None \<Longrightarrow> int (length tks) = max 0 count"
  using fake.sched_run_ticks [OF _ assms(2-6)] assms(1) by (auto simp: emit_forward_def)

lemma real_run_ticks:
  assumes "emit_forward timers_late rw_now emit" "\<forall>x. in_i64 (oob x)" "0 < start" "timers_late w"
    and "start \<le> rw_now w"
    and "sched_run real_now real_sleep_until real_ctx_err emit oob s start count w = (tks, res, w')"
  shows "k < length tks \<Longrightarrow> tick_ok oob s start (int k) (tks ! k)"
    and "spaced (min_gap oob s) (map Actual tks)"
    and "int (length tks) \<le> max 0 count"
    and "res = None \<Longrightarrow> int (length tks) = max 0 count"
  using real.sched_run_ticks [OF _ assms(2-6)] assms(1) by (auto simp: emit_forward_def)

text \<open>C15: the scheduler never fires a catch-up burst.  On the production clock, however late its
  timers fire and however long the callback stalls, any two releases \<open>i\<close> and \<open>j\<close> of a
  stage are at least \<open>j - i\<close> times the catch-up gap (the interval divided by the catch-up
  factor) apart.\<close>

theorem sched_no_burst:
  assumes "emit_forward timers_late rw_now emit" "\<forall>x. in_i64 (oob x)" "0 < start" "timers_late w"
    and "start \<le> rw_now w"
    and "sched_run real_now real_sleep_until real_ctx_err emit oob s start count w = (tks, res, w')"
    and "i \<le> j" "j < length tks"
  shows "Actual (tks ! i) + int (j - i) * min_gap oob s \<le> Actual (tks ! j)"
  using spaced_nth [OF real_run_ticks(2) [OF assms(1-6)], of j i] assms(7,8) by simp

text \<open>A run at one request per second whose callback stalls for three seconds each time.\<close>

definition stall :: "tick \<Rightarrow> real_world \<Rightarrow> goerr option \<times> real_world" where
  "stall tk w = (None, w\<lparr>rw_now := time_add (rw_now w) (3 * second)\<rparr>)"

lemma stall_forward: "emit_forward timers_late rw_now stall"
  by (auto simp: emit_forward_def stall_def second_def time_add_def timers_late_def)

definition rate_one :: scheduler where
  "rate_one = \<lparr>Rate = Fin 1, HasClock = True, LagThreshold = 0\<rparr>"

definition world7 :: real_world where
  "world7 = \<lparr>rw_now = 7, rw_late = [5], rw_done = None\<rparr>"

lemma world7_late: "timers_late world7"
  by (simp add: timers_late_def world7_def)

lemma offset_rate_one: "0 \<le> i \<Longrightarrow> i \<le> 1000 \<Longrightarrow> offset (\<lambda>_. 0) (Fin 1) i = i * 1000000000"
  using rnd_of_int [of "i * 1000000000"] trunc_rat_of_int [of "i * 1000000000"]
  by (simp add: offset_def second_def f64_to_i64_def in_i64_def)

lemma min_gap_rate_one: "min_gap (\<lambda>_. 0) rate_one = 500000000"
  using trunc_rat_of_int [of 1000000000]
  by (simp add: min_gap_def interval_def rate_one_def second_def f64_to_i64_def in_i64_def
      catch_up_factor_def)

definition stalled_run :: "tick list \<times> goerr option \<times> real_world" where
  "stalled_run =
     sched_run real_now real_sleep_until real_ctx_err stall (\<lambda>_. 0) rate_one 7 2 world7"

lemma stalled_run_ticks:
  "stalled_run =
    ([\<lparr>Sequence = 1, Scheduled = 7, Actual = 7, Lag = 0\<rparr>,
      \<lparr>Sequence = 2, Scheduled = 1000000007, Actual = 3000000007, Lag = 2000000000\<rparr>], None,
     world7\<lparr>rw_now := 6000000007\<rparr>)"
  by (simp add: stalled_run_def sched_run_def sched_loop.simps rate_one_def
      min_gap_rate_one [unfolded rate_one_def] world7_def real_ctx_err_def real_sleep_until_def
      offset_rate_one real_now_def stall_def time_add_def
      time_sub_def deadline_of_def is_zero_time_def second_def Let_def)

theorem sched_no_burst_witness: "(let tks = fst stalled_run in
    length tks = 2 \<and> Actual (tks ! 0) + int (1 - 0) * min_gap (\<lambda>_. 0) rate_one \<le> Actual (tks ! 1))"
  using sched_no_burst [OF stall_forward _ _ world7_late _ stalled_run_ticks [unfolded stalled_run_def], of 0 1]
  by (simp add: in_i64_def world7_def min_gap_rate_one stalled_run_ticks)

text \<open>C21: the ticks of a stage are numbered from one without gaps, carry the absolute schedule
  \<open>start + n/rate\<close>, are never released before their scheduled instant, and carry as lag
  exactly the distance between the two (up to the largest duration); a run that returns without an
  error has released every one of the \<open>count\<close> slots.\<close>

theorem sched_ticks_exact:
  assumes "emit_forward timers_late rw_now emit" "\<forall>x. in_i64 (oob x)" "0 < start" "timers_late w"
    and "start \<le> rw_now w"
    and "sched_run real_now real_sleep_until real_ctx_err emit oob s start count w = (tks, res, w')"
  shows "(\<forall>k < length tks. tick_ok oob s start (int k) (tks ! k)) \<and>
    int (length tks) \<le> max 0 count \<and> (res = None \<longrightarrow> int (length tks) = max 0 count)"
  using real_run_ticks [OF assms] by auto

theorem sched_ticks_exact_witness:
  "tick_ok (\<lambda>_. 0) rate_one 7 (int 1) (fst stalled_run ! 1) \<and> Lag (fst stalled_run ! 1) = 2 * second"
  using sched_ticks_exact [OF stall_forward _ _ world7_late _ stalled_run_ticks [unfolded stalled_run_def]]
  by (auto simp: in_i64_def world7_def stalled_run_ticks second_def dest: spec [of _ "1::nat"])


definition fake_stall :: "tick \<Rightarrow> fake_clock \<Rightarrow> goerr option \<times> fake_clock" where
  "fake_stall tk w = (None, advance (3 * second) w)"

definition fake_run :: "tick list \<times> goerr option \<times> fake_clock" where
  "fake_run = sched_run fake_now fake_sleep_until fc_ctx fake_stall (\<lambda>_. 0) rate_one 7 2
     (new_fake_clock 7 True)"

lemma fake_run_result:
  "fake_run =
    ([\<lparr>Sequence = 1, Scheduled = 7, Actual = 7, Lag = 0\<rparr>,
      \<lparr>Sequence = 2, Scheduled = 1000000007, Actual = 3000000007, Lag = 2000000000\<rparr>], None,
     (new_fake_clock 7 True)\<lparr>fc_now := 6000000007\<rparr>)"
  by (simp add: fake_run_def sched_run_def sched_loop.simps rate_one_def
      min_gap_rate_one [unfolded rate_one_def]
      offset_rate_one new_fake_clock_def fake_now_def fake_stall_def advance_def time_add_def
      time_sub_def deadline_of_def is_zero_time_def second_def Let_def)

lemma fake_stall_forward: "emit_forward auto_clock fc_now fake_stall"
  by (auto simp: emit_forward_def fake_stall_def advance_def auto_clock_def time_add_def second_def)


end
