(* ===== verification/Profile.thy ===== *)
theory Profile
  imports Scheduler
begin

text \<open>
  Load profiles, \<^verbatim>\<open>internal/load/profile.go\<close>: the stages of a run, the number of
  requests they plan in float64 and int64 arithmetic, \<^verbatim>\<open>Validate\<close> and the check
  against the run budget.  Reading the file and decoding the YAML are parameters of
  \<open>load_profile\<close>.
\<close>

type_synonym stage_mode = string

definition ModeSequential :: stage_mode where "ModeSequential = ''sequential''"
definition ModeRate :: stage_mode where "ModeRate = ''rate''"

record stage =
  stg_name :: string
  stg_mode :: stage_mode
  stg_count :: int
  stg_tps :: f64
  stg_duration :: duration
  stg_pauseAfter :: "duration option"

record profile =
  prf_name :: string
  prf_note :: string
  prf_stages :: "stage list"
  prf_reserve :: int

datatype profile_error =
    EmptyProfileName | NoStages string | NoStageName int | DuplicateStage string
  | SequentialCount string | SequentialFields string
  | RateTPS string | RateDuration string | RateCount string | RatePlansNothing string f64 duration
  | UnknownMode string | NegativeReserve
  | OverMaxRequests string int int | OverHardCap string int int | ReserveOverCap string int int int
  | ReadProfile string | ParseProfile string

definition planned :: "(f64 \<Rightarrow> int) \<Rightarrow> stage \<Rightarrow> int" where
  "planned oob s =
     (if stg_mode s = ModeSequential then stg_count s
      else f64_to_i64 oob (fmul (stg_tps s) (duration_seconds (stg_duration s))))"

definition total_planned :: "(f64 \<Rightarrow> int) \<Rightarrow> profile \<Rightarrow> int" where
  "total_planned oob p = foldl (\<lambda>total s. s64 (total + planned oob s)) 0 (prf_stages p)"

definition validate_stage :: "(f64 \<Rightarrow> int) \<Rightarrow> stage \<Rightarrow> profile_error option" where
  "validate_stage oob s =
     (if stg_mode s = ModeSequential then
        (if stg_count s < 1 then Some (SequentialCount (stg_name s))
         else if \<not> feq (stg_tps s) (Fin 0) \<or> stg_duration s \<noteq> 0
           then Some (SequentialFields (stg_name s))
         else None)
      else if stg_mode s = ModeRate then
        (if stg_tps s \<le> Fin 0 then Some (RateTPS (stg_name s))
         else if stg_duration s \<le> 0 then Some (RateDuration (stg_name s))
         else if stg_count s \<noteq> 0 then Some (RateCount (stg_name s))
         else if planned oob s < 1
           then Some (RatePlansNothing (stg_name s) (stg_tps s) (stg_duration s))
         else None)
      else Some (UnknownMode (stg_name s)))"

fun validate_stages ::
  "(f64 \<Rightarrow> int) \<Rightarrow> string set \<Rightarrow> int \<Rightarrow> stage list \<Rightarrow> profile_error option" where
  "validate_stages oob seen i [] = None"
| "validate_stages oob seen i (s # ss) =
     (if trim_space (stg_name s) = [] then Some (NoStageName i)
      else if stg_name s \<in> seen then Some (DuplicateStage (stg_name s))
      else (case validate_stage oob s of
        Some e \<Rightarrow> Some e
      | None \<Rightarrow> validate_stages oob (insert (stg_name s) seen) (i + 1) ss))"

definition validate_profile :: "(f64 \<Rightarrow> int) \<Rightarrow> profile \<Rightarrow> profile_error option" where
  "validate_profile oob p =
     (if trim_space (prf_name p) = [] then Some EmptyProfileName
      else if prf_stages p = [] then Some (NoStages (prf_name p))
      else (case validate_stages oob {} 0 (prf_stages p) of
        Some e \<Rightarrow> Some e
      | None \<Rightarrow> if prf_reserve p < 0 then Some NegativeReserve else None))"

definition check_against_quota ::
  "(f64 \<Rightarrow> int) \<Rightarrow> profile \<Rightarrow> int \<Rightarrow> int \<Rightarrow> profile_error option" where
  "check_against_quota oob p maxRequests hardCap =
     (let pl = total_planned oob p in
      if pl > maxRequests then Some (OverMaxRequests (prf_name p) pl maxRequests)
      else if pl > hardCap then Some (OverHardCap (prf_name p) pl hardCap)
      else if prf_reserve p > 0 \<and> s64 (pl + prf_reserve p) > hardCap
        then Some (ReserveOverCap (prf_name p) pl (prf_reserve p) hardCap)
      else None)"

definition load_profile ::
  "(string \<Rightarrow> string + string) \<Rightarrow> (string \<Rightarrow> string + profile) \<Rightarrow> (f64 \<Rightarrow> int) \<Rightarrow> string \<Rightarrow>
   profile_error + profile" where
  "load_profile read_file decode oob path =
     (case read_file path of
        Inl e \<Rightarrow> Inl (ReadProfile e)
      | Inr raw \<Rightarrow>
         (case decode raw of
            Inl e \<Rightarrow> Inl (ParseProfile e)
          | Inr p \<Rightarrow>
             (case validate_profile oob p of Some e \<Rightarrow> Inl e | None \<Rightarrow> Inr p)))"

subsection \<open>What an accepted profile is\<close>

text \<open>The declarative reading of \<^verbatim>\<open>Validate\<close>.\<close>

definition stage_ok :: "(f64 \<Rightarrow> int) \<Rightarrow> stage \<Rightarrow> bool" where
  "stage_ok oob s \<longleftrightarrow>
     (stg_mode s = ModeSequential \<and> 1 \<le> stg_count s \<and> stg_tps s = Fin 0 \<and> stg_duration s = 0) \<or>
     (stg_mode s = ModeRate \<and> \<not> stg_tps s \<le> Fin 0 \<and> 0 < stg_duration s \<and> stg_count s = 0
        \<and> 1 \<le> planned oob s)"

definition profile_ok :: "(f64 \<Rightarrow> int) \<Rightarrow> profile \<Rightarrow> bool" where
  "profile_ok oob p \<longleftrightarrow>
     trim_space (prf_name p) \<noteq> [] \<and> prf_stages p \<noteq> [] \<and> 0 \<le> prf_reserve p
     \<and> distinct (map stg_name (prf_stages p))
     \<and> list_all (\<lambda>s. trim_space (stg_name s) \<noteq> [] \<and> stage_ok oob s) (prf_stages p)"

lemma modes_differ [simp]: "ModeSequential \<noteq> ModeRate" "ModeRate \<noteq> ModeSequential"
  by (simp_all add: ModeSequential_def ModeRate_def)

lemma validate_stage_None: "validate_stage oob s = None \<longleftrightarrow> stage_ok oob s"
  by (auto simp: validate_stage_def stage_ok_def feq_def)

lemma validate_stages_None:
  "validate_stages oob seen i ss = None \<longleftrightarrow>
     distinct (map stg_name ss) \<and> set (map stg_name ss) \<inter> seen = {}
     \<and> list_all (\<lambda>s. trim_space (stg_name s) \<noteq> [] \<and> stage_ok oob s) ss"
  by (induction oob seen i ss rule: validate_stages.induct)
    (auto simp: validate_stage_None [symmetric] split: option.splits)

lemma validate_profile_None: "validate_profile oob p = None \<longleftrightarrow> profile_ok oob p"
  using validate_stages_None [of oob "{}" 0 "prf_stages p"]
  by (cases "validate_stages oob {} 0 (prf_stages p)")
    (auto simp: validate_profile_def profile_ok_def)

lemma stage_ok_planned: "stage_ok oob s \<Longrightarrow> 1 \<le> planned oob s"
  by (auto simp: stage_ok_def planned_def)

text \<open>The int64 sum is the sum modulo \<open>2 ^ 64\<close>.\<close>

lemma foldl_s64:
  "foldl (\<lambda>total s. s64 (total + f s)) (s64 a) ss = s64 (a + sum_list (map f ss))"
  by (induction ss arbitrary: a) (simp_all add: add.assoc)

lemma total_planned_wraps:
  "total_planned oob p = s64 (sum_list (map (planned oob) (prf_stages p)))"
  using foldl_s64 [of "planned oob" 0 "prf_stages p"] by (simp add: total_planned_def)

lemma planned_sum_pos:
  "list_all (\<lambda>s. P s \<and> stage_ok oob s) ss \<Longrightarrow> int (length ss) \<le> sum_list (map (planned oob) ss)"
  by (induction ss) (auto dest: stage_ok_planned)

lemma profile_ok_sum: "profile_ok oob p \<Longrightarrow> 1 \<le> sum_list (map (planned oob) (prf_stages p))"
  using planned_sum_pos [of _ oob "prf_stages p"]
  by (cases "prf_stages p") (fastforce simp: profile_ok_def)+

subsection \<open>Properties\<close>

text \<open>\<^verbatim>\<open>Validate\<close> accepts exactly the profiles with a name and at least one stage,
  distinct non-blank stage names, a non-negative reserve, sequential stages that only set a
  positive count, and rate stages that set only a rate and a positive duration and plan at least
  one request.\<close>

theorem profile_validate_iff: "validate_profile oob p = None \<longleftrightarrow> profile_ok oob p"
  by (rule validate_profile_None)


definition smoke_profile :: profile where
  "smoke_profile = \<lparr>prf_name = ''smoke'', prf_note = [], prf_stages =
     [\<lparr>stg_name = ''functional'', stg_mode = ModeSequential, stg_count = 5, stg_tps = Fin 0,
       stg_duration = 0, stg_pauseAfter = None\<rparr>], prf_reserve = 3\<rparr>"

lemma smoke_ok: "profile_ok oob smoke_profile"
  by (simp add: profile_ok_def smoke_profile_def stage_ok_def trim_space_def is_space_def)


text \<open>Beyond that range the check is unsound: two sequential stages of \<open>2 ^ 62\<close> requests each
  form a valid profile, their int64 total wraps to a negative number, and the profile passes any
  non-negative budget and hard cap.\<close>

theorem profile_overflow_passes:
  "\<exists>p. validate_profile oob p = None
     \<and> sum_list (map (planned oob) (prf_stages p)) = 2 ^ 63
     \<and> check_against_quota oob p 0 0 = None"
proof -
  let ?s = "\<lambda>n. \<lparr>stg_name = n, stg_mode = ModeSequential, stg_count = 2 ^ 62, stg_tps = Fin 0,
       stg_duration = 0, stg_pauseAfter = None\<rparr>"
  let ?p = "\<lparr>prf_name = ''p'', prf_note = [], prf_stages = [?s ''a'', ?s ''b''], prf_reserve = 0\<rparr>"
  have ok: "profile_ok oob ?p"
    by (simp add: profile_ok_def stage_ok_def trim_space_def is_space_def)
  have sum: "sum_list (map (planned oob) (prf_stages ?p)) = 2 ^ 63"
    by (simp add: planned_def)
  then have "check_against_quota oob ?p 0 0 = None"
    by (simp add: check_against_quota_def total_planned_wraps Let_def s64_def)
  with ok sum show ?thesis by (metis validate_profile_None)
qed

end
