(* ===== verification/Histogram.thy ===== *)
theory Histogram
  imports Go_Float "HOL-Library.Multiset"
begin

unbundle bit_operations_syntax

text \<open>
  The latency histogram, \<^verbatim>\<open>internal/metrics/histogram.go\<close>: the bucket layout, the
  recording of a value and the summary with its percentiles.  The atomic counters are fields of
  a record; each atomic add wraps at 64 bits.  Package math/bits enters only through
  \<open>leading_zeros64\<close>, the number of leading zero bits.
\<close>

definition significant_figures :: nat where
  "significant_figures = 3"

definition max_trackable :: int where
  "max_trackable = hour"

record histogram =
  counts :: "int list"
  subBucketCount :: int
  subBucketHalfCount :: int
  subBucketHalfCountMagni :: nat
  subBucketMask :: int
  leadingZeroCountBase :: int
  h_total :: int
  h_sum :: int
  h_min :: int
  h_max :: int
  h_overflow :: int

text \<open>\<^verbatim>\<open>ceil(log2(2 * 10^figures))\<close>\<close>

definition sub_bucket_magnitude :: nat where
  "sub_bucket_magnitude = ceillog2 (2 * 10 ^ significant_figures)"

function bucket_count :: "int \<Rightarrow> nat \<Rightarrow> nat" where
  "bucket_count smallestUntrackable n =
     (if 0 < smallestUntrackable \<and> smallestUntrackable < max_trackable
      then bucket_count (push_bit 1 smallestUntrackable) (n + 1) else n)"
  by pat_completeness auto
termination
  by (relation "measure (\<lambda>(s, n). nat (max_trackable - s))") (auto simp: push_bit_eq_mult)

declare bucket_count.simps [simp del]

definition new_histogram :: histogram where
  "new_histogram =
     (let cnt = push_bit sub_bucket_magnitude 1; hlf = cnt div 2;
          buckets = bucket_count cnt 1
      in \<lparr>counts = replicate ((buckets + 1) * nat hlf) 0,
          subBucketCount = cnt, subBucketHalfCount = hlf,
          subBucketHalfCountMagni = sub_bucket_magnitude - 1,
          subBucketMask = cnt - 1,
          leadingZeroCountBase = 64 - int sub_bucket_magnitude,
          h_total = 0, h_sum = 0, h_min = 2 ^ 63 - 1, h_max = 0, h_overflow = 0\<rparr>)"

definition leading_zeros64 :: "int \<Rightarrow> int" where
  "leading_zeros64 x = 64 - bitlen x"

definition bucket_index :: "histogram \<Rightarrow> int \<Rightarrow> int" where
  "bucket_index h v = leadingZeroCountBase h - leading_zeros64 (v OR subBucketMask h)"

definition counts_index :: "histogram \<Rightarrow> int \<Rightarrow> int" where
  "counts_index h v =
     (let bucketIdx = bucket_index h v;
          subBucketIdx = drop_bit (nat bucketIdx) v
      in push_bit (subBucketHalfCountMagni h) (bucketIdx + 1) + subBucketIdx - subBucketHalfCount h)"

definition value_at :: "histogram \<Rightarrow> int \<Rightarrow> int" where
  "value_at h idx =
     (let bucketIdx = drop_bit (subBucketHalfCountMagni h) idx - 1;
          subBucketIdx = (idx AND (subBucketHalfCount h - 1)) + subBucketHalfCount h
      in if bucketIdx < 0 then push_bit 0 (subBucketIdx - subBucketHalfCount h)
         else push_bit (nat bucketIdx) subBucketIdx)"

definition highest_equivalent :: "histogram \<Rightarrow> int \<Rightarrow> int" where
  "highest_equivalent h idx =
     (let b = drop_bit (subBucketHalfCountMagni h) idx - 1;
          bucketIdx = (if b < 0 then 0 else b)
      in value_at h idx + push_bit (nat bucketIdx) 1 - 1)"

text \<open>\<^verbatim>\<open>Record\<close>; the index is in range for every value (lemma \<open>index_bounds\<close>).\<close>

definition record_value :: "int \<Rightarrow> histogram \<Rightarrow> histogram" where
  "record_value v0 h0 =
     (let v1 = (if v0 < 0 then 0 else v0);
          h = (if v1 > max_trackable then h0\<lparr>h_overflow := s64 (h_overflow h0 + 1)\<rparr> else h0);
          v = (if v1 > max_trackable then max_trackable else v1);
          idx = nat (counts_index h v)
      in h\<lparr>counts := (counts h)[idx := s64 (counts h ! idx + 1)],
           h_total := s64 (h_total h + 1),
           h_sum := s64 (h_sum h + v),
           h_min := (if v \<ge> h_min h then h_min h else v),
           h_max := (if v \<le> h_max h then h_max h else v)\<rparr>)"

record snapshot =
  snap_Count :: int
  snap_Min :: duration
  snap_Mean :: duration
  snap_P50 :: duration
  snap_P90 :: duration
  snap_P95 :: duration
  snap_P99 :: duration
  snap_Max :: duration
  snap_Overflows :: int

text \<open>The quantiles 0.50, 0.90, 0.95 and 0.99 as float64 constants.\<close>

definition targets :: "f64 list" where
  "targets = [rnd (1 / 2), rnd (9 / 10), rnd (19 / 20), rnd (99 / 100)]"

definition reached :: "int \<Rightarrow> int \<Rightarrow> f64 \<Rightarrow> bool" where
  "reached n cumulative q \<longleftrightarrow> fmul q (f64_of_int n) \<le> f64_of_int cumulative"

text \<open>The single pass over the buckets: the values written for the targets, in order.\<close>

fun scan :: "histogram \<Rightarrow> int \<Rightarrow> f64 list \<Rightarrow> int \<Rightarrow> int \<Rightarrow> int list \<Rightarrow> int list" where
  "scan h n qs idx cumulative [] = []"
| "scan h n qs idx cumulative (c # cs) =
     (if c = 0 then scan h n qs (idx + 1) cumulative cs
      else (let cum = s64 (cumulative + c);
                met = takeWhile (reached n cum) qs;
                rest = dropWhile (reached n cum) qs
            in map (\<lambda>_. highest_equivalent h idx) met @
               (if rest = [] then [] else scan h n rest (idx + 1) cum cs)))"

definition snapshot_of :: "histogram \<Rightarrow> snapshot" where
  "snapshot_of h =
     (let n = h_total h in
      if n = 0 then \<lparr>snap_Count = 0, snap_Min = 0, snap_Mean = 0, snap_P50 = 0, snap_P90 = 0, snap_P95 = 0, snap_P99 = 0,
                        snap_Max = 0, snap_Overflows = h_overflow h\<rparr>
      else (let out = scan h n targets 0 0 (counts h);
                ps = out @ replicate (length targets - length out) (h_max h)
            in \<lparr>snap_Count = n, snap_Min = h_min h, snap_Mean = h_sum h sdiv n,
                snap_P50 = ps ! 0, snap_P90 = ps ! 1, snap_P95 = ps ! 2, snap_P99 = ps ! 3,
                snap_Max = h_max h, snap_Overflows = h_overflow h\<rparr>))"

subsection \<open>The bucket layout\<close>

text \<open>The fields no operation changes, with the values \<^verbatim>\<open>NewHistogram\<close> computes.\<close>

definition standard :: "histogram \<Rightarrow> bool" where
  "standard h \<longleftrightarrow> subBucketCount h = 2048 \<and> subBucketHalfCount h = 1024
     \<and> subBucketHalfCountMagni h = 10 \<and> subBucketMask h = 2047 \<and> leadingZeroCountBase h = 53"

lemma sub_bucket_magnitude: "sub_bucket_magnitude = 11"
proof -
  have "ceillog2 (2 ^ 10 + 976) = 11"
    by (intro ceillog2_eqI) simp_all
  then show ?thesis by (simp add: sub_bucket_magnitude_def significant_figures_def)
qed

lemma bucket_count_2048 [simp]: "bucket_count 2048 (Suc 0) = 32"
  by (simp add: bucket_count.simps max_trackable_def hour_def)

lemma new_histogram_standard [simp]: "standard new_histogram"
  by (simp add: standard_def new_histogram_def Let_def sub_bucket_magnitude)

lemma new_histogram_sel [simp]:
  "counts new_histogram = replicate 33792 0" "h_total new_histogram = 0"
  "h_sum new_histogram = 0" "h_min new_histogram = 2 ^ 63 - 1" "h_max new_histogram = 0"
  "h_overflow new_histogram = 0"
  by (simp_all add: new_histogram_def Let_def sub_bucket_magnitude)

text \<open>The exponent of the bucket of a value, in closed form.\<close>

definition bucket_of :: "int \<Rightarrow> nat" where
  "bucket_of v = nat (bitlen v - 11)"

lemma div_less_of_less_mult:
  "v < k * w \<Longrightarrow> 0 < w \<Longrightarrow> v div w < (k::int)"
  using mult_div_mod_eq [of w v] pos_mod_sign [of w v]
  by (metis add.commute add_increasing less_le_not_le linorder_not_le mult.commute
      mult_less_cancel_right_pos order_le_less_trans)

lemma mod_1024: "1024 \<le> x \<Longrightarrow> x < 2048 \<Longrightarrow> x mod 1024 = x - (1024 :: int)"
proof -
  assume "1024 \<le> x" "x < 2048"
  then have "(x - 1024) mod 1024 = x - 1024" by (intro mod_pos_pos_trivial) simp_all
  then show ?thesis by (simp only: minus_mod_self2)
qed

lemma bitlen_less: "0 \<le> x \<Longrightarrow> bitlen x \<le> int n \<longleftrightarrow> x < 2 ^ n"
  using bitlen_le_iff_power by simp

lemma bitlen_or:
  assumes "0 \<le> v"
  shows "bitlen (v OR 2047) = max 11 (bitlen v)"
proof -
  have or: "0 \<le> v OR 2047" using assms by simp
  have "v OR 2047 < 2 ^ n \<longleftrightarrow> v < 2 ^ n \<and> (2047 :: int) < 2 ^ n" for n
    using assms OR_upper [of v n 2047] or_greater_eq [of 2047 v] or_greater_eq [of v 2047]
    by (auto simp: or.commute)
  moreover have "(2047 :: int) < 2 ^ n \<longleftrightarrow> 11 \<le> n" for n
  proof
    assume "(2047 :: int) < 2 ^ n"
    then have "(2 :: int) ^ 11 \<le> 2 ^ n" by simp
    then show "11 \<le> n" by (simp only: power_increasing_iff)
  next
    assume "11 \<le> n"
    then have "(2 :: int) ^ 11 \<le> 2 ^ n" by (intro power_increasing) simp_all
    then show "(2047 :: int) < 2 ^ n" by simp
  qed
  ultimately have "bitlen (v OR 2047) \<le> int n \<longleftrightarrow> max 11 (bitlen v) \<le> int n" for n
    using assms or by (auto simp: bitlen_less)
  moreover have "int (nat (bitlen (v OR 2047))) = bitlen (v OR 2047)"
    "int (nat (max 11 (bitlen v))) = max 11 (bitlen v)" by (simp_all add: bitlen_nonneg)
  ultimately show ?thesis by (metis order_antisym order_refl)
qed

lemma bucket_index_eq: "standard h \<Longrightarrow> 0 \<le> v \<Longrightarrow> bucket_index h v = int (bucket_of v)"
  by (simp add: bucket_index_def standard_def leading_zeros64_def bitlen_or bucket_of_def)

text \<open>A value is a sub-bucket number and a remainder below the bucket width.\<close>

lemma sub_bucket_range:
  assumes "0 \<le> v"
  shows "v div 2 ^ bucket_of v < 2048" and "0 < bucket_of v \<Longrightarrow> 1024 \<le> v div 2 ^ bucket_of v"
proof -
  have "bitlen v \<le> int (11 + bucket_of v)" by (simp add: bucket_of_def)
  then have "v < 2 ^ (11 + bucket_of v)" by (simp only: bitlen_less [OF assms])
  then show "v div 2 ^ bucket_of v < 2048"
    by (intro div_less_of_less_mult) (simp_all add: power_add)
  assume b: "0 < bucket_of v"
  then have "\<not> bitlen v \<le> int (10 + bucket_of v)" by (simp add: bucket_of_def)
  then have "2 ^ (10 + bucket_of v) \<le> v"
    using bitlen_less [OF assms, of "10 + bucket_of v"] by linarith
  then show "1024 \<le> v div 2 ^ bucket_of v"
    using zdiv_mono1 [of "1024 * 2 ^ bucket_of v" v "2 ^ bucket_of v"] by (simp add: power_add)
qed

lemma counts_index_eq:
  "standard h \<Longrightarrow> 0 \<le> v \<Longrightarrow> counts_index h v = int (bucket_of v) * 1024 + v div 2 ^ bucket_of v"
  by (simp add: counts_index_def bucket_index_eq)
    (simp add: standard_def push_bit_eq_mult drop_bit_eq_div)

lemma bucket_of_mono: "0 \<le> v \<Longrightarrow> v \<le> w \<Longrightarrow> bucket_of v \<le> bucket_of w"
  using bitlen_less [of v "nat (bitlen w)"] bitlen_less [of w "nat (bitlen w)"]
  by (simp add: bucket_of_def bitlen_nonneg)

lemma counts_index_mono:
  assumes "standard h" "0 \<le> v" "v \<le> w"
  shows "counts_index h v \<le> counts_index h w"
proof (cases "bucket_of v = bucket_of w")
  case True
  then show ?thesis using assms by (simp add: counts_index_eq zdiv_mono1)
next
  case False
  then have "bucket_of v + 1 \<le> bucket_of w" using bucket_of_mono [OF assms(2,3)] by simp
  then show ?thesis
    using sub_bucket_range [of v] sub_bucket_range [of w] assms by (simp add: counts_index_eq)
qed

lemma index_bounds:
  assumes "standard h" "0 \<le> v" "v \<le> max_trackable"
  shows "0 \<le> counts_index h v" and "counts_index h v < 33792"
proof -
  have "v < 2 ^ 42" using assms by (simp add: max_trackable_def hour_def)
  then have "bucket_of v \<le> 31" using bitlen_less [of v 42] assms by (simp add: bucket_of_def)
  then show "counts_index h v < 33792"
    using sub_bucket_range(1) [of v] assms by (simp add: counts_index_eq)
  have "0 \<le> v div 2 ^ bucket_of v" using assms by (simp add: pos_imp_zdiv_nonneg_iff)
  then show "0 \<le> counts_index h v" using assms by (simp add: counts_index_eq)
qed

lemma index_parts:
  assumes "standard h" "0 \<le> v"
  defines "s \<equiv> v div 2 ^ bucket_of v" and "i \<equiv> counts_index h v"
  shows "drop_bit 10 i - 1 = (if s < 1024 then - 1 else int (bucket_of v))"
    and "i AND 1023 = s mod 1024"
proof -
  have s: "0 \<le> s" "s < 2048" "0 < bucket_of v \<Longrightarrow> 1024 \<le> s"
    using sub_bucket_range [OF assms(2)] assms(2) by (auto simp: s_def pos_imp_zdiv_nonneg_iff)
  have i: "i = int (bucket_of v) * 1024 + s" using assms by (simp add: counts_index_eq)
  have "s div 1024 = (if s < 1024 then 0 else 1)" using s by auto
  then show "drop_bit 10 i - 1 = (if s < 1024 then - 1 else int (bucket_of v))"
    using s(3) by (cases "bucket_of v") (auto simp: i drop_bit_eq_div)
  have "i AND 1023 = i mod 1024" using take_bit_eq_mask [of 10 i] by (simp add: take_bit_eq_mod mask_eq_exp_minus_1)
  then show "i AND 1023 = s mod 1024" by (simp add: i)
qed

lemma value_at_index:
  assumes "standard h" "0 \<le> v"
  shows "value_at h (counts_index h v) = v div 2 ^ bucket_of v * 2 ^ bucket_of v"
    and "highest_equivalent h (counts_index h v) =
         v div 2 ^ bucket_of v * 2 ^ bucket_of v + 2 ^ bucket_of v - 1"
proof -
  let ?s = "v div 2 ^ bucket_of v"
  have s: "0 \<le> ?s" "?s < 2048" "0 < bucket_of v \<Longrightarrow> 1024 \<le> ?s"
    using sub_bucket_range [OF assms(2)] assms(2) by (auto simp: pos_imp_zdiv_nonneg_iff)
  have m: "1024 \<le> ?s \<Longrightarrow> ?s mod 1024 = ?s - 1024" using s(2) by (intro mod_1024) simp
  show v: "value_at h (counts_index h v) = ?s * 2 ^ bucket_of v"
    using s m index_parts [OF assms] assms(1)
    by (cases "bucket_of v") (auto simp: value_at_def standard_def Let_def nat_add_distrib push_bit_eq_mult)
  show "highest_equivalent h (counts_index h v) = ?s * 2 ^ bucket_of v + 2 ^ bucket_of v - 1"
    unfolding highest_equivalent_def Let_def v
    using s(3) index_parts(1) [OF assms] assms(1)
    by (cases "bucket_of v") (auto simp: standard_def nat_add_distrib push_bit_eq_mult)
qed

subsection \<open>Recording\<close>

definition record_all :: "int list \<Rightarrow> histogram" where
  "record_all xs = foldl (\<lambda>h v. record_value v h) new_histogram xs"

definition clamp :: "int \<Rightarrow> int" where
  "clamp v = max 0 (min max_trackable v)"

text \<open>The slot of a value, and the least and the greatest value that share it.\<close>

definition slot :: "int \<Rightarrow> nat" where
  "slot v = nat (int (bucket_of v) * 1024 + v div 2 ^ bucket_of v)"

definition bucket_low :: "int \<Rightarrow> int" where
  "bucket_low v = v div 2 ^ bucket_of v * 2 ^ bucket_of v"

definition bucket_top :: "int \<Rightarrow> int" where
  "bucket_top v = bucket_low v + 2 ^ bucket_of v - 1"

lemma clamp_range: "0 \<le> clamp v" "clamp v \<le> max_trackable"
  by (simp_all add: clamp_def max_trackable_def hour_def)

lemma slot_index: "standard h \<Longrightarrow> 0 \<le> v \<Longrightarrow> counts_index h v = int (slot v)"
  by (simp add: counts_index_eq slot_def pos_imp_zdiv_nonneg_iff)

lemma slot_bound: "slot (clamp v) < 33792"
  using index_bounds [OF new_histogram_standard clamp_range] clamp_range(1)
  by (simp add: slot_index)

lemma slot_mono: "0 \<le> v \<Longrightarrow> v \<le> w \<Longrightarrow> slot v \<le> slot w"
  using counts_index_mono [OF new_histogram_standard, of v w] by (simp add: slot_index)

lemma highest_slot: "standard h \<Longrightarrow> 0 \<le> v \<Longrightarrow> highest_equivalent h (int (slot v)) = bucket_top v"
  using value_at_index(2) [of h v] by (simp add: slot_index bucket_top_def bucket_low_def)

text \<open>What the fields hold after recording \<open>xs\<close>.\<close>

definition hist_rel :: "histogram \<Rightarrow> int list \<Rightarrow> bool" where
  "hist_rel h xs \<longleftrightarrow> standard h
     \<and> counts h = map (\<lambda>i. int (count_list (map (slot \<circ> clamp) xs) i)) [0..<33792]
     \<and> h_total h = int (length xs)
     \<and> h_sum h = s64 (sum_list (map clamp xs))
     \<and> h_min h = fold min (map clamp xs) (2 ^ 63 - 1)
     \<and> h_max h = fold max (map clamp xs) 0
     \<and> h_overflow h = int (length (filter (\<lambda>v. max_trackable < v) xs))"

lemma hist_rel_new: "hist_rel new_histogram []"
  by (simp add: hist_rel_def map_replicate_const)

lemma count_list_le: "count_list xs y \<le> length xs"
  by (induction xs) auto

lemma record_value_clamp:
  "record_value v h =
     h\<lparr>h_overflow := (if max_trackable < v then s64 (h_overflow h + 1) else h_overflow h),
       counts := (counts h)[nat (counts_index h (clamp v)) := s64 (counts h ! nat (counts_index h (clamp v)) + 1)],
       h_total := s64 (h_total h + 1), h_sum := s64 (h_sum h + clamp v),
       h_min := min (clamp v) (h_min h), h_max := max (clamp v) (h_max h)\<rparr>"
proof -
  have "counts_index (h\<lparr>h_overflow := z\<rparr>) x = counts_index h x" for z x
    by (simp add: counts_index_def bucket_index_def)
  then show ?thesis
    by (auto simp: record_value_def Let_def clamp_def min_def max_def max_trackable_def hour_def)
qed

lemma hist_rel_step:
  assumes "hist_rel h xs" "int (length xs) < 2 ^ 62"
  shows "hist_rel (record_value v h) (xs @ [v])"
proof -
  have ix: "nat (counts_index h (clamp v)) = slot (clamp v)"
    using assms clamp_range(1) by (simp add: hist_rel_def slot_index)
  let ?ys = "map (slot \<circ> clamp) xs"
  have small: "s64 (int (count_list ?ys i) + 1) = int (count_list ?ys i) + 1" for i
    using count_list_le [of ?ys i] assms(2) by (intro s64_id in_i64_small) simp_all
  have "(map (\<lambda>i. int (count_list ?ys i)) [0..<33792])[slot (clamp v) := int (count_list ?ys (slot (clamp v))) + 1] =
      map (\<lambda>i. int (count_list (map (slot \<circ> clamp) (xs @ [v])) i)) [0..<33792]"
    using slot_bound [of v] by (intro nth_equalityI) (auto simp: nth_list_update)
  moreover have "h_overflow h < 2 ^ 62"
    using assms le_less_trans [OF length_filter_le [of "\<lambda>v. max_trackable < v" xs]]
    by (simp add: hist_rel_def)
  ultimately show ?thesis using assms slot_bound [of v] ix small
    by (simp add: hist_rel_def record_value_clamp standard_def)
qed

lemma record_all_rel: "int (length xs) \<le> 2 ^ 62 \<Longrightarrow> hist_rel (record_all xs) xs"
proof (induction xs rule: rev_induct)
  case Nil
  then show ?case by (simp add: record_all_def hist_rel_new)
next
  case (snoc v xs)
  then show ?case using hist_rel_step [of "record_all xs" xs v] by (simp add: record_all_def)
qed

subsection \<open>The percentile pass\<close>

text \<open>The first bucket at which a monotone condition on the cumulative count holds.\<close>

fun first_reaching :: "(int \<Rightarrow> bool) \<Rightarrow> nat \<Rightarrow> int \<Rightarrow> int list \<Rightarrow> nat" where
  "first_reaching P idx cum [] = idx"
| "first_reaching P idx cum (c # cs) =
     (if c \<noteq> 0 \<and> P (cum + c) then idx else first_reaching P (idx + 1) (cum + c) cs)"

lemma sum_list_nonneg_int: "list_all (\<lambda>c. 0 \<le> c) cs \<Longrightarrow> 0 \<le> sum_list (cs :: int list)"
  by (induction cs) auto

lemma dropWhile_not_first:
  "sorted_wrt (\<lambda>p q. Q q \<longrightarrow> Q p) qs \<Longrightarrow> q \<in> set (dropWhile Q qs) \<Longrightarrow> \<not> Q q"
  by (induction qs) (auto split: if_splits)

lemma sorted_wrt_dropWhile: "sorted_wrt R qs \<Longrightarrow> sorted_wrt R (dropWhile Q qs)"
  by (induction qs) auto

lemma scan_Nil: "scan h n [] idx cum cs = []"
  by (induction cs arbitrary: idx cum) (auto simp: Let_def)

lemma scan_eq:
  assumes "sorted_wrt (\<lambda>p q. \<forall>k. reached n k q \<longrightarrow> reached n k p) qs"
    and "list_all (\<lambda>c. 0 \<le> c) cs" "0 \<le> cum" "cum + sum_list cs < 2 ^ 63"
    and "\<forall>q \<in> set qs. reached n (cum + sum_list cs) q \<and> \<not> reached n cum q"
  shows "scan h n qs (int idx) cum cs =
    map (\<lambda>q. highest_equivalent h (int (first_reaching (\<lambda>k. reached n k q) idx cum cs))) qs"
  using assms
proof (induction cs arbitrary: qs idx cum)
  case Nil
  then show ?case by (cases qs) auto
next
  case (Cons c cs)
  have next_idx: "int idx + 1 = int (idx + 1)" by simp
  show ?case
  proof (cases "c = 0")
    case True
    then show ?thesis using Cons.IH [of qs cum "idx + 1"] Cons.prems by (simp add: add.commute)
  next
    case False
    let ?Q = "reached n (cum + c)"
    have cum: "s64 (cum + c) = cum + c"
      using Cons.prems sum_list_nonneg_int [of cs] by (intro s64_id in_i64_small) simp_all
    have ord: "sorted_wrt (\<lambda>p q. ?Q q \<longrightarrow> ?Q p) qs"
      using Cons.prems(1) by (rule sorted_wrt_mono_rel [rotated]) auto
    have rest: "scan h n (dropWhile ?Q qs) (int (idx + 1)) (cum + c) cs =
        map (\<lambda>q. highest_equivalent h (int (first_reaching (\<lambda>k. reached n k q) (idx + 1) (cum + c) cs)))
          (dropWhile ?Q qs)"
    proof (rule Cons.IH)
      show "sorted_wrt (\<lambda>p q. \<forall>k. reached n k q \<longrightarrow> reached n k p) (dropWhile ?Q qs)"
        using Cons.prems(1) by (rule sorted_wrt_dropWhile)
      show "\<forall>q \<in> set (dropWhile ?Q qs). reached n (cum + c + sum_list cs) q \<and> \<not> ?Q q"
      proof
        fix q assume q: "q \<in> set (dropWhile ?Q qs)"
        then have "q \<in> set qs" by (rule set_dropWhileD)
        with Cons.prems(5) have "reached n (cum + c + sum_list cs) q" by (simp add: add.assoc)
        with dropWhile_not_first [OF ord q]
        show "reached n (cum + c + sum_list cs) q \<and> \<not> ?Q q" by (rule conjI [rotated])
      qed
    qed (use Cons.prems in simp_all)
    have met: "q \<in> set (takeWhile ?Q qs) \<Longrightarrow> ?Q q" for q by (auto dest: set_takeWhileD)
    let ?f = "\<lambda>q. highest_equivalent h (int (first_reaching (\<lambda>k. reached n k q) idx cum (c # cs)))"
    have f: "q \<in> set (takeWhile ?Q qs) \<Longrightarrow> ?f q = highest_equivalent h (int idx)"
      "q \<in> set (dropWhile ?Q qs) \<Longrightarrow> ?f q =
        highest_equivalent h (int (first_reaching (\<lambda>k. reached n k q) (idx + 1) (cum + c) cs))" for q
      using met [of q] dropWhile_not_first [OF ord, of q] False by simp_all
    have "map ?f qs = map ?f (takeWhile ?Q qs) @ map ?f (dropWhile ?Q qs)"
      by (simp only: takeWhile_dropWhile_id flip: map_append)
    also have "map ?f (takeWhile ?Q qs) = map (\<lambda>_. highest_equivalent h (int idx)) (takeWhile ?Q qs)"
      by (rule map_cong [OF refl f(1)])
    also have "map ?f (dropWhile ?Q qs) = scan h n (dropWhile ?Q qs) (int (idx + 1)) (cum + c) cs"
      unfolding rest by (rule map_cong [OF refl f(2)])
    finally have e: "map ?f qs = map (\<lambda>_. highest_equivalent h (int idx)) (takeWhile ?Q qs) @
      scan h n (dropWhile ?Q qs) (int (idx + 1)) (cum + c) cs" .
    have "scan h n qs (int idx) cum (c # cs) =
        map (\<lambda>_. highest_equivalent h (int idx)) (takeWhile ?Q qs) @
        (if dropWhile ?Q qs = [] then [] else scan h n (dropWhile ?Q qs) (int (idx + 1)) (cum + c) cs)"
      unfolding scan.simps Let_def cum next_idx using False by (rule if_not_P)
    then show ?thesis unfolding e by (cases "dropWhile ?Q qs = []") (simp_all only: scan_Nil if_True if_False refl simp_thms)
  qed
qed

lemma first_reaching_spec:
  fixes idx :: nat
  assumes "P (cum + sum_list cs)" "\<not> P cum"
  shows "idx \<le> first_reaching P idx cum cs \<and> first_reaching P idx cum cs < idx + length cs
    \<and> P (cum + sum_list (take (first_reaching P idx cum cs - idx + 1) cs))
    \<and> \<not> P (cum + sum_list (take (first_reaching P idx cum cs - idx) cs))"
  using assms
proof (induction cs arbitrary: idx cum)
  case (Cons c cs)
  show ?case
  proof (cases "c \<noteq> 0 \<and> P (cum + c)")
    case False
    have "\<not> P (cum + c)" using False Cons.prems(2) by auto
    from Cons.IH [OF _ this, of "idx + 1"]
    have "idx + 1 \<le> first_reaching P (idx + 1) (cum + c) cs \<and>
      first_reaching P (idx + 1) (cum + c) cs < idx + 1 + length cs \<and>
      P (cum + c + sum_list (take (first_reaching P (idx + 1) (cum + c) cs - (idx + 1) + 1) cs)) \<and>
      \<not> P (cum + c + sum_list (take (first_reaching P (idx + 1) (cum + c) cs - (idx + 1)) cs))"
      using Cons.prems by (simp add: add.assoc)
    moreover obtain d where "first_reaching P (idx + 1) (cum + c) cs = idx + 1 + d"
      using calculation le_Suc_ex by blast
    ultimately show ?thesis using False by (auto simp: add.assoc)
  qed (use Cons.prems in auto)
qed simp

lemma sum_count_list:
  "sum_list (map (\<lambda>i. int (count_list ys i)) [0..<j]) = int (length (filter (\<lambda>y. y < j) ys))"
proof (induction j)
  case (Suc j)
  have "length (filter (\<lambda>y. y < Suc j) ys) = length (filter (\<lambda>y. y < j) ys) + count_list ys j"
    by (induction ys) auto
  then show ?case using Suc by simp
qed simp

lemma sorted_nth_less:
  "sorted xs \<Longrightarrow> 1 \<le> k \<Longrightarrow> k \<le> length xs \<Longrightarrow>
   xs ! (k - 1) < (j :: 'a :: linorder) \<longleftrightarrow> k \<le> length (filter (\<lambda>x. x < j) xs)"
proof (induction xs arbitrary: k)
  case (Cons x xs)
  show ?case
  proof (cases "x < j")
    case True
    then show ?thesis using Cons.IH [of "k - 1"] Cons.prems by (cases "k = 1") (auto simp: nth_Cons')
  next
    case False
    then have "filter (\<lambda>x. x < j) (x # xs) = []" using Cons.prems(1) by (auto simp: filter_empty_conv)
    moreover have "x \<le> (x # xs) ! (k - 1)" using Cons.prems by (cases "k - 1") auto
    ultimately show ?thesis using False Cons.prems by auto
  qed
qed simp

subsection \<open>The targets\<close>

lemma rnd_unit: "1 / 2 \<le> r \<Longrightarrow> r \<le> 1 \<Longrightarrow> rnd r = Fin (grid r) \<and> 1 / 2 \<le> grid r \<and> grid r \<le> 1"
proof -
  assume r: "1 / 2 \<le> r" "r \<le> 1"
  have "grid (1 / 2) = 1 / 2" using grid_exact [of 1 "- 1"] by (simp add: power_int_minus)
  moreover have "grid 1 = 1" using grid_of_int [of 1] by simp
  ultimately have g: "1 / 2 \<le> grid r" "grid r \<le> 1"
    using grid_mono [OF r(1)] grid_mono [OF r(2)] by simp_all
  moreover have "(1 :: rat) < 2 ^ 1024" by simp
  ultimately have "\<bar>grid r\<bar> < 2 ^ 1024" by linarith
  then show ?thesis using g by (simp add: rnd_def)
qed

lemma targets_eq: "targets = map (\<lambda>r. Fin (grid r)) [1 / 2, 9 / 10, 19 / 20, 99 / 100]"
  by (simp add: targets_def rnd_unit)

lemma targets_unit: "q \<in> set targets \<Longrightarrow> \<exists>r. q = Fin r \<and> 1 / 2 \<le> r \<and> r \<le> 1"
  using rnd_unit by (auto simp: targets_eq)

lemma reached_mono: "reached n k q \<Longrightarrow> k \<le> k' \<Longrightarrow> reached n k' q"
  unfolding reached_def by (rule f64_le_trans [OF _ f64_of_int_mono])

lemma count_as_f64:
  "0 < n \<Longrightarrow> n < 2 ^ 63 \<Longrightarrow> f64_of_int n = Fin (grid (of_int n)) \<and> 1 \<le> grid (of_int n)"
proof -
  assume n: "0 < n" "n < 2 ^ 63"
  have "(of_int n :: rat) \<le> of_int (2 ^ 63)" using n by (simp only: of_int_le_iff)
  also have "\<dots> \<le> 2 ^ 1023" by simp
  finally have "\<bar>of_int n :: rat\<bar> \<le> 2 ^ 1023" using n by simp
  then have "rnd (of_int n) = Fin (grid (of_int n))" by (rule rnd_bounded(1))
  moreover have "grid 1 \<le> grid (of_int n)" using n by (intro grid_mono) simp
  ultimately show ?thesis using grid_of_int [of 1] by (simp add: f64_of_int_def)
qed

lemma reached_total: "0 < n \<Longrightarrow> n < 2 ^ 63 \<Longrightarrow> q \<in> set targets \<Longrightarrow> reached n n q"
proof -
  assume n: "0 < n" "n < 2 ^ 63" and "q \<in> set targets"
  then obtain r where r: "q = Fin r" "1 / 2 \<le> r" "r \<le> 1" using targets_unit by blast
  let ?g = "grid (of_int n)"
  have g: "f64_of_int n = Fin ?g" "1 \<le> ?g" using count_as_f64 [OF n] by simp_all
  then have "r * ?g \<le> ?g" using r by (simp add: mult_left_le_one_le)
  then have "rnd (r * ?g) \<le> rnd ?g" by (rule rnd_mono)
  moreover have "rnd ?g = Fin ?g" using g by (simp add: f64_of_int_def rnd_def Let_def split: if_splits)
  ultimately show ?thesis using g(1) r(1) by (simp add: reached_def)
qed

lemma not_reached_0: "0 < n \<Longrightarrow> n < 2 ^ 63 \<Longrightarrow> q \<in> set targets \<Longrightarrow> \<not> reached n 0 q"
proof -
  assume n: "0 < n" "n < 2 ^ 63" and "q \<in> set targets"
  then obtain r where r: "q = Fin r" "1 / 2 \<le> r" using targets_unit by blast
  let ?g = "grid (of_int n)"
  have g: "f64_of_int n = Fin ?g" "1 \<le> ?g" using count_as_f64 [OF n] by simp_all
  have "1 / 2 * 1 \<le> r * ?g" using r g by (intro mult_mono) simp_all
  then have "rnd (1 / 2) \<le> rnd (r * ?g)" by (intro rnd_mono) simp
  moreover have "rnd (1 / 2) = Fin (1 / 2)"
    using grid_exact [of 1 "- 1"] by (intro rnd_exact) (simp_all add: power_int_minus)
  ultimately show ?thesis using g(1) r(1)
    by (cases "rnd (r * ?g)") (auto simp: reached_def split: if_splits)
qed

lemma reached_order:
  "0 < n \<Longrightarrow> n < 2 ^ 63 \<Longrightarrow>
   sorted_wrt (\<lambda>p q. \<forall>k. reached n k q \<longrightarrow> reached n k p) targets"
proof -
  assume n: "0 < n" "n < 2 ^ 63"
  let ?g = "grid (of_int n)"
  have g: "f64_of_int n = Fin ?g" "1 \<le> ?g" using count_as_f64 [OF n] by simp_all
  have step: "\<forall>k. reached n k (Fin (grid b)) \<longrightarrow> reached n k (Fin (grid a))" if "a \<le> b" for a b
  proof -
    have "grid a * ?g \<le> grid b * ?g" using grid_mono [OF that] g(2) by (intro mult_right_mono) simp_all
    then have "rnd (grid a * ?g) \<le> rnd (grid b * ?g)" by (rule rnd_mono)
    then show ?thesis using f64_le_trans by (auto simp: reached_def g(1))
  qed
  show ?thesis unfolding targets_eq sorted_wrt_map
    by (simp, intro conjI step) simp_all
qed

text \<open>The rank a target asks for: the least cumulative count that reaches it.\<close>

definition rank :: "f64 \<Rightarrow> int \<Rightarrow> nat" where
  "rank q n = Suc (length (takeWhile (\<lambda>k. \<not> reached n k q) [1..n]))"

lemma rank_spec:
  assumes "0 < n" "n < 2 ^ 63" "q \<in> set targets" "0 \<le> k"
  shows "reached n k q \<longleftrightarrow> int (rank q n) \<le> k" and "rank q n \<le> nat n"
proof -
  let ?P = "\<lambda>k. \<not> reached n k q" and ?xs = "[1..n]"
  let ?l = "length (takeWhile ?P ?xs)"
  have "n \<in> set ?xs" "\<not> ?P n" using assms reached_total by auto
  then have l: "?l < length ?xs"
    by (metis length_takeWhile_le less_le set_takeWhileD takeWhile_eq_all_conv
        takeWhile_eq_take take_all_iff)
  then show "rank q n \<le> nat n" by (simp add: rank_def)
  have at: "i < length ?xs \<Longrightarrow> ?xs ! i = 1 + int i" for i by (simp add: nth_upto)
  have up: "reached n (1 + int ?l) q" using nth_length_takeWhile [OF l] at [OF l] by simp
  have down: "\<not> reached n (int i) q" if "i \<le> ?l" for i
  proof (cases i)
    case 0
    then show ?thesis using not_reached_0 [OF assms(1-3)] by simp
  next
    case (Suc m)
    then have "m < ?l" using that by simp
    then have "takeWhile ?P ?xs ! m \<in> set (takeWhile ?P ?xs)" by (rule nth_mem)
    moreover have "takeWhile ?P ?xs ! m = int i"
      using at [of m] l \<open>m < ?l\<close> Suc by (simp add: takeWhile_nth)
    ultimately show ?thesis using set_takeWhileD [of "int i" ?P ?xs] by simp
  qed
  show "reached n k q \<longleftrightarrow> int (rank q n) \<le> k"
  proof
    assume "reached n k q"
    then have "\<not> nat k \<le> ?l" using down [of "nat k"] assms(4) by auto
    then show "int (rank q n) \<le> k" by (simp add: rank_def)
  next
    assume "int (rank q n) \<le> k"
    then show "reached n k q" using reached_mono [OF up] by (simp add: rank_def)
  qed
qed

subsection \<open>The percentiles of a sample\<close>

lemma first_slot:
  assumes rel: "hist_rel h xs" and xs: "xs \<noteq> []" "int (length xs) \<le> 2 ^ 62" and q: "q \<in> set targets"
  defines "n \<equiv> int (length xs)"
  shows "first_reaching (\<lambda>k. reached n k q) 0 0 (counts h) =
    slot (sort (map clamp xs) ! (rank q n - 1))"
proof -
  let ?ys = "map (slot \<circ> clamp) xs" and ?P = "\<lambda>k. reached n k q"
  let ?zs = "sort (map clamp xs)" and ?j = "first_reaching ?P 0 0 (counts h)"
  have n: "0 < n" "n < 2 ^ 63" using xs by (simp_all add: n_def)
  have cs: "counts h = map (\<lambda>i. int (count_list ?ys i)) [0..<33792]" using rel by (simp add: hist_rel_def)
  have pre: "sum_list (take m (counts h)) = int (length (filter (\<lambda>y. y < m) ?ys))" if "m \<le> 33792" for m
    using sum_count_list [of ?ys m] that by (simp add: cs take_map)
  have all: "filter (\<lambda>y. y < 33792) ?ys = ?ys" using slot_bound by (simp add: filter_id_conv)
  then have total: "sum_list (counts h) = n" using pre [of 33792] by (simp add: cs n_def)
  have "?j < 33792 \<and> ?P (sum_list (take (?j + 1) (counts h))) \<and> \<not> ?P (sum_list (take ?j (counts h)))"
    using first_reaching_spec [of ?P 0 "counts h" 0] total reached_total [OF n q] not_reached_0 [OF n q]
    by (simp add: cs)
  then have j: "rank q n \<le> length (filter (\<lambda>y. y < ?j + 1) ?ys)" "\<not> rank q n \<le> length (filter (\<lambda>y. y < ?j) ?ys)"
    using pre [of "?j + 1"] pre [of ?j] rank_spec(1) [OF n q] by auto
  have sz: "sort ?ys = map slot ?zs"
  proof (rule properties_for_sort)
    show "sorted (map slot ?zs)"
      by (rule sorted_map_mono) (auto simp: mono_on_def clamp_range intro: slot_mono)
  qed (simp add: image_mset.compositionality)
  have len: "1 \<le> rank q n" "rank q n \<le> length (sort ?ys)"
    using rank_spec(2) [OF n q, of 0] by (simp_all add: rank_def n_def)
  have flt: "length (filter (\<lambda>y. y < m) ?ys) = length (filter (\<lambda>y. y < m) (sort ?ys))" for m
    by (metis filter_sort length_sort)
  have "sort ?ys ! (rank q n - 1) < ?j + 1" "\<not> sort ?ys ! (rank q n - 1) < ?j"
    using j len sorted_nth_less [of "sort ?ys" "rank q n"] by (simp_all only: flt sorted_sort simp_thms)
  then have "sort ?ys ! (rank q n - 1) = ?j" by simp
  then show ?thesis using len by (simp add: sz)
qed

lemma percentiles_record_all:
  assumes "xs \<noteq> []" "int (length xs) \<le> 2 ^ 62"
  shows "map (\<lambda>f. f (snapshot_of (record_all xs))) [snap_P50, snap_P90, snap_P95, snap_P99] =
    map (\<lambda>q. bucket_top (sort (map clamp xs) ! (rank q (int (length xs)) - 1))) targets"
proof -
  let ?h = "record_all xs" and ?n = "int (length xs)"
  have rel: "hist_rel ?h xs" using assms(2) by (rule record_all_rel)
  have n: "0 < ?n" "?n < 2 ^ 63" using assms by simp_all
  have cs: "list_all (\<lambda>c. 0 \<le> c) (counts ?h)" "sum_list (counts ?h) = ?n"
    using rel sum_count_list [of "map (slot \<circ> clamp) xs" 33792] slot_bound
    by (auto simp: hist_rel_def list_all_iff filter_id_conv)
  have "scan ?h ?n targets (int 0) 0 (counts ?h) =
      map (\<lambda>q. highest_equivalent ?h (int (first_reaching (\<lambda>k. reached ?n k q) 0 0 (counts ?h)))) targets"
    using n cs reached_order [OF n] reached_total [OF n] not_reached_0 [OF n] by (intro scan_eq) auto
  also have "\<dots> = map (\<lambda>q. bucket_top (sort (map clamp xs) ! (rank q ?n - 1))) targets"
  proof (rule map_cong [OF refl])
    fix q assume q: "q \<in> set targets"
    have "sort (map clamp xs) ! (rank q ?n - 1) \<in> set (map clamp xs)"
      using rank_spec(2) [OF n q, of 0] nth_mem [of "rank q ?n - 1" "sort (map clamp xs)"] assms(1)
      by (simp add: rank_def)
    then have "0 \<le> sort (map clamp xs) ! (rank q ?n - 1)" using clamp_range(1) by auto
    then show "highest_equivalent ?h (int (first_reaching (\<lambda>k. reached ?n k q) 0 0 (counts ?h))) =
        bucket_top (sort (map clamp xs) ! (rank q ?n - 1))"
      using first_slot [OF rel assms q] rel by (simp add: highest_slot hist_rel_def)
  qed
  finally show ?thesis using n rel
    by (simp add: snapshot_of_def Let_def hist_rel_def targets_def nth_append)
qed

text \<open>One sample of 2048 ns: its bucket holds 2048 and 2049.\<close>

lemma bucket_of_2048: "bucket_of 2048 = 1"
proof -
  have "bitlen 2048 = 12" by code_simp
  then show ?thesis by (simp add: bucket_of_def)
qed

lemma rank_one: "q \<in> set targets \<Longrightarrow> rank q 1 = 1"
  using rank_spec(2) [of 1 q 0] by (simp add: rank_def)

lemma single_percentiles:
  "map (\<lambda>f. f (snapshot_of (record_all [2048]))) [snap_P50, snap_P90, snap_P95, snap_P99] =
     [2049, 2049, 2049, 2049]"
  using percentiles_record_all [of "[2048]"]
  by (simp add: rank_one targets_def [symmetric])
    (simp add: targets_def clamp_def max_trackable_def hour_def bucket_top_def bucket_low_def
      bucket_of_2048 rank_one)

subsection \<open>Properties\<close>

text \<open>C32: the percentiles are exact up to the width of a bucket.  After recording any non-empty
  sequence of latencies (fewer than \<open>2 ^ 62\<close>), each reported percentile is the largest value of the
  bucket that holds the sample of the asked rank, in the sorted sequence of the samples (clamped to
  0 and one hour); the rank is the least count whose float64 reaches quantile times total.\<close>

theorem percentiles_exact:
  assumes "xs \<noteq> []" "int (length xs) \<le> 2 ^ 62"
  shows "map (\<lambda>f. f (snapshot_of (record_all xs))) [snap_P50, snap_P90, snap_P95, snap_P99] =
    map (\<lambda>q. bucket_top (sort (map clamp xs) ! (rank q (int (length xs)) - 1))) targets"
  using assms by (rule percentiles_record_all)

theorem percentiles_exact_witness:
  "map (\<lambda>f. f (snapshot_of (record_all [2048]))) [snap_P50, snap_P90, snap_P95, snap_P99] =
     [2049, 2049, 2049, 2049]"
  using percentiles_exact [of "[2048]"]
  by (simp add: rank_one targets_def [symmetric])
    (simp add: targets_def clamp_def max_trackable_def hour_def bucket_top_def bucket_low_def
      bucket_of_2048 rank_one)

text \<open>C34: the bucket layout.  Every value from zero to one hour has its own slot among the 33792
  counters, slots grow with the values, and the least and the greatest value of a slot, as
  \<^verbatim>\<open>valueAt\<close> and \<^verbatim>\<open>highestEquivalent\<close> compute them, enclose the value
  with a relative width of at most 1/1024.\<close>

theorem bucket_layout:
  assumes "0 \<le> v" "v \<le> w" "w \<le> max_trackable"
  shows "0 \<le> counts_index new_histogram v \<and>
    counts_index new_histogram v \<le> counts_index new_histogram w \<and>
    counts_index new_histogram w < int (length (counts new_histogram)) \<and>
    value_at new_histogram (counts_index new_histogram v) \<le> v \<and>
    v \<le> highest_equivalent new_histogram (counts_index new_histogram v) \<and>
    1024 * (highest_equivalent new_histogram (counts_index new_histogram v)
      - value_at new_histogram (counts_index new_histogram v)) \<le> v"
proof -
  let ?b = "bucket_of v"
  have split: "v div 2 ^ ?b * 2 ^ ?b + v mod 2 ^ ?b = v" by (rule div_mult_mod_eq)
  have m: "0 \<le> v mod 2 ^ ?b" "v mod 2 ^ ?b < 2 ^ ?b" by simp_all
  have "1024 * (2 ^ ?b - 1) \<le> v"
  proof (cases ?b)
    case (Suc k)
    then have "1024 * 2 ^ ?b \<le> v div 2 ^ ?b * 2 ^ ?b"
      using sub_bucket_range(2) [OF assms(1)] by (intro mult_right_mono) simp_all
    moreover have "v div 2 ^ ?b * 2 ^ ?b \<le> v" by (simp flip: minus_mod_eq_div_mult)
    ultimately have "1024 * 2 ^ ?b \<le> v" by (rule order_trans)
    then show ?thesis by simp
  qed (use assms in simp)
  moreover have "0 \<le> counts_index new_histogram v" "counts_index new_histogram w < 33792"
    using index_bounds [OF new_histogram_standard] assms by auto
  moreover note counts_index_mono [OF new_histogram_standard assms(1,2)]
  moreover have "v div 2 ^ ?b * 2 ^ ?b \<le> v" "v \<le> v div 2 ^ ?b * 2 ^ ?b + 2 ^ ?b - 1"
    using split m by linarith+
  ultimately show ?thesis
    unfolding value_at_index [OF new_histogram_standard assms(1)] by simp
qed

theorem bucket_layout_witness:
  "1024 * (highest_equivalent new_histogram (counts_index new_histogram 2048)
      - value_at new_histogram (counts_index new_histogram 2048)) \<le> 2048"
  using bucket_layout [of 2048 2048] by (simp add: max_trackable_def hour_def)

text \<open>The summary counters are exact: count, overflow count, minimum and maximum of the clamped
  samples, and the mean as the truncated quotient of the (64-bit) sum and the count.\<close>

theorem snapshot_counters_exact:
  assumes "xs \<noteq> []" "int (length xs) \<le> 2 ^ 62"
  shows "snap_Count (snapshot_of (record_all xs)) = int (length xs) \<and>
    snap_Overflows (snapshot_of (record_all xs)) = int (length (filter (\<lambda>v. max_trackable < v) xs)) \<and>
    snap_Min (snapshot_of (record_all xs)) = Min (set (map clamp xs)) \<and>
    snap_Max (snapshot_of (record_all xs)) = Max (set (map clamp xs)) \<and>
    snap_Mean (snapshot_of (record_all xs)) = s64 (sum_list (map clamp xs)) sdiv int (length xs)"
proof -
  let ?ys = "map clamp xs"
  have rel: "hist_rel (record_all xs) xs" using assms(2) by (rule record_all_rel)
  have b: "y \<in> set ?ys \<Longrightarrow> 0 \<le> y \<and> y \<le> 2 ^ 63 - 1" for y
  proof -
    have "max_trackable \<le> 2 ^ 63 - 1" by (simp add: max_trackable_def hour_def)
    then show "y \<in> set ?ys \<Longrightarrow> 0 \<le> y \<and> y \<le> 2 ^ 63 - 1"
      using clamp_range by (auto intro: order_trans)
  qed
  have ne: "set ?ys \<noteq> {}" using assms(1) by simp
  have "fold min ?ys (2 ^ 63 - 1) = Min (insert (2 ^ 63 - 1) (set ?ys))"
    using Min.set_eq_fold [of "2 ^ 63 - 1" ?ys] by (simp only: list.set)
  also have "\<dots> = Min (set ?ys)" using b [OF Min_in [OF _ ne]] ne by (simp del: set_map)
  finally have mn: "fold min ?ys (2 ^ 63 - 1) = Min (set ?ys)" .
  have "fold max ?ys 0 = Max (insert 0 (set ?ys))" using Max.set_eq_fold [of 0 ?ys] by (simp only: list.set)
  also have "\<dots> = Max (set ?ys)" using b [OF Max_in [OF _ ne]] ne by (simp del: set_map)
  finally have mx: "fold max ?ys 0 = Max (set ?ys)" .
  show ?thesis using rel assms(1) mn mx
    by (simp add: snapshot_of_def Let_def hist_rel_def)
qed

theorem snapshot_counters_exact_witness:
  "snap_Max (snapshot_of (record_all [2048, -5])) = 2048 \<and> snap_Min (snapshot_of (record_all [2048, -5])) = 0"
  using snapshot_counters_exact [of "[2048, -5]"]
  by (simp add: clamp_def max_trackable_def hour_def)

text \<open>A reported percentile can exceed the reported maximum: for a single sample of 2048 ns the
  median is given as 2049 ns beside a maximum of 2048 ns.\<close>

theorem percentile_above_max:
  "snap_Max (snapshot_of (record_all [2048])) = 2048 \<and> snap_P50 (snapshot_of (record_all [2048])) = 2049"
proof -
  have rel: "hist_rel (record_all [2048]) [2048]" by (rule record_all_rel) simp
  then show ?thesis using single_percentiles
    by (simp add: snapshot_of_def Let_def hist_rel_def clamp_def max_trackable_def hour_def)
qed

end
