(* ===== verification/Collector.thy ===== *)
theory Collector
  imports Histogram Errclass
begin

text \<open>
  Aggregation of attempts, \<^verbatim>\<open>internal/metrics/collector.go\<close>.  A \<^verbatim>\<open>*StageStats\<close> is
  shared between the registry of the collector and its callers; it is modelled as an index into
  the list of registered accumulators, so an update is seen by every holder.  Every counter is
  an int64 that wraps.  The operations are single steps: their atomic adds commute.
\<close>

record attempt =
  a_stage :: string
  a_sequence :: int
  a_scheduledAt :: time
  a_startedAt :: time
  a_completedAt :: time
  a_scheduleLag :: duration
  a_total :: duration
  a_network :: duration
  a_verify :: duration
  a_httpStatus :: int
  a_err :: "class_error option"
  a_clockSkew :: duration
  a_warnings :: "string list"

definition succeeded :: "attempt \<Rightarrow> bool" where
  "succeeded a \<longleftrightarrow> a_err a = None"

definition attempt_error_key :: "attempt \<Rightarrow> string" where
  "attempt_error_key a = (case a_err a of None \<Rightarrow> class_string OK | Some e \<Rightarrow> error_key e)"

definition timed_out :: "attempt \<Rightarrow> bool" where
  "timed_out a = (case a_err a of None \<Rightarrow> False | Some e \<Rightarrow> is_timeout (e_class e))"

record second_row =
  row_second :: int
  row_sent :: int
  row_completed :: int
  row_success :: int
  row_failure :: int
  row_timeouts :: int
  row_meanMS :: f64

record stage_stats =
  ss_name :: string
  ss_targetTPS :: f64
  ss_planned :: int
  ss_startedAt :: time
  ss_endedAt :: time
  ss_sent :: int
  ss_completed :: int
  ss_firstSentAt :: int
  ss_lastSentAt :: int
  ss_success :: int
  ss_failure :: int
  ss_timeouts :: int
  ss_saturated :: int
  ss_total :: histogram
  ss_network :: histogram
  ss_verify :: histogram
  ss_lag :: histogram
  ss_errors :: "string \<rightharpoonup> int"
  ss_warnings :: "string \<rightharpoonup> int"

definition new_stage_stats :: "string \<Rightarrow> f64 \<Rightarrow> int \<Rightarrow> stage_stats" where
  "new_stage_stats name targetTPS pl = \<lparr>ss_name = name, ss_targetTPS = targetTPS, ss_planned = pl,
     ss_startedAt = 0, ss_endedAt = 0, ss_sent = 0, ss_completed = 0, ss_firstSentAt = 0,
     ss_lastSentAt = 0, ss_success = 0, ss_failure = 0, ss_timeouts = 0, ss_saturated = 0,
     ss_total = new_histogram, ss_network = new_histogram, ss_verify = new_histogram,
     ss_lag = new_histogram, ss_errors = Map.empty, ss_warnings = Map.empty\<rparr>"

definition inc :: "int \<Rightarrow> int" where
  "inc n = s64 (n + 1)"

text \<open>\<^verbatim>\<open>m[k]++\<close>\<close>

definition bump :: "string \<Rightarrow> (string \<rightharpoonup> int) \<Rightarrow> (string \<rightharpoonup> int)" where
  "bump k m = m(k \<mapsto> inc (case m k of None \<Rightarrow> 0 | Some n \<Rightarrow> n))"

definition of_unix_nano :: "int \<Rightarrow> time" where
  "of_unix_nano n = unix_epoch + n"

definition send_window :: "stage_stats \<Rightarrow> time \<times> time \<times> int" where
  "send_window s =
     (if ss_firstSentAt s = 0 then (0, 0, 0)
      else (of_unix_nano (ss_firstSentAt s), of_unix_nano (ss_lastSentAt s), ss_sent s))"

definition achieved_tps :: "stage_stats \<Rightarrow> f64" where
  "achieved_tps s =
     (case send_window s of (firstAt, lastAt, n) \<Rightarrow>
        if n < 2 then Fin 0
        else (let spn = duration_seconds (time_sub lastAt firstAt) in
              if spn \<le> Fin 0 then Fin 0 else fdiv (f64_of_int (s64 (n - 1))) spn))"

definition mark_sent :: "time \<Rightarrow> stage_stats \<Rightarrow> stage_stats" where
  "mark_sent ts s =
     (let ns = unix_nano ts;
          s1 = (if ss_firstSentAt s = 0 then s\<lparr>ss_firstSentAt := ns\<rparr> else s)
      in if ns \<le> ss_lastSentAt s1 then s1 else s1\<lparr>ss_lastSentAt := ns\<rparr>)"

definition stage_outcome :: "string \<Rightarrow> string list \<Rightarrow> stage_stats \<Rightarrow> stage_stats" where
  "stage_outcome key warnings s =
     s\<lparr>ss_errors := bump key (ss_errors s), ss_warnings := fold bump warnings (ss_warnings s)\<rparr>"

record second_bucket =
  b_sent :: int
  b_completed :: int
  b_success :: int
  b_failure :: int
  b_timeouts :: int
  b_latencySum :: int

definition empty_bucket :: second_bucket where
  "empty_bucket = \<lparr>b_sent = 0, b_completed = 0, b_success = 0, b_failure = 0, b_timeouts = 0,
     b_latencySum = 0\<rparr>"

record collector =
  c_startedAt :: time
  c_stages :: "stage_stats list"
  c_byName :: "string \<rightharpoonup> nat"
  c_seconds :: "second_bucket list"
  c_overall :: stage_stats

definition new_collector :: "time \<Rightarrow> collector" where
  "new_collector startedAt = \<lparr>c_startedAt = startedAt, c_stages = [], c_byName = Map.empty,
     c_seconds = [], c_overall = new_stage_stats ''overall'' (Fin 0) 0\<rparr>"

text \<open>\<^verbatim>\<open>Stage\<close> returns the reference of the accumulator.\<close>

definition register_stage :: "string \<Rightarrow> f64 \<Rightarrow> int \<Rightarrow> collector \<Rightarrow> nat \<times> collector" where
  "register_stage name targetTPS pl c =
     (case c_byName c name of
        Some r \<Rightarrow> (r, c)
      | None \<Rightarrow>
          (let r = length (c_stages c)
           in (r, c\<lparr>c_byName := (c_byName c)(name \<mapsto> r),
                    c_stages := c_stages c @ [new_stage_stats name targetTPS pl]\<rparr>)))"

text \<open>\<^verbatim>\<open>second\<close>: the index of the bucket, the series extended up to it.\<close>

definition second_of :: "time \<Rightarrow> collector \<Rightarrow> nat \<times> collector" where
  "second_of ts c =
     (let idx0 = time_sub ts (c_startedAt c) sdiv second;
          idx = nat (if idx0 < 0 then 0 else idx0)
      in (idx, c\<lparr>c_seconds := c_seconds c @ replicate (idx + 1 - length (c_seconds c)) empty_bucket\<rparr>))"

definition update_stage :: "nat \<Rightarrow> (stage_stats \<Rightarrow> stage_stats) \<Rightarrow> collector \<Rightarrow> collector" where
  "update_stage r f c = c\<lparr>c_stages := (c_stages c)[r := f (c_stages c ! r)]\<rparr>"

definition update_overall :: "(stage_stats \<Rightarrow> stage_stats) \<Rightarrow> collector \<Rightarrow> collector" where
  "update_overall f c = c\<lparr>c_overall := f (c_overall c)\<rparr>"

definition update_second :: "time \<Rightarrow> (second_bucket \<Rightarrow> second_bucket) \<Rightarrow> collector \<Rightarrow> collector" where
  "update_second ts f c =
     (let (i, c1) = second_of ts c in c1\<lparr>c_seconds := (c_seconds c1)[i := f (c_seconds c1 ! i)]\<rparr>)"

definition count_sent :: "time \<Rightarrow> stage_stats \<Rightarrow> stage_stats" where
  "count_sent ts s = mark_sent ts (s\<lparr>ss_sent := inc (ss_sent s)\<rparr>)"

definition record_sent :: "nat \<Rightarrow> time \<Rightarrow> collector \<Rightarrow> collector" where
  "record_sent r ts c =
     update_second ts (\<lambda>b. b\<lparr>b_sent := inc (b_sent b)\<rparr>)
       (update_overall (count_sent ts) (update_stage r (count_sent ts) c))"

definition count_saturation :: "stage_stats \<Rightarrow> stage_stats" where
  "count_saturation s = s\<lparr>ss_saturated := inc (ss_saturated s)\<rparr>"

definition record_saturation :: "nat \<Rightarrow> collector \<Rightarrow> collector" where
  "record_saturation r c = update_overall count_saturation (update_stage r count_saturation c)"

text \<open>The body of the loop in \<^verbatim>\<open>Record\<close>, and its bucket of the time series.\<close>

definition count_attempt :: "attempt \<Rightarrow> stage_stats \<Rightarrow> stage_stats" where
  "count_attempt a s0 =
     (let s = stage_outcome (attempt_error_key a) (a_warnings a)
            (s0\<lparr>ss_completed := inc (ss_completed s0),
                ss_total := record_value (a_total a) (ss_total s0),
                ss_network := record_value (a_network a) (ss_network s0),
                ss_verify := record_value (a_verify a) (ss_verify s0),
                ss_lag := record_value (a_scheduleLag a) (ss_lag s0)\<rparr>)
      in if succeeded a then s\<lparr>ss_success := inc (ss_success s)\<rparr>
         else (let s1 = s\<lparr>ss_failure := inc (ss_failure s)\<rparr>
               in if timed_out a then s1\<lparr>ss_timeouts := inc (ss_timeouts s1)\<rparr> else s1))"

definition bucket_attempt :: "attempt \<Rightarrow> second_bucket \<Rightarrow> second_bucket" where
  "bucket_attempt a b0 =
     (let b = b0\<lparr>b_completed := inc (b_completed b0),
                 b_latencySum := s64 (b_latencySum b0 + a_total a)\<rparr>
      in if succeeded a then b\<lparr>b_success := inc (b_success b)\<rparr>
         else (let b1 = b\<lparr>b_failure := inc (b_failure b)\<rparr>
               in if timed_out a then b1\<lparr>b_timeouts := inc (b_timeouts b1)\<rparr> else b1))"

definition record_attempt :: "nat \<Rightarrow> attempt \<Rightarrow> collector \<Rightarrow> collector" where
  "record_attempt r a c =
     update_second (a_completedAt a) (bucket_attempt a)
       (update_overall (count_attempt a) (update_stage r (count_attempt a) c))"

definition time_series_row :: "nat \<Rightarrow> second_bucket \<Rightarrow> second_row" where
  "time_series_row i b = \<lparr>row_second = int i, row_sent = b_sent b, row_completed = b_completed b,
     row_success = b_success b, row_failure = b_failure b, row_timeouts = b_timeouts b,
     row_meanMS = (if b_completed b > 0
       then fdiv (fdiv (f64_of_int (b_latencySum b)) (f64_of_int (b_completed b)))
              (f64_of_int millisecond)
       else Fin 0)\<rparr>"

definition time_series :: "collector \<Rightarrow> second_row list" where
  "time_series c = map (\<lambda>i. time_series_row i (c_seconds c ! i)) [0..<length (c_seconds c)]"

subsection \<open>The history a collector stands for\<close>

datatype coll_op =
    Register string f64 int | Sent nat time | Saturated nat | Recorded nat attempt

fun op_target :: "coll_op \<Rightarrow> nat option" where
  "op_target (Register _ _ _) = None"
| "op_target (Sent r _) = Some r"
| "op_target (Saturated r) = Some r"
| "op_target (Recorded r _) = Some r"

fun op_time :: "coll_op \<Rightarrow> time option" where
  "op_time (Sent _ ts) = Some ts"
| "op_time (Recorded _ a) = Some (a_completedAt a)"
| "op_time _ = None"

fun apply_op :: "coll_op \<Rightarrow> collector \<Rightarrow> collector" where
  "apply_op (Register n t p) c = snd (register_stage n t p c)"
| "apply_op (Sent r ts) c = record_sent r ts c"
| "apply_op (Saturated r) c = record_saturation r c"
| "apply_op (Recorded r a) c = record_attempt r a c"

text \<open>Callers use references they got from \<^verbatim>\<open>Stage\<close>.\<close>

inductive collected :: "time \<Rightarrow> coll_op list \<Rightarrow> collector \<Rightarrow> bool" for t where
  start: "collected t [] (new_collector t)"
| step: "collected t h c \<Longrightarrow> (case op_target x of None \<Rightarrow> True | Some r \<Rightarrow> r < length (c_stages c)) \<Longrightarrow>
    collected t (h @ [x]) (apply_op x c)"

fun attempts :: "coll_op list \<Rightarrow> attempt list" where
  "attempts [] = []"
| "attempts (Recorded r a # h) = a # attempts h"
| "attempts (_ # h) = attempts h"

definition is_sent :: "coll_op \<Rightarrow> bool" where
  "is_sent x = (case x of Sent _ _ \<Rightarrow> True | _ \<Rightarrow> False)"

definition is_saturated :: "coll_op \<Rightarrow> bool" where
  "is_saturated x = (case x of Saturated _ \<Rightarrow> True | _ \<Rightarrow> False)"

definition wrapped_count :: "('a \<Rightarrow> bool) \<Rightarrow> 'a list \<Rightarrow> int" where
  "wrapped_count P xs = s64 (int (length (filter P xs)))"

definition tally :: "string list \<Rightarrow> (string \<rightharpoonup> int)" where
  "tally ks k = (if k \<in> set ks then Some (s64 (int (count_list ks k))) else None)"

definition stage_rel :: "stage_stats \<Rightarrow> coll_op list \<Rightarrow> bool" where
  "stage_rel s h \<longleftrightarrow>
     ss_sent s = wrapped_count is_sent h \<and> ss_saturated s = wrapped_count is_saturated h
     \<and> ss_completed s = wrapped_count (\<lambda>_. True) (attempts h)
     \<and> ss_success s = wrapped_count succeeded (attempts h)
     \<and> ss_failure s = wrapped_count (\<lambda>a. \<not> succeeded a) (attempts h)
     \<and> ss_timeouts s = wrapped_count timed_out (attempts h)
     \<and> ss_errors s = tally (map attempt_error_key (attempts h))
     \<and> ss_warnings s = tally (concat (map a_warnings (attempts h)))
     \<and> ss_total s = record_all (map a_total (attempts h))
     \<and> ss_network s = record_all (map a_network (attempts h))
     \<and> ss_verify s = record_all (map a_verify (attempts h))
     \<and> ss_lag s = record_all (map a_scheduleLag (attempts h))"

definition bucket_rel :: "second_bucket \<Rightarrow> coll_op list \<Rightarrow> bool" where
  "bucket_rel b h \<longleftrightarrow>
     b_sent b = wrapped_count is_sent h
     \<and> b_completed b = wrapped_count (\<lambda>_. True) (attempts h)
     \<and> b_success b = wrapped_count succeeded (attempts h)
     \<and> b_failure b = wrapped_count (\<lambda>a. \<not> succeeded a) (attempts h)
     \<and> b_timeouts b = wrapped_count timed_out (attempts h)
     \<and> b_latencySum b = s64 (sum_list (map a_total (attempts h)))"

definition second_index :: "time \<Rightarrow> time \<Rightarrow> nat" where
  "second_index t ts = nat (time_sub ts t sdiv second)"

definition bucket_at :: "collector \<Rightarrow> nat \<Rightarrow> second_bucket" where
  "bucket_at c i = (if i < length (c_seconds c) then c_seconds c ! i else empty_bucket)"

definition coll_rel :: "time \<Rightarrow> collector \<Rightarrow> coll_op list \<Rightarrow> bool" where
  "coll_rel t c h \<longleftrightarrow> c_startedAt c = t
     \<and> (\<forall>r < length (c_stages c). stage_rel (c_stages c ! r) (filter (\<lambda>x. op_target x = Some r) h))
     \<and> (\<forall>x \<in> set h. case op_target x of None \<Rightarrow> True | Some r \<Rightarrow> r < length (c_stages c))
     \<and> stage_rel (c_overall c) h
     \<and> (\<forall>i. bucket_rel (bucket_at c i) (filter (\<lambda>x. map_option (second_index t) (op_time x) = Some i) h))"

subsection \<open>Each operation extends the history by itself\<close>

lemma attempts_append [simp]: "attempts (h @ g) = attempts h @ attempts g"
  by (induction h rule: attempts.induct) auto

lemma wrapped_count_simps [simp]:
  "wrapped_count P [] = 0"
  "wrapped_count P (xs @ [x]) = (if P x then inc (wrapped_count P xs) else wrapped_count P xs)"
  by (simp_all add: wrapped_count_def inc_def add.commute)

lemma tally_Nil [simp]: "tally [] = Map.empty"
  by (auto simp: tally_def)

lemma tally_snoc [simp]: "tally (ks @ [k]) = bump k (tally ks)"
  by (auto simp: tally_def bump_def inc_def fun_eq_iff add.commute)

lemma tally_append: "tally (ks @ ls) = fold bump ls (tally ks)"
proof (induction ls rule: rev_induct)
  case (snoc l ls)
  then show ?case using tally_snoc [of "ks @ ls" l] by simp
qed simp

lemma record_all_snoc [simp]: "record_all (xs @ [x]) = record_value x (record_all xs)"
  by (simp add: record_all_def)

lemma record_all_Nil [simp]: "record_all [] = new_histogram"
  by (simp add: record_all_def)

lemma timed_out_failed: "timed_out a \<Longrightarrow> \<not> succeeded a"
  by (auto simp: timed_out_def succeeded_def split: option.splits)

lemma stage_rel_new: "stage_rel (new_stage_stats n t p) []"
  by (simp add: stage_rel_def new_stage_stats_def)

lemma stage_rel_register: "stage_rel s (h @ [Register n t p]) = stage_rel s h"
  by (simp add: stage_rel_def is_sent_def is_saturated_def)

lemma mark_sent_sel [simp]:
  "ss_sent (mark_sent ts s) = ss_sent s" "ss_saturated (mark_sent ts s) = ss_saturated s"
  "ss_completed (mark_sent ts s) = ss_completed s" "ss_success (mark_sent ts s) = ss_success s"
  "ss_failure (mark_sent ts s) = ss_failure s" "ss_timeouts (mark_sent ts s) = ss_timeouts s"
  "ss_errors (mark_sent ts s) = ss_errors s" "ss_warnings (mark_sent ts s) = ss_warnings s"
  "ss_total (mark_sent ts s) = ss_total s" "ss_network (mark_sent ts s) = ss_network s"
  "ss_verify (mark_sent ts s) = ss_verify s" "ss_lag (mark_sent ts s) = ss_lag s"
  by (simp_all add: mark_sent_def Let_def)

lemma stage_rel_sent: "stage_rel s h \<Longrightarrow> stage_rel (count_sent ts s) (h @ [Sent r ts])"
  by (simp add: stage_rel_def count_sent_def is_sent_def is_saturated_def)

lemma stage_rel_saturated: "stage_rel s h \<Longrightarrow> stage_rel (count_saturation s) (h @ [Saturated r])"
  by (simp add: stage_rel_def count_saturation_def is_sent_def is_saturated_def)

lemma stage_rel_recorded: "stage_rel s h \<Longrightarrow> stage_rel (count_attempt a s) (h @ [Recorded r a])"
  using timed_out_failed [of a]
  by (auto simp: stage_rel_def count_attempt_def stage_outcome_def is_sent_def is_saturated_def
      Let_def tally_append)

lemma bucket_rel_sent: "bucket_rel b h \<Longrightarrow> bucket_rel (b\<lparr>b_sent := inc (b_sent b)\<rparr>) (h @ [Sent r ts])"
  by (simp add: bucket_rel_def is_sent_def)

lemma bucket_rel_recorded: "bucket_rel b h \<Longrightarrow> bucket_rel (bucket_attempt a b) (h @ [Recorded r a])"
  using timed_out_failed [of a]
  by (auto simp: bucket_rel_def bucket_attempt_def is_sent_def Let_def)

lemma bucket_rel_empty: "bucket_rel empty_bucket []"
  by (simp add: bucket_rel_def empty_bucket_def)

lemma second_of_index:
  "second_of ts c = (second_index (c_startedAt c) ts,
     c\<lparr>c_seconds := c_seconds c @
       replicate (second_index (c_startedAt c) ts + 1 - length (c_seconds c)) empty_bucket\<rparr>)"
  by (auto simp: second_of_def second_index_def Let_def)

lemma bucket_at_update:
  "bucket_at (update_second ts f c) i =
     (if i = second_index (c_startedAt c) ts then f (bucket_at c i) else bucket_at c i)"
  by (auto simp: update_second_def second_of_index bucket_at_def nth_append nth_list_update)

lemma update_sel [simp]:
  "c_startedAt (update_second ts f c) = c_startedAt c" "c_stages (update_second ts f c) = c_stages c"
  "c_overall (update_second ts f c) = c_overall c"
  "c_startedAt (update_stage r g c) = c_startedAt c" "c_overall (update_stage r g c) = c_overall c"
  "c_startedAt (update_overall g c) = c_startedAt c" "c_stages (update_overall g c) = c_stages c"
  "bucket_at (update_overall g c) i = bucket_at c i" "bucket_at (update_stage r g c) i = bucket_at c i"
  "c_overall (update_overall g c) = g (c_overall c)"
  "c_stages (update_stage r g c) = (c_stages c)[r := g (c_stages c ! r)]"
  by (simp_all add: update_second_def second_of_index update_stage_def update_overall_def bucket_at_def)

lemma stage_rels_update:
  assumes "\<forall>r < length ss. stage_rel (ss ! r) (filter (\<lambda>y. op_target y = Some r) h)"
    and "op_target x = Some r0"
    and "stage_rel (ss ! r0) (filter (\<lambda>y. op_target y = Some r0) h) \<Longrightarrow>
      stage_rel s' (filter (\<lambda>y. op_target y = Some r0) h @ [x])"
  shows "\<forall>r < length (ss[r0 := s']). stage_rel (ss[r0 := s'] ! r) (filter (\<lambda>y. op_target y = Some r) (h @ [x]))"
  using assms by (auto simp: nth_list_update)

lemma bucket_at_registered [simp]: "bucket_at (c\<lparr>c_byName := m, c_stages := ss\<rparr>) i = bucket_at c i"
  "bucket_at (c\<lparr>c_stages := ss, c_byName := m\<rparr>) i = bucket_at c i"
  by (simp_all add: bucket_at_def)

lemma apply_op_rel:
  assumes rel: "coll_rel t c h"
    and ok: "case op_target x of None \<Rightarrow> True | Some r \<Rightarrow> r < length (c_stages c)"
  shows "coll_rel t (apply_op x c) (h @ [x])"
proof (cases x)
  case (Register n tps p)
  have unused: "filter (\<lambda>y. op_target y = Some (length (c_stages c))) h = []"
    using rel by (fastforce simp: coll_rel_def filter_empty_conv split: option.splits)
  have "stage_rel (new_stage_stats n tps p) (filter (\<lambda>y. op_target y = Some (length (c_stages c))) h)"
    unfolding unused by (rule stage_rel_new)
  then show ?thesis using rel
    by (auto simp: Register coll_rel_def register_stage_def stage_rel_register Let_def
        nth_append less_Suc_eq split: option.splits)
next
  case (Sent r ts)
  then have "\<forall>q < length (c_stages (apply_op x c)).
      stage_rel (c_stages (apply_op x c) ! q) (filter (\<lambda>y. op_target y = Some q) (h @ [x]))"
    using rel stage_rels_update [of "c_stages c" h x r "count_sent ts (c_stages c ! r)"]
    by (simp add: coll_rel_def record_sent_def stage_rel_sent)
  then show ?thesis using rel ok
    by (auto simp: Sent coll_rel_def record_sent_def stage_rel_sent bucket_at_update bucket_rel_sent
        split: option.splits)
next
  case (Saturated r)
  then have "\<forall>q < length (c_stages (apply_op x c)).
      stage_rel (c_stages (apply_op x c) ! q) (filter (\<lambda>y. op_target y = Some q) (h @ [x]))"
    using rel stage_rels_update [of "c_stages c" h x r "count_saturation (c_stages c ! r)"]
    by (simp add: coll_rel_def record_saturation_def stage_rel_saturated)
  then show ?thesis using rel ok
    by (auto simp: Saturated coll_rel_def record_saturation_def stage_rel_saturated
        split: option.splits)
next
  case (Recorded r a)
  then have "\<forall>q < length (c_stages (apply_op x c)).
      stage_rel (c_stages (apply_op x c) ! q) (filter (\<lambda>y. op_target y = Some q) (h @ [x]))"
    using rel stage_rels_update [of "c_stages c" h x r "count_attempt a (c_stages c ! r)"]
    by (simp add: coll_rel_def record_attempt_def stage_rel_recorded)
  then show ?thesis using rel ok
    by (auto simp: Recorded coll_rel_def record_attempt_def stage_rel_recorded bucket_at_update
        bucket_rel_recorded split: option.splits)
qed

lemma collected_rel: "collected t h c \<Longrightarrow> coll_rel t c h"
proof (induction rule: collected.induct)
  case start
  then show ?case
    by (simp add: coll_rel_def new_collector_def stage_rel_new bucket_at_def bucket_rel_empty)
next
  case (step h c x)
  then show ?case by (intro apply_op_rel) auto
qed

subsection \<open>Properties\<close>

text \<open>C30: nothing is lost or counted twice.  After any sequence of registrations, arrivals,
  saturations and completed attempts, every counter, error and warning tally and latency histogram
  of every stage is the one of exactly the operations on that stage, those of the overall
  accumulator are the ones of all operations, and each second of the time series counts exactly the
  arrivals and completions that fall into it (before the start: into the first).\<close>

theorem collector_exact:
  assumes "collected t h c"
  shows "list_all2 stage_rel (c_stages c)
      (map (\<lambda>r. filter (\<lambda>x. op_target x = Some r) h) [0..<length (c_stages c)]) \<and>
    stage_rel (c_overall c) h \<and>
    (\<forall>i. bucket_rel (bucket_at c i) (filter (\<lambda>x. map_option (second_index t) (op_time x) = Some i) h))"
  using collected_rel [OF assms] by (simp add: coll_rel_def list_all2_conv_all_nth)

definition one_op_collector :: collector where
  "one_op_collector = apply_op (Sent 0 5) (apply_op (Register ''smoke'' (Fin 1) 3) (new_collector 0))"

lemma one_op_collected: "collected 0 [Register ''smoke'' (Fin 1) 3, Sent 0 5] one_op_collector"
proof -
  have "collected 0 [Register ''smoke'' (Fin 1) 3] (apply_op (Register ''smoke'' (Fin 1) 3) (new_collector 0))"
    using collected.step [OF collected.start, where x = "Register ''smoke'' (Fin 1) 3"] by simp
  from collected.step [OF this, where x = "Sent 0 5"] show ?thesis
    by (simp add: one_op_collector_def register_stage_def new_collector_def)
qed

theorem collector_exact_witness:
  "stage_rel (c_overall one_op_collector) [Register ''smoke'' (Fin 1) 3, Sent 0 5]"
  using collector_exact [OF one_op_collected] by simp

text \<open>The books balance: in every accumulator and in every second the completed attempts are
  the successes plus the failures (as 64-bit counters), the same number of latencies is in the
  histogram, and the outcome tallies are complete.\<close>

theorem collector_balance:
  assumes "collected t h c" and "s = c_overall c \<or> s \<in> set (c_stages c)"
  shows "ss_completed s = s64 (ss_success s + ss_failure s) \<and> h_total (ss_total s) = ss_completed s"
proof -
  obtain g where g: "stage_rel s g"
    using assms(2) collected_rel [OF assms(1)] by (auto simp: coll_rel_def in_set_conv_nth)
  have "length (filter succeeded xs) + length (filter (\<lambda>a. \<not> succeeded a) xs) = length xs" for xs
    by (rule sum_length_filter_compl)
  then have "int (length (filter succeeded xs)) + int (length (filter (\<lambda>a. \<not> succeeded a) xs)) =
      int (length xs)" for xs
    by (metis of_nat_add)
  moreover have "h_total (record_all xs) = s64 (int (length xs))" for xs
  proof (induction xs rule: rev_induct)
    case (snoc x xs)
    then show ?case by (simp add: record_value_clamp add.commute)
  qed simp
  ultimately show ?thesis using g
    by (simp add: stage_rel_def wrapped_count_def)
qed

theorem collector_balance_witness:
  "ss_completed (c_overall one_op_collector) =
     s64 (ss_success (c_overall one_op_collector) + ss_failure (c_overall one_op_collector))"
  using collector_balance [OF one_op_collected] by blast

end
