(* ===== verification/Asn1.thy ===== *)
theory Asn1
  imports Prelude
begin

text \<open>
  The part of Go's encoding/asn1 the program calls: \<^verbatim>\<open>Unmarshal\<close> into a raw value,
  an int, a bit string and an object identifier, with the errors of the package.  A parser
  consumes a prefix of its input and returns the rest.  The text of the error for a tag that does
  not match is shortened.  \<open>tlv\<close> is a reference encoder the round-trip lemmas use.
\<close>

datatype asn1_error = SyntaxError string | StructuralError string

fun asn1_error_text :: "asn1_error \<Rightarrow> string" where
  "asn1_error_text (SyntaxError m) = ''asn1: syntax error: '' @ m"
| "asn1_error_text (StructuralError m) = ''asn1: structure error: '' @ m"

record raw_value =
  rv_class :: int
  rv_tag :: int
  rv_compound :: bool
  rv_bytes :: bytes
  rv_full :: bytes

record tag_length =
  tl_class :: int
  tl_compound :: bool
  tl_tag :: int
  tl_length :: int

text \<open>Universal tags.\<close>

definition TagInteger :: int where "TagInteger = 2"
definition TagBitString :: int where "TagBitString = 3"
definition TagOctetString :: int where "TagOctetString = 4"
definition TagOID :: int where "TagOID = 6"
definition TagSequence :: int where "TagSequence = 16"
definition TagGeneralizedTime :: int where "TagGeneralizedTime = 24"

lemmas tag_defs = TagInteger_def TagBitString_def TagOctetString_def TagOID_def TagSequence_def
  TagGeneralizedTime_def

fun parse_base128 :: "nat \<Rightarrow> int \<Rightarrow> bytes \<Rightarrow> asn1_error + int \<times> bytes" where
  "parse_base128 shifted ret [] = Inl (SyntaxError ''truncated base 128 integer'')"
| "parse_base128 shifted ret (c # cs) =
     (if shifted = 5 then Inl (StructuralError ''base 128 integer too large'')
      else if shifted = 0 \<and> byte c = 128 then Inl (SyntaxError ''integer is not minimally encoded'')
      else (let ret' = ret * 128 + byte c mod 128 in
            if byte c < 128
            then (if ret' > 2147483647 then Inl (StructuralError ''base 128 integer too large'')
                  else Inr (ret', cs))
            else parse_base128 (shifted + 1) ret' cs))"

fun parse_length_bytes :: "nat \<Rightarrow> int \<Rightarrow> bytes \<Rightarrow> asn1_error + int \<times> bytes" where
  "parse_length_bytes 0 len cs = Inr (len, cs)"
| "parse_length_bytes (Suc n) len [] = Inl (SyntaxError ''truncated tag or length'')"
| "parse_length_bytes (Suc n) len (c # cs) =
     (if len \<ge> 8388608 then Inl (StructuralError ''length too large'')
      else (let len' = len * 256 + byte c in
            if len' = 0 then Inl (StructuralError ''superfluous leading zeros in length'')
            else parse_length_bytes n len' cs))"

definition parse_length :: "bytes \<Rightarrow> asn1_error + int \<times> bytes" where
  "parse_length cs =
     (case cs of
        [] \<Rightarrow> Inl (SyntaxError ''truncated tag or length'')
      | c # cs' \<Rightarrow>
         (if byte c < 128 then Inr (byte c, cs')
          else if byte c = 128 then Inl (SyntaxError ''indefinite length found (not DER)'')
          else (case parse_length_bytes (nat (byte c - 128)) 0 cs' of
             Inl e \<Rightarrow> Inl e
           | Inr (len, rest) \<Rightarrow>
               if len < 128 then Inl (StructuralError ''non-minimal length'') else Inr (len, rest))))"

definition parse_tag_and_length :: "bytes \<Rightarrow> asn1_error + tag_length \<times> bytes" where
  "parse_tag_and_length cs =
     (case cs of
        [] \<Rightarrow> Inl (SyntaxError ''sequence truncated'')
      | c # cs' \<Rightarrow>
         (case (if byte c mod 32 = 31
                then (case parse_base128 0 0 cs' of
                   Inl e \<Rightarrow> Inl e
                 | Inr (t, rest) \<Rightarrow> if t < 31 then Inl (SyntaxError ''non-minimal tag'') else Inr (t, rest))
                else Inr (byte c mod 32, cs')) of
            Inl e \<Rightarrow> Inl e
          | Inr (t, rest) \<Rightarrow>
             (case parse_length rest of
                Inl e \<Rightarrow> Inl e
              | Inr (len, body) \<Rightarrow>
                  Inr (\<lparr>tl_class = byte c div 64, tl_compound = (byte c div 32 mod 2 = 1), tl_tag = t,
                        tl_length = len\<rparr>, body))))"

text \<open>\<^verbatim>\<open>asn1.Unmarshal(der, &raw)\<close>\<close>

definition unmarshal_raw :: "bytes \<Rightarrow> asn1_error + raw_value \<times> bytes" where
  "unmarshal_raw cs =
     (case parse_tag_and_length cs of
        Inl e \<Rightarrow> Inl e
      | Inr (t, body) \<Rightarrow>
          (if tl_length t > int (length body) then Inl (SyntaxError ''data truncated'')
           else (let n = nat (tl_length t) in
             Inr (\<lparr>rv_class = tl_class t, rv_tag = tl_tag t, rv_compound = tl_compound t,
                    rv_bytes = take n body,
                    rv_full = take (length cs - length body + n) cs\<rparr>, drop n body))))"

text \<open>The contents of a primitive value of a given universal tag.\<close>

definition unmarshal_prim :: "int \<Rightarrow> bytes \<Rightarrow> asn1_error + bytes \<times> bytes" where
  "unmarshal_prim tag cs =
     (case parse_tag_and_length cs of
        Inl e \<Rightarrow> Inl e
      | Inr (t, body) \<Rightarrow>
          (if tl_class t \<noteq> 0 \<or> tl_tag t \<noteq> tag \<or> tl_compound t
           then Inl (StructuralError ''tags don't match'')
           else if tl_length t > int (length body) then Inl (SyntaxError ''data truncated'')
           else Inr (take (nat (tl_length t)) body, drop (nat (tl_length t)) body)))"

fun be_value :: "int \<Rightarrow> bytes \<Rightarrow> int" where
  "be_value acc [] = acc"
| "be_value acc (c # cs) = be_value (acc * 256 + byte c) cs"

definition parse_int64 :: "bytes \<Rightarrow> asn1_error + int" where
  "parse_int64 bs =
     (case bs of
        [] \<Rightarrow> Inl (StructuralError ''empty integer'')
      | b0 # rest \<Rightarrow>
         (if rest \<noteq> [] \<and> ((byte b0 = 0 \<and> byte (hd rest) < 128) \<or> (byte b0 = 255 \<and> byte (hd rest) \<ge> 128))
          then Inl (StructuralError ''integer not minimally-encoded'')
          else if length bs > 8 then Inl (StructuralError ''integer too large'')
          else (let v = be_value 0 bs in
                Inr (if byte b0 \<ge> 128 then v - 256 ^ length bs else v))))"

definition unmarshal_int :: "bytes \<Rightarrow> asn1_error + int \<times> bytes" where
  "unmarshal_int cs =
     (case unmarshal_prim TagInteger cs of
        Inl e \<Rightarrow> Inl e
      | Inr (bs, rest) \<Rightarrow> (case parse_int64 bs of Inl e \<Rightarrow> Inl e | Inr v \<Rightarrow> Inr (v, rest)))"

record bit_string =
  bs_bytes :: bytes
  bs_bitLength :: nat

definition parse_bit_string :: "bytes \<Rightarrow> asn1_error + bit_string" where
  "parse_bit_string bs =
     (case bs of
        [] \<Rightarrow> Inl (SyntaxError ''zero length BIT STRING'')
      | p # rest \<Rightarrow>
         (if byte p > 7 \<or> (rest = [] \<and> byte p > 0)
             \<or> (rest \<noteq> [] \<and> byte (last rest) mod 2 ^ nat (byte p) \<noteq> 0)
          then Inl (SyntaxError ''invalid padding bits in BIT STRING'')
          else Inr \<lparr>bs_bytes = rest, bs_bitLength = length rest * 8 - nat (byte p)\<rparr>))"

definition unmarshal_bit_string :: "bytes \<Rightarrow> asn1_error + bit_string" where
  "unmarshal_bit_string cs =
     (case unmarshal_prim TagBitString cs of
        Inl e \<Rightarrow> Inl e
      | Inr (bs, _) \<Rightarrow> parse_bit_string bs)"

text \<open>\<^verbatim>\<open>BitString.At\<close>\<close>

definition bit_at :: "bit_string \<Rightarrow> nat \<Rightarrow> bool" where
  "bit_at s i \<longleftrightarrow> i < bs_bitLength s \<and> odd (byte (bs_bytes s ! (i div 8)) div 2 ^ (7 - i mod 8))"

lemma parse_base128_consumes:
  "parse_base128 k r cs = Inr (v, rest) \<Longrightarrow> \<exists>pre. pre \<noteq> [] \<and> cs = pre @ rest"
proof (induction k r cs rule: parse_base128.induct)
  case (2 shifted ret c cs)
  show ?case
  proof (cases "byte c < 128")
    case True
    then show ?thesis using "2.prems" by (auto simp: Let_def split: if_splits)
  next
    case False
    then have "parse_base128 (shifted + 1) (ret * 128 + byte c mod 128) cs = Inr (v, rest)"
      using "2.prems" by (auto simp: Let_def split: if_splits)
    then have "\<exists>pre. pre \<noteq> [] \<and> cs = pre @ rest" using "2.IH" False "2.prems"
      by (auto simp: Let_def split: if_splits)
    then show ?thesis by (metis append_Cons list.distinct(1))
  qed
qed simp

function parse_oid_arcs :: "bytes \<Rightarrow> asn1_error + int list" where
  "parse_oid_arcs cs =
     (if cs = [] then Inr []
      else (case parse_base128 0 0 cs of
        Inl e \<Rightarrow> Inl e
      | Inr (v, rest) \<Rightarrow>
          (case parse_oid_arcs rest of Inl e \<Rightarrow> Inl e | Inr vs \<Rightarrow> Inr (v # vs))))"
  by pat_completeness auto
termination
  by (relation "measure length") (auto dest: parse_base128_consumes)

declare parse_oid_arcs.simps [simp del]

definition parse_object_identifier :: "bytes \<Rightarrow> asn1_error + int list" where
  "parse_object_identifier bs =
     (if bs = [] then Inl (SyntaxError ''zero length OBJECT IDENTIFIER'')
      else (case parse_oid_arcs bs of
         Inl e \<Rightarrow> Inl e
       | Inr [] \<Rightarrow> Inr []
       | Inr (v # vs) \<Rightarrow> Inr (if v < 80 then v div 40 # v mod 40 # vs else 2 # (v - 80) # vs)))"

definition unmarshal_oid :: "bytes \<Rightarrow> asn1_error + int list" where
  "unmarshal_oid cs =
     (case unmarshal_prim TagOID cs of
        Inl e \<Rightarrow> Inl e
      | Inr (bs, _) \<Rightarrow> parse_object_identifier bs)"

text \<open>\<^verbatim>\<open>ObjectIdentifier.String\<close>\<close>

definition oid_string :: "int list \<Rightarrow> string" where
  "oid_string oid = join ''.'' (map int_dec oid)"

subsection \<open>A parser consumes what it read\<close>

lemma parse_length_bytes_consumes:
  "parse_length_bytes n len cs = Inr (v, rest) \<Longrightarrow> \<exists>pre. cs = pre @ rest"
  by (induction n len cs rule: parse_length_bytes.induct)
    (auto simp: Let_def split: if_splits intro: Cons_eq_appendI)

lemma parse_length_consumes:
  "parse_length cs = Inr (len, rest) \<Longrightarrow> \<exists>pre. pre \<noteq> [] \<and> cs = pre @ rest"
  using parse_length_bytes_consumes
  by (fastforce simp: parse_length_def split: list.splits if_splits sum.splits)

lemma parse_tag_and_length_consumes:
  "parse_tag_and_length cs = Inr (t, rest) \<Longrightarrow> \<exists>pre. pre \<noteq> [] \<and> cs = pre @ rest"
proof -
  assume a: "parse_tag_and_length cs = Inr (t, rest)"
  then obtain c cs' where c: "cs = c # cs'" by (cases cs) (auto simp: parse_tag_and_length_def)
  have "\<exists>tg mid. (mid = cs' \<or> parse_base128 0 0 cs' = Inr (tg, mid)) \<and> parse_length mid = Inr (tl_length t, rest)"
    using a by (auto simp: c parse_tag_and_length_def split: if_splits sum.splits) blast+
  then obtain tg mid where m: "mid = cs' \<or> parse_base128 0 0 cs' = Inr (tg, mid)"
    and l: "parse_length mid = Inr (tl_length t, rest)" by blast
  obtain p q where "cs' = p @ mid" "mid = q @ rest"
    using m parse_base128_consumes parse_length_consumes [OF l] by (metis append_Nil)
  then show ?thesis using c by (metis append.assoc append_Cons list.distinct(1))
qed

text \<open>A raw value and what follows it make up the input.\<close>

lemma unmarshal_raw_split:
  assumes "unmarshal_raw cs = Inr (v, rest)"
  shows "cs = rv_full v @ rest" and "length rest < length cs"
proof -
  obtain t body where t: "parse_tag_and_length cs = Inr (t, body)"
    and v: "v = \<lparr>rv_class = tl_class t, rv_tag = tl_tag t, rv_compound = tl_compound t,
        rv_bytes = take (nat (tl_length t)) body,
        rv_full = take (length cs - length body + nat (tl_length t)) cs\<rparr>"
    and r: "rest = drop (nat (tl_length t)) body" and le: "tl_length t \<le> int (length body)"
    using assms by (auto simp: unmarshal_raw_def Let_def split: sum.splits if_splits)
  obtain pre where pre: "pre \<noteq> []" "cs = pre @ body"
    using parse_tag_and_length_consumes [OF t] by blast
  then show "cs = rv_full v @ rest" by (simp add: v r)
  have "0 < length pre" using pre(1) by simp
  then show "length rest < length cs" unfolding r pre(2) length_drop length_append by linarith
qed

subsection \<open>A reference encoder\<close>

definition enc_len :: "nat \<Rightarrow> bytes" where
  "enc_len n =
     (if n < 128 then [char_of n]
      else if n < 256 then [char_of (129 :: nat), char_of n]
      else if n < 65536 then [char_of (130 :: nat), char_of (n div 256), char_of (n mod 256)]
      else [char_of (131 :: nat), char_of (n div 65536), char_of (n div 256 mod 256), char_of (n mod 256)])"

text \<open>The identifier octet \<open>i\<close> with a tag number below 31.\<close>

definition tlv :: "nat \<Rightarrow> bytes \<Rightarrow> bytes" where
  "tlv i body = char_of i # enc_len (length body) @ body"

lemma be3: "(int (n div 65536) * 256 + int (n div 256 mod 256)) * 256 + int (n mod 256) = int n"
proof -
  have "n div 65536 = n div 256 div 256" by (simp add: div_mult2_eq)
  moreover have "int (n div 256 div 256) * 256 + int (n div 256 mod 256) = int (n div 256)"
    by (metis div_mult_mod_eq of_nat_add of_nat_mult of_nat_numeral)
  moreover have "int (n div 256) * 256 + int (n mod 256) = int n"
    by (metis div_mult_mod_eq of_nat_add of_nat_mult of_nat_numeral)
  ultimately show ?thesis by simp
qed

lemma be2: "int (n div 256) * 256 + int (n mod 256) = int n"
  by (metis div_mult_mod_eq of_nat_add of_nat_mult of_nat_numeral)

lemma parse_enc_len: "n < 16777216 \<Longrightarrow> parse_length (enc_len n @ rest) = Inr (int n, rest)"
proof -
  assume n: "n < 16777216"
  consider "n < 128" | "128 \<le> n" "n < 256" | "256 \<le> n" "n < 65536" | "65536 \<le> n" by linarith
  then show ?thesis
  proof cases
    case 3
    then have "n div 256 < 256" "0 < n div 256" by (simp_all add: div_less_iff_less_mult)
    then show ?thesis using 3 be2 [of n]
      by (simp add: enc_len_def parse_length_def Let_def numeral_2_eq_2)
  next
    case 4
    then have b: "n div 65536 < 256" "0 < n div 65536" using n by (simp_all add: div_less_iff_less_mult)
    have "int (n div 65536) * 256 + int (n div 256 mod 256) < 8388608" using b(1) by simp
    then show ?thesis using 4 b be3 [of n]
      by (simp add: enc_len_def parse_length_def Let_def numeral_3_eq_3)
  qed (simp_all add: enc_len_def parse_length_def Let_def)
qed

lemma parse_tlv_header:
  assumes "i < 256" "i mod 32 \<noteq> 31" "length body < 16777216"
  shows "parse_tag_and_length (tlv i body @ rest) =
    Inr (\<lparr>tl_class = int (i div 64), tl_compound = (i div 32 mod 2 = 1), tl_tag = int (i mod 32),
          tl_length = int (length body)\<rparr>, body @ rest)"
proof -
  have b: "byte (char_of i) = int i" using assms(1) by simp
  have m: "int i mod 32 = int (i mod 32)" "int i div 64 = int (i div 64)" by (simp_all add: zmod_int zdiv_int)
  have "int i mod 32 \<noteq> 31" using assms(2) unfolding m by linarith
  moreover have "int i div 32 mod 2 = int (i div 32 mod 2)" by (simp add: zmod_int zdiv_int)
  then have "(int i div 32 mod 2 = 1) = (i div 32 mod 2 = 1)" by linarith
  ultimately show ?thesis
    using parse_enc_len [OF assms(3), of "body @ rest"]
    unfolding tlv_def parse_tag_and_length_def append_Cons list.case b by (simp add: m)
qed

lemma unmarshal_raw_tlv:
  assumes "i < 256" "i mod 32 \<noteq> 31" "length body < 16777216"
  shows "unmarshal_raw (tlv i body @ rest) =
    Inr (\<lparr>rv_class = int (i div 64), rv_tag = int (i mod 32), rv_compound = (i div 32 mod 2 = 1),
          rv_bytes = body, rv_full = tlv i body\<rparr>, rest)"
proof -
  have "length (tlv i body @ rest) - length (body @ rest) + length body = length (tlv i body)"
    by (simp add: tlv_def)
  then show ?thesis using parse_tlv_header [OF assms, of rest]
    by (simp add: unmarshal_raw_def Let_def)
qed

lemma unmarshal_prim_tlv:
  assumes "t < 31" "length body < 16777216"
  shows "unmarshal_prim (int t) (tlv t body @ rest) = Inr (body, rest)"
  using parse_tlv_header [of t body rest] assms by (simp add: unmarshal_prim_def)

lemma unmarshal_int_small: "n < 128 \<Longrightarrow> unmarshal_int (tlv 2 [char_of n] @ rest) = Inr (int n, rest)"
  using unmarshal_prim_tlv [of 2 "[char_of n]" rest]
  by (simp add: unmarshal_int_def TagInteger_def parse_int64_def Let_def)

end
