(* ===== verification/Utf8.thy ===== *)
theory Utf8
  imports Prelude
begin

text \<open>
  Iteration over the runes of a Go string: \<^verbatim>\<open>for _, r := range s\<close> and
  \<^verbatim>\<open>strings.Map\<close> decode UTF-8 and see the replacement character for every byte that is not
  part of a valid sequence.  \<open>runes\<close> cuts a string into the encodings of its runes.
\<close>

definition in_range :: "int \<Rightarrow> int \<Rightarrow> nat \<Rightarrow> bytes \<Rightarrow> bool" where
  "in_range lo hi i cs \<longleftrightarrow> i < length cs \<and> lo \<le> byte (cs ! i) \<and> byte (cs ! i) \<le> hi"

text \<open>The length of the valid sequence at the head, 0 for an invalid one.\<close>

definition rune_len :: "bytes \<Rightarrow> nat" where
  "rune_len cs =
     (if cs = [] then 0
      else (let b = byte (hd cs);
                two = in_range 128 191 2 cs;
                three = two \<and> in_range 128 191 3 cs
            in if b < 128 then 1
               else if 194 \<le> b \<and> b \<le> 223 then (if in_range 128 191 1 cs then 2 else 0)
               else if b = 224 then (if in_range 160 191 1 cs \<and> two then 3 else 0)
               else if b = 237 then (if in_range 128 159 1 cs \<and> two then 3 else 0)
               else if 225 \<le> b \<and> b \<le> 239 then (if in_range 128 191 1 cs \<and> two then 3 else 0)
               else if b = 240 then (if in_range 144 191 1 cs \<and> three then 4 else 0)
               else if 241 \<le> b \<and> b \<le> 243 then (if in_range 128 191 1 cs \<and> three then 4 else 0)
               else if b = 244 then (if in_range 128 143 1 cs \<and> three then 4 else 0)
               else 0))"

definition replacement_char :: bytes where
  "replacement_char = [char_of (239 :: nat), char_of (191 :: nat), char_of (189 :: nat)]"

function runes :: "bytes \<Rightarrow> bytes list" where
  "runes cs =
     (if cs = [] then []
      else (let n = rune_len cs in
            if n = 0 then replacement_char # runes (tl cs) else take n cs # runes (drop n cs)))"
  by pat_completeness auto
termination
  by (relation "measure length") auto

declare runes.simps [simp del]

lemma runes_Nil [simp]: "runes [] = []"
  by (simp add: runes.simps)

lemma rune_len_ascii: "byte c < 128 \<Longrightarrow> rune_len (c # cs) = 1"
  by (simp add: rune_len_def)

lemma runes_ascii [simp]: "byte c < 128 \<Longrightarrow> runes (c # cs) = [c] # runes cs"
  by (simp add: runes.simps [of "c # cs"] rune_len_ascii)

lemma runes_all_ascii: "\<forall>c \<in> set s. byte c < 128 \<Longrightarrow> runes s = map (\<lambda>c. [c]) s"
  by (induction s) auto

text \<open>A rune is one ASCII byte, or consists of bytes outside the ASCII range.\<close>

lemma rune_bytes: "r \<in> set (runes s) \<Longrightarrow> (\<exists>c. r = [c] \<and> byte c < 128) \<or> (\<forall>c \<in> set r. 128 \<le> byte c)"
proof (induction s rule: runes.induct)
  case (1 cs)
  have high: "\<forall>c \<in> set (take (rune_len cs) cs). 128 \<le> byte c" if "cs \<noteq> []" "128 \<le> byte (hd cs)"
  proof -
    have "128 \<le> byte (cs ! i)" if "i < rune_len cs" for i
      using that \<open>cs \<noteq> []\<close> \<open>128 \<le> byte (hd cs)\<close>
      by (auto simp: rune_len_def in_range_def Let_def hd_conv_nth less_Suc_eq numeral_2_eq_2
          numeral_3_eq_3 eval_nat_numeral split: if_splits)
    then show ?thesis by (auto simp: in_set_conv_nth)
  qed
  show ?case
  proof (cases "cs = []")
    case False
    then have r: "r = replacement_char \<or> r \<in> set (runes (tl cs)) \<and> rune_len cs = 0
        \<or> rune_len cs \<noteq> 0 \<and> (r = take (rune_len cs) cs \<or> r \<in> set (runes (drop (rune_len cs) cs)))"
      using "1.prems" by (subst (asm) runes.simps) (auto simp: Let_def split: if_splits)
    moreover have "(\<exists>c. take (rune_len cs) cs = [c] \<and> byte c < 128) \<or>
        (\<forall>c \<in> set (take (rune_len cs) cs). 128 \<le> byte c)"
    proof (cases "128 \<le> byte (hd cs)")
      case True
      then show ?thesis using high False by blast
    next
      case low: False
      then obtain c cs' where "cs = c # cs'" "byte c < 128" using False by (cases cs) auto
      then show ?thesis by (simp add: rune_len_ascii)
    qed
    moreover have "\<forall>c \<in> set replacement_char. 128 \<le> byte c" by (simp add: replacement_char_def)
    ultimately show ?thesis using "1.IH" (1) "1.IH" (2) False by metis
  qed (use "1.prems" in simp)
qed

end
