(* ===== verification/Statusinfo.thy ===== *)
theory Statusinfo
  imports Asn1 Utf8
begin

text \<open>
  The PKIStatusInfo of a TimeStampResp, \<^verbatim>\<open>internal/tsp/statusinfo.go\<close>: the decoder,
  the names of the failure bits, and the report key of a rejection.
\<close>

type_synonym pki_status = int

definition StatusGranted :: pki_status where "StatusGranted = 0"
definition StatusGrantedWithMods :: pki_status where "StatusGrantedWithMods = 1"
definition StatusRejection :: pki_status where "StatusRejection = 2"
definition StatusWaiting :: pki_status where "StatusWaiting = 3"
definition StatusRevocationWarning :: pki_status where "StatusRevocationWarning = 4"
definition StatusRevocationNotification :: pki_status where "StatusRevocationNotification = 5"

lemmas status_defs = StatusGranted_def StatusGrantedWithMods_def StatusRejection_def
  StatusWaiting_def StatusRevocationWarning_def StatusRevocationNotification_def

definition status_name :: "pki_status \<Rightarrow> string" where
  "status_name s =
     (if s = StatusGranted then ''granted''
      else if s = StatusGrantedWithMods then ''grantedWithMods''
      else if s = StatusRejection then ''rejection''
      else if s = StatusWaiting then ''waiting''
      else if s = StatusRevocationWarning then ''revocationWarning''
      else if s = StatusRevocationNotification then ''revocationNotification''
      else ''unknown('' @ int_dec s @ '')'')"

definition granted :: "pki_status \<Rightarrow> bool" where
  "granted s \<longleftrightarrow> s = StatusGranted \<or> s = StatusGrantedWithMods"

definition failure_info_names :: "(nat \<times> string) list" where
  "failure_info_names =
     [(0, ''badAlg''), (1, ''badMessageCheck''), (2, ''badRequest''), (3, ''badTime''),
      (5, ''badDataFormat''), (14, ''timeNotAvailable''), (15, ''unacceptedPolicy''),
      (16, ''unacceptedExtension''), (17, ''addInfoNotAvailable''), (25, ''systemFailure'')]"

record status_info =
  si_status :: pki_status
  si_statusString :: string
  si_failureInfo :: "string list"
  si_hasToken :: bool

definition sub_category :: "status_info \<Rightarrow> string" where
  "sub_category s =
     (if length (si_failureInfo s) > 0 then join ''+'' (si_failureInfo s) else status_name (si_status s))"

definition max_status_string_len :: nat where
  "max_status_string_len = 200"

text \<open>Control characters, DEL, comma and double quote become blanks, rune by rune.\<close>

definition unsafe_char :: "char \<Rightarrow> bool" where
  "unsafe_char c \<longleftrightarrow> byte c < 32 \<or> byte c = 127 \<or> c = CHR '','' \<or> c = CHR 0x22"

definition sanitize_rune :: "bytes \<Rightarrow> bytes" where
  "sanitize_rune r = (if length r = 1 \<and> unsafe_char (hd r) then '' '' else r)"

definition sanitize :: "string \<Rightarrow> string" where
  "sanitize s = concat (map sanitize_rune (runes s))"

function free_text_parts :: "bytes \<Rightarrow> string list" where
  "free_text_parts der =
     (if der = [] then []
      else (case unmarshal_raw der of
        Inl e \<Rightarrow> []
      | Inr (v, rest) \<Rightarrow> sanitize (rv_bytes v) # free_text_parts rest))"
  by pat_completeness auto
termination
  by (relation "measure length") (auto dest: unmarshal_raw_split(2))

declare free_text_parts.simps [simp del]

definition decode_free_text :: "bytes \<Rightarrow> string" where
  "decode_free_text der =
     (let s = join ''; '' (free_text_parts der) in
      if length s > max_status_string_len then take max_status_string_len s @ ''...'' else s)"

definition failure_name :: "nat \<Rightarrow> string" where
  "failure_name i = (case map_of failure_info_names i of Some n \<Rightarrow> n | None \<Rightarrow> ''bit'' @ nat_dec i)"

definition decode_failure_info :: "bit_string \<Rightarrow> string list" where
  "decode_failure_info bs = map failure_name (filter (bit_at bs) [0..<bs_bitLength bs])"

text \<open>The loop over the optional fields.\<close>

function parse_fields :: "bytes \<Rightarrow> status_info \<Rightarrow> string + status_info" where
  "parse_fields inner out =
     (if inner = [] then Inr out
      else (case unmarshal_raw inner of
        Inl e \<Rightarrow> Inl (''decode PKIStatusInfo field: '' @ asn1_error_text e)
      | Inr (field, rest) \<Rightarrow>
          (if rv_tag field = TagSequence \<and> rv_compound field
           then parse_fields rest (out\<lparr>si_statusString := decode_free_text (rv_bytes field)\<rparr>)
           else if rv_tag field = TagBitString
           then (case unmarshal_bit_string (rv_full field) of
              Inl e \<Rightarrow> Inl (''decode PKIFailureInfo: '' @ asn1_error_text e)
            | Inr bs \<Rightarrow> parse_fields rest (out\<lparr>si_failureInfo := decode_failure_info bs\<rparr>))
           else parse_fields rest out)))"
  by pat_completeness auto
termination
  by (relation "measure (\<lambda>(inner, out). length inner)") (auto dest: unmarshal_raw_split(2))

declare parse_fields.simps [simp del]

definition parse_status_info :: "bytes \<Rightarrow> string + status_info" where
  "parse_status_info der =
     (case unmarshal_raw der of
        Inl e \<Rightarrow> Inl (''decode TimeStampResp: '' @ asn1_error_text e)
      | Inr (resp, rest) \<Rightarrow>
         (if length rest > 0 then Inl ''trailing data after TimeStampResp''
          else if rv_class resp \<noteq> 0 \<or> rv_tag resp \<noteq> TagSequence \<or> \<not> rv_compound resp
            then Inl ''TimeStampResp is not a SEQUENCE''
          else (case unmarshal_raw (rv_bytes resp) of
             Inl e \<Rightarrow> Inl (''decode PKIStatusInfo: '' @ asn1_error_text e)
           | Inr (info, body) \<Rightarrow>
              (if rv_tag info \<noteq> TagSequence \<or> \<not> rv_compound info
               then Inl ''PKIStatusInfo is not a SEQUENCE''
               else (case unmarshal_int (rv_bytes info) of
                  Inl e \<Rightarrow> Inl (''decode PKIStatus: '' @ asn1_error_text e)
                | Inr (status, inner) \<Rightarrow>
                    parse_fields inner \<lparr>si_status = status, si_statusString = [], si_failureInfo = [],
                      si_hasToken = (length body > 0)\<rparr>)))))"

subsection \<open>What can reach a report\<close>

definition safe_text :: "string \<Rightarrow> bool" where
  "safe_text s \<longleftrightarrow> list_all (\<lambda>c. \<not> unsafe_char c) s"

lemma safe_text_append [simp]: "safe_text (s @ t) \<longleftrightarrow> safe_text s \<and> safe_text t"
  by (simp add: safe_text_def)

lemma safe_text_simps [simp]: "safe_text []" "safe_text (c # s) \<longleftrightarrow> \<not> unsafe_char c \<and> safe_text s"
  by (simp_all add: safe_text_def)

lemma safe_text_take: "safe_text s \<Longrightarrow> safe_text (take n s)"
  by (metis append_take_drop_id safe_text_append)

lemma safe_sanitize: "safe_text (sanitize s)"
proof -
  have "safe_text (sanitize_rune r)" if "r \<in> set (runes s)" for r
    using rune_bytes [OF that]
  proof
    assume "\<exists>c. r = [c] \<and> byte c < 128"
    then show ?thesis by (auto simp: sanitize_rune_def) (simp add: unsafe_char_def byte_def)
  next
    assume high: "\<forall>c \<in> set r. 128 \<le> byte c"
    have "\<not> unsafe_char c" if "128 \<le> byte c" for c
      using that by (auto simp: unsafe_char_def byte_def)
    then have "safe_text r" using high by (auto simp: safe_text_def list_all_iff)
    moreover have "\<not> unsafe_char (CHR '' '')" by (simp add: unsafe_char_def byte_def)
    ultimately show ?thesis by (simp add: sanitize_rune_def)
  qed
  then show ?thesis by (induction "runes s" rule: list.induct)
      (auto simp: sanitize_def safe_text_def list_all_iff)
qed

lemma safe_join: "list_all safe_text ps \<Longrightarrow> safe_text sep \<Longrightarrow> safe_text (join sep ps)"
  by (induction sep ps rule: join.induct) auto

lemma safe_free_text_parts: "list_all safe_text (free_text_parts der)"
  by (induction der rule: free_text_parts.induct)
    (subst free_text_parts.simps, auto simp: safe_sanitize split: sum.splits)

lemma unsafe_char_byte:
  "unsafe_char c \<longleftrightarrow> byte c < 32 \<or> byte c = 127 \<or> byte c = 44 \<or> byte c = 34"
proof -
  have "(c = CHR '','') = (byte c = byte (CHR '',''))" "(c = CHR 0x22) = (byte c = byte (CHR 0x22))"
    by (simp_all only: byte_def of_nat_eq_iff of_char_eq_iff)
  moreover have "byte (CHR '','') = 44" "byte (CHR 0x22) = 34" by (simp_all add: byte_def)
  ultimately show ?thesis by (simp add: unsafe_char_def)
qed

lemma safe_separators: "safe_text ''; ''" "safe_text ''...''" "safe_text ''+''" "safe_text ''bit''"
  by (simp_all add: unsafe_char_byte byte_def)

lemma safe_decode_free_text: "safe_text (decode_free_text der)"
  using safe_join [OF safe_free_text_parts safe_separators(1)] safe_text_take safe_separators(2)
  unfolding decode_free_text_def Let_def by (simp only: safe_text_append split: if_split) blast

lemma length_decode_free_text: "length (decode_free_text der) \<le> 203"
  by (simp add: decode_free_text_def Let_def max_status_string_len_def)

lemma safe_nat_dec: "safe_text (nat_dec n)"
proof (induction n rule: nat_dec.induct)
  case (1 n)
  have "\<not> unsafe_char (digit_char d)" if "d < 10" for d
    using that by (simp add: unsafe_char_byte digit_char_def)
  then show ?case using 1 by (subst nat_dec.simps) simp
qed

lemma safe_failure_name: "safe_text (failure_name i)"
proof -
  have "list_all (safe_text \<circ> snd) failure_info_names"
    by (simp add: failure_info_names_def unsafe_char_def byte_def)
  moreover have "safe_text (''bit'' @ nat_dec i)"
    using safe_nat_dec safe_separators(4) by (simp only: safe_text_append)
  ultimately show ?thesis
    by (cases "map_of failure_info_names i") (auto simp: failure_name_def list_all_iff dest!: map_of_SomeD)
qed

lemma parse_fields_safe:
  "parse_fields inner out = Inr si \<Longrightarrow>
   safe_text (si_statusString out) \<and> length (si_statusString out) \<le> 203 \<and> list_all safe_text (si_failureInfo out) \<Longrightarrow>
   safe_text (si_statusString si) \<and> length (si_statusString si) \<le> 203 \<and> list_all safe_text (si_failureInfo si)"
proof (induction inner out rule: parse_fields.induct)
  case (1 inner out)
  show ?case
  proof (cases "inner = []")
    case True
    then show ?thesis using "1.prems" by (simp add: parse_fields.simps)
  next
    case False
    then obtain field rest where r: "unmarshal_raw inner = Inr (field, rest)"
      using "1.prems"(1) by (subst (asm) parse_fields.simps) (auto split: sum.splits)
    have f: "list_all safe_text (decode_failure_info bs)" for bs
      by (simp add: decode_failure_info_def list_all_iff safe_failure_name)
    consider "rv_tag field = TagSequence \<and> rv_compound field"
      | bs where "\<not> (rv_tag field = TagSequence \<and> rv_compound field)" "rv_tag field = TagBitString"
          "unmarshal_bit_string (rv_full field) = Inr bs"
      | "\<not> (rv_tag field = TagSequence \<and> rv_compound field)" "rv_tag field \<noteq> TagBitString"
      using "1.prems"(1) False r by (subst (asm) parse_fields.simps) (auto split: sum.splits if_splits)
    then show ?thesis
    proof cases
      case 1
      then have "parse_fields rest (out\<lparr>si_statusString := decode_free_text (rv_bytes field)\<rparr>) = Inr si"
        using "1.prems"(1) False r by (simp add: parse_fields.simps [of inner])
      then show ?thesis using "1.IH"(1) [OF False r refl 1] "1.prems"(2)
        by (simp add: safe_decode_free_text length_decode_free_text)
    next
      case 2
      then have "parse_fields rest (out\<lparr>si_failureInfo := decode_failure_info bs\<rparr>) = Inr si"
        using "1.prems"(1) False r by (auto simp: parse_fields.simps [of inner])
      then show ?thesis using "1.IH"(2) [OF False r refl 2] "1.prems"(2) f by simp
    next
      case 3
      then have "parse_fields rest out = Inr si"
        using "1.prems"(1) False r by (auto simp: parse_fields.simps [of inner])
      then show ?thesis using "1.IH"(3) [OF False r refl 3] "1.prems"(2) by simp
    qed
  qed
qed

lemma safe_int_dec: "safe_text (int_dec i)"
  using safe_nat_dec by (simp add: int_dec_def unsafe_char_byte byte_def)

lemma safe_status_name: "safe_text (status_name s)"
  using safe_int_dec by (simp add: status_name_def unsafe_char_byte byte_def)

lemma safe_sub_category: "list_all safe_text (si_failureInfo si) \<Longrightarrow> safe_text (sub_category si)"
  using safe_join [OF _ safe_separators(3)] safe_status_name by (simp add: sub_category_def del: safe_text_simps)

lemma parse_status_info_fields:
  "parse_status_info der = Inr si \<Longrightarrow> \<exists>inner status tok. parse_fields inner
     \<lparr>si_status = status, si_statusString = [], si_failureInfo = [], si_hasToken = tok\<rparr> = Inr si"
  by (auto simp: parse_status_info_def split: sum.splits if_splits) blast

subsection \<open>A reference encoder\<close>

definition enc_free_text :: "string list \<Rightarrow> bytes" where
  "enc_free_text texts = concat (map (tlv 12) texts)"

definition enc_status_fields :: "nat \<Rightarrow> string list \<Rightarrow> bytes option \<Rightarrow> bytes" where
  "enc_status_fields st texts bits =
     tlv 2 [char_of st] @ (if texts = [] then [] else tlv 48 (enc_free_text texts)) @
     (case bits of None \<Rightarrow> [] | Some body \<Rightarrow> tlv 3 body)"

definition enc_response :: "nat \<Rightarrow> string list \<Rightarrow> bytes option \<Rightarrow> bytes \<Rightarrow> bytes" where
  "enc_response st texts bits token = tlv 48 (tlv 48 (enc_status_fields st texts bits) @ token)"

definition shown_text :: "string list \<Rightarrow> string" where
  "shown_text texts =
     (let s = join ''; '' (map sanitize texts) in
      if length s > max_status_string_len then take max_status_string_len s @ ''...'' else s)"

lemma length_tlv: "length body < length (tlv i body)"
  by (simp add: tlv_def)

lemma free_text_roundtrip:
  "list_all (\<lambda>t. length t < 16777216) texts \<Longrightarrow> free_text_parts (enc_free_text texts) = map sanitize texts"
proof (induction texts)
  case Nil
  then show ?case by (simp add: enc_free_text_def free_text_parts.simps)
next
  case (Cons t ts)
  have e: "enc_free_text (t # ts) = tlv 12 t @ enc_free_text ts" by (simp add: enc_free_text_def)
  have "tlv 12 t \<noteq> []" by (simp add: tlv_def)
  moreover have "unmarshal_raw (tlv 12 t @ enc_free_text ts) =
      Inr (\<lparr>rv_class = 0, rv_tag = 12, rv_compound = False, rv_bytes = t, rv_full = tlv 12 t\<rparr>, enc_free_text ts)"
    using unmarshal_raw_tlv [of 12 t "enc_free_text ts"] Cons.prems by simp
  ultimately show ?case using Cons
    by (subst free_text_parts.simps) (simp add: e)
qed

lemma enc_free_text_lengths: "t \<in> set texts \<Longrightarrow> length t \<le> length (enc_free_text texts)"
  using length_tlv [of _ 12] by (induction texts) 
    (auto simp: enc_free_text_def intro: trans_le_add2 trans_le_add1 [OF less_imp_le [OF length_tlv]])

lemma parse_fields_text:
  assumes "length (enc_free_text texts) < 16777216"
  shows "parse_fields (tlv 48 (enc_free_text texts) @ rest) out =
    parse_fields rest (out\<lparr>si_statusString := shown_text texts\<rparr>)"
proof -
  have "list_all (\<lambda>t. length t < 16777216) texts"
    using enc_free_text_lengths [of _ texts] assms by (force simp: list_all_iff)
  then have "decode_free_text (enc_free_text texts) = shown_text texts"
    by (simp add: decode_free_text_def shown_text_def free_text_roundtrip)
  then show ?thesis using unmarshal_raw_tlv [of 48 "enc_free_text texts" rest] assms
    by (subst parse_fields.simps) (simp add: tlv_def TagSequence_def)
qed

lemma parse_fields_bits:
  assumes "length body < 16777216" "parse_bit_string body = Inr bs"
  shows "parse_fields (tlv 3 body @ rest) out =
    parse_fields rest (out\<lparr>si_failureInfo := decode_failure_info bs\<rparr>)"
proof -
  have "unmarshal_bit_string (tlv 3 body) = Inr bs"
    using unmarshal_prim_tlv [of 3 body "[]"] assms by (simp add: unmarshal_bit_string_def TagBitString_def)
  then show ?thesis using unmarshal_raw_tlv [of 3 body rest] assms
    by (subst parse_fields.simps) (simp add: tlv_def TagSequence_def TagBitString_def)
qed

subsection \<open>Properties\<close>

text \<open>C36: the decoder reads back what a responder encodes.  For every status below 128, every list of
  status strings, every well-formed failure bit string and every token, the DER encoding decodes to
  that status, the sanitised and shortened text, the names of exactly the set bits in order, and the
  presence of a token.\<close>

theorem status_info_roundtrip:
  assumes "st < 128" and "length (enc_response st texts (Some body) token) < 16777216"
    and "parse_bit_string body = Inr bs"
  shows "parse_status_info (enc_response st texts (Some body) token) =
    Inr \<lparr>si_status = int st, si_statusString = shown_text texts,
         si_failureInfo = map failure_name (filter (bit_at bs) [0..<bs_bitLength bs]),
         si_hasToken = (token \<noteq> [])\<rparr>"
proof -
  let ?fields = "enc_status_fields st texts (Some body)"
  let ?info = "tlv 48 ?fields @ token"
  have info: "length ?info < 16777216"
    using assms(2) length_tlv [of ?info 48] by (simp only: enc_response_def)
  then have fields: "length ?fields < 16777216"
    using length_tlv [of ?fields 48] by simp
  then have parts: "length body < 16777216" "texts \<noteq> [] \<Longrightarrow> length (enc_free_text texts) < 16777216"
    using length_tlv [of body 3] length_tlv [of "enc_free_text texts" 48]
    by (auto simp: enc_status_fields_def)
  have "unmarshal_raw (enc_response st texts (Some body) token) =
      Inr (\<lparr>rv_class = 0, rv_tag = 16, rv_compound = True, rv_bytes = ?info, rv_full = tlv 48 ?info\<rparr>, [])"
    using unmarshal_raw_tlv [of 48 ?info "[]"] info by (simp add: enc_response_def)
  moreover have "unmarshal_raw ?info =
      Inr (\<lparr>rv_class = 0, rv_tag = 16, rv_compound = True, rv_bytes = ?fields, rv_full = tlv 48 ?fields\<rparr>, token)"
    using unmarshal_raw_tlv [of 48 ?fields token] fields by simp
  moreover have "\<exists>rest. unmarshal_int ?fields = Inr (int st, rest) \<and>
      (\<forall>tok. parse_fields rest \<lparr>si_status = int st, si_statusString = [], si_failureInfo = [], si_hasToken = tok\<rparr> =
      Inr \<lparr>si_status = int st, si_statusString = shown_text texts,
         si_failureInfo = decode_failure_info bs, si_hasToken = tok\<rparr>)"
  proof (intro exI conjI allI)
    show "unmarshal_int ?fields = Inr (int st,
        (if texts = [] then [] else tlv 48 (enc_free_text texts)) @ tlv 3 body)"
      using unmarshal_int_small [OF assms(1)] by (simp add: enc_status_fields_def)
    show "parse_fields ((if texts = [] then [] else tlv 48 (enc_free_text texts)) @ tlv 3 body)
        \<lparr>si_status = int st, si_statusString = [], si_failureInfo = [], si_hasToken = tok\<rparr> =
      Inr \<lparr>si_status = int st, si_statusString = shown_text texts,
         si_failureInfo = decode_failure_info bs, si_hasToken = tok\<rparr>" for tok
      using parse_fields_text [OF parts(2), of "tlv 3 body"] parse_fields_bits [OF parts(1) assms(3), of "[]"]
      by (simp add: parse_fields.simps [of "[]"] shown_text_def)
  qed
  ultimately show ?thesis
    by (auto simp: parse_status_info_def TagSequence_def decode_failure_info_def)
qed

text \<open>A rejection with one text and the bits for badRequest and systemFailure.\<close>

definition demo_bits :: bytes where
  "demo_bits = [CHR 0x06, CHR 0x20, CHR 0x00, CHR 0x00, CHR 0x40]"

theorem status_info_roundtrip_witness:
  "parse_status_info (enc_response 2 [''no, thanks''] (Some demo_bits) []) =
    Inr \<lparr>si_status = 2, si_statusString = ''no  thanks'',
         si_failureInfo = [''badRequest'', ''systemFailure''], si_hasToken = False\<rparr>"
proof -
  have b: "parse_bit_string demo_bits = Inr \<lparr>bs_bytes = tl demo_bits, bs_bitLength = 26\<rparr>"
    by (simp add: demo_bits_def parse_bit_string_def byte_def)
  have l: "length (enc_response 2 [''no, thanks''] (Some demo_bits) []) < 16777216"
    by (simp add: enc_response_def enc_status_fields_def enc_free_text_def tlv_def enc_len_def demo_bits_def)
  have "map failure_name (filter (bit_at \<lparr>bs_bytes = tl demo_bits, bs_bitLength = 26\<rparr>) [0..<26]) =
      [''badRequest'', ''systemFailure'']"
    by code_simp
  moreover have "shown_text [''no, thanks''] = ''no  thanks''" by code_simp
  ultimately show ?thesis using status_info_roundtrip [OF _ l b] by simp
qed

text \<open>Nothing a responder sends can break a report row or a terminal: whatever bytes are decoded,
  the status string and the rejection key hold no control character, comma or double quote, and the
  status string has at most 203 bytes.\<close>

theorem status_info_safe:
  assumes "parse_status_info der = Inr si"
  shows "safe_text (si_statusString si) \<and> length (si_statusString si) \<le> 203 \<and> safe_text (sub_category si)"
proof -
  obtain inner status tok where
    "parse_fields inner \<lparr>si_status = status, si_statusString = [], si_failureInfo = [], si_hasToken = tok\<rparr> = Inr si"
    using parse_status_info_fields [OF assms] by blast
  from parse_fields_safe [OF this] show ?thesis by (simp add: safe_sub_category)
qed

lemma demo_status:
  "parse_status_info (tlv 48 (tlv 48 (tlv 2 [CHR 0x00]))) =
     Inr \<lparr>si_status = 0, si_statusString = [], si_failureInfo = [], si_hasToken = False\<rparr>"
  by code_simp

theorem status_info_safe_witness:
  "safe_text (sub_category \<lparr>si_status = 0, si_statusString = [], si_failureInfo = [], si_hasToken = False\<rparr>)"
  using status_info_safe [OF demo_status] by blast

end
