(* ===== verification/Go_Time.thy ===== *)
theory Go_Time
  imports Prelude
begin

text \<open>
  \<^verbatim>\<open>Duration.String\<close> and \<^verbatim>\<open>Duration.Round\<close> of package time, the civil date of an
  instant in UTC, and the two layouts the program formats instants with.
\<close>

text \<open>The fraction \<open>v / 10 ^ prec\<close> without its trailing zeros, and without the point when it is zero.\<close>

definition fmt_frac :: "nat \<Rightarrow> nat \<Rightarrow> string" where
  "fmt_frac v prec =
     (let ds = rev (dropWhile (\<lambda>c. c = CHR ''0'') (rev (pad_dec prec (v mod 10 ^ prec))))
      in if ds = [] then [] else CHR ''.'' # ds)"

definition micro_sign :: string where
  "micro_sign = [char_of (194 :: nat), char_of (181 :: nat)]"

definition duration_string :: "duration \<Rightarrow> string" where
  "duration_string d =
     (let u = nat \<bar>d\<bar>; sgn = (if d < 0 then ''-'' else []) in
      if u = 0 then ''0s''
      else if u < 1000 then sgn @ nat_dec u @ ''ns''
      else if u < 1000000 then sgn @ nat_dec (u div 1000) @ fmt_frac u 3 @ micro_sign @ ''s''
      else if u < 1000000000 then sgn @ nat_dec (u div 1000000) @ fmt_frac u 6 @ ''ms''
      else (let secs = u div 1000000000; mins = secs div 60; hrs = mins div 60;
                s = nat_dec (secs mod 60) @ fmt_frac u 9 @ ''s''
            in if mins = 0 then sgn @ s
               else if hrs = 0 then sgn @ nat_dec (mins mod 60) @ ''m'' @ s
               else sgn @ nat_dec hrs @ ''h'' @ nat_dec (mins mod 60) @ ''m'' @ s))"

definition duration_round :: "duration \<Rightarrow> duration \<Rightarrow> duration" where
  "duration_round d m =
     (if m \<le> 0 then d
      else (let r = \<bar>d smod m\<bar> in
        if d < 0
        then (if s64 (r + r) < m then d + r
              else (let d1 = s64 (d - m + r) in if d1 < d then d1 else - (2 ^ 63)))
        else (if s64 (r + r) < m then d - r
              else (let d1 = s64 (d + m - r) in if d1 > d then d1 else 2 ^ 63 - 1))))"

lemma duration_string_examples:
  "duration_string 90500000000 = ''1m30.5s''" "duration_string 250000000 = ''250ms''"
  "duration_string 3600000000000 = ''1h0m0s''"
  by (simp_all add: duration_string_def nat_dec.simps fmt_frac_def pad_dec_def digit_char_def
      Let_def, code_simp+)

subsection \<open>Civil dates\<close>

definition is_leap :: "int \<Rightarrow> bool" where
  "is_leap y \<longleftrightarrow> y mod 4 = 0 \<and> (y mod 100 \<noteq> 0 \<or> y mod 400 = 0)"

definition month_lengths :: "int \<Rightarrow> int list" where
  "month_lengths y = [31, (if is_leap y then 29 else 28), 31, 30, 31, 30, 31, 31, 30, 31, 30, 31]"

definition days_in :: "int \<Rightarrow> int \<Rightarrow> int" where
  "days_in m y = month_lengths y ! nat (m - 1)"

text \<open>The number of a date, counted from January 1 of year 1, and \<^verbatim>\<open>time.Date(...)\<close> in UTC.\<close>

definition day_number :: "int \<Rightarrow> int \<Rightarrow> int \<Rightarrow> int" where
  "day_number y m d =
     (let z = y - 1
      in 365 * z + z div 4 - z div 100 + z div 400
         + sum_list (take (nat (m - 1)) (month_lengths y)) + (d - 1))"

definition date_nanos :: "int \<Rightarrow> int \<Rightarrow> int \<Rightarrow> int \<Rightarrow> int \<Rightarrow> int \<Rightarrow> int \<Rightarrow> time" where
  "date_nanos y m d hh mi ss ns =
     (day_number y m d * 86400 + hh * 3600 + mi * 60 + ss) * 1000000000 + ns"

text \<open>The date of a day counted from January 1 of year 1: cycles of 400, 100, 4 and 1 years.\<close>

fun month_walk :: "int \<Rightarrow> int \<Rightarrow> int list \<Rightarrow> int \<times> int" where
  "month_walk m d [] = (m, d + 1)"
| "month_walk m d (l # ls) = (if d < l then (m, d + 1) else month_walk (m + 1) (d - l) ls)"

definition year_of_day :: "int \<Rightarrow> int \<times> int" where
  "year_of_day d =
     (let d1 = d mod 146097; n100 = min 3 (d1 div 36524); d2 = d1 - 36524 * n100;
          d3 = d2 mod 1461; n1 = min 3 (d3 div 365)
      in (400 * (d div 146097) + 100 * n100 + 4 * (d2 div 1461) + n1 + 1, d3 - 365 * n1))"

definition civil_of_day :: "int \<Rightarrow> int \<times> int \<times> int" where
  "civil_of_day d = (let (y, yd) = year_of_day d in (y, month_walk 1 yd (month_lengths y)))"

definition nanos_per_day :: int where
  "nanos_per_day = 86400 * 1000000000"

definition go_year :: "int \<Rightarrow> string" where
  "go_year y = (if y < 0 then ''-'' else []) @ pad_dec 4 (nat \<bar>y\<bar>)"

text \<open>\<^verbatim>\<open>t.UTC().Format(time.RFC3339Nano)\<close>\<close>

definition format_rfc3339_nano :: "time \<Rightarrow> string" where
  "format_rfc3339_nano t =
     (case civil_of_day (t div nanos_per_day) of (y, m, d) \<Rightarrow>
      (let n = nat (t mod nanos_per_day); s = n div 1000000000
       in go_year y @ ''-'' @ pad_dec 2 (nat m) @ ''-'' @ pad_dec 2 (nat d) @ ''T'' @
          pad_dec 2 (s div 3600) @ '':'' @ pad_dec 2 (s div 60 mod 60) @ '':'' @
          pad_dec 2 (s mod 60) @ fmt_frac n 9 @ ''Z''))"

text \<open>\<^verbatim>\<open>t.UTC().Format("20060102T150405Z")\<close>\<close>

definition format_compact :: "time \<Rightarrow> string" where
  "format_compact t =
     (case civil_of_day (t div nanos_per_day) of (y, m, d) \<Rightarrow>
      (let s = nat (t mod nanos_per_day) div 1000000000
       in go_year y @ pad_dec 2 (nat m) @ pad_dec 2 (nat d) @ ''T'' @
          pad_dec 2 (s div 3600) @ pad_dec 2 (s div 60 mod 60) @ pad_dec 2 (s mod 60) @ ''Z''))"

subsection \<open>The date functions are inverse\<close>

lemma month_walk:
  "0 \<le> d \<Longrightarrow> d < sum_list ls \<Longrightarrow> month_walk m d ls = (m', d') \<Longrightarrow>
     m \<le> m' \<and> m' < m + int (length ls) \<and> 1 \<le> d' \<and> d' \<le> ls ! nat (m' - m) \<and>
     sum_list (take (nat (m' - m)) ls) + (d' - 1) = d"
proof (induction m d ls rule: month_walk.induct)
  case (2 m d l ls)
  show ?case
  proof (cases "d < l")
    case False
    with 2 have "m + 1 \<le> m' \<and> m' < m + 1 + int (length ls) \<and> 1 \<le> d' \<and> d' \<le> ls ! nat (m' - (m + 1)) \<and>
        sum_list (take (nat (m' - (m + 1))) ls) + (d' - 1) = d - l" by auto
    moreover from this have "nat (m' - m) = Suc (nat (m' - (m + 1)))" by auto
    ultimately show ?thesis by auto
  qed (use 2 in auto)
qed simp

text \<open>The parts of a day number: cycles of 400, 100, 4 and 1 years and the day of the year.\<close>

lemma year_parts:
  assumes "year_of_day d = (y, yd)"
  obtains a b c e where "y = 400 * a + 100 * b + 4 * c + e + 1"
    "d = 146097 * a + 36524 * b + 1461 * c + 365 * e + yd"
    "0 \<le> b" "b \<le> 3" "0 \<le> c" "c \<le> 24" "0 \<le> e" "e \<le> 3" "0 \<le> yd" "yd \<le> 365"
    "yd = 365 \<longrightarrow> e = 3 \<and> (c = 24 \<longrightarrow> b = 3)"
proof -
  define a where "a = d div 146097"
  define d1 where "d1 = d mod 146097"
  define b where "b = min 3 (d1 div 36524)"
  define d2 where "d2 = d1 - 36524 * b"
  define c where "c = d2 div 1461"
  define d3 where "d3 = d2 mod 1461"
  define e where "e = min 3 (d3 div 365)"
  have "year_of_day d = (400 * a + 100 * b + 4 * c + e + 1, d3 - 365 * e)"
    by (simp only: year_of_day_def Let_def a_def d1_def b_def d2_def c_def d3_def e_def)
  then have y: "y = 400 * a + 100 * b + 4 * c + e + 1" and yd: "yd = d3 - 365 * e"
    using assms by simp_all
  have d1: "0 \<le> d1" "d1 < 146097" by (simp_all add: d1_def)
  have b: "0 \<le> b" "b \<le> 3" using d1 by (auto simp: b_def)
  have d2: "0 \<le> d2" "d2 < 36525" "b < 3 \<Longrightarrow> d2 < 36524"
    using d1 by (auto simp: d2_def b_def)
  have c: "0 \<le> c" "c \<le> 24" using d2 by (auto simp: c_def)
  have d3: "0 \<le> d3" "d3 < 1461" by (simp_all add: d3_def)
  have e: "0 \<le> e" "e \<le> 3" using d3 by (auto simp: e_def)
  have d2e: "d2 = 1461 * c + d3" by (simp add: c_def d3_def)
  have yd': "0 \<le> yd" "yd \<le> 365" "e < 3 \<Longrightarrow> yd \<le> 364" using d3 yd by (auto simp: e_def)
  have n: "d = 146097 * a + 36524 * b + 1461 * c + 365 * e + yd"
    using d2e yd mult_div_mod_eq [of 146097 d] unfolding a_def d1_def d2_def by linarith
  have "yd = 365 \<longrightarrow> e = 3 \<and> (c = 24 \<longrightarrow> b = 3)"
    using yd'(3) yd d2e d2(3) b e by linarith
  with y n b c e yd'(1,2) show thesis by (rule that)
qed

lemma year_of_day:
  assumes "year_of_day d = (y, yd)"
  shows "365 * (y - 1) + (y - 1) div 4 - (y - 1) div 100 + (y - 1) div 400 + yd = d"
    and "0 \<le> yd" and "yd < sum_list (month_lengths y)"
proof -
  from assms obtain a b c e where p: "y = 400 * a + 100 * b + 4 * c + e + 1"
    "d = 146097 * a + 36524 * b + 1461 * c + 365 * e + yd"
    "0 \<le> b" "b \<le> 3" "0 \<le> c" "c \<le> 24" "0 \<le> e" "e \<le> 3" "0 \<le> yd" "yd \<le> 365"
    "yd = 365 \<longrightarrow> e = 3 \<and> (c = 24 \<longrightarrow> b = 3)"
    by (rule year_parts)
  have "(y - 1) div 4 = 100 * a + 25 * b + c" by (rule int_div_pos_eq [of _ _ _ e]) (use p in auto)
  moreover have "(y - 1) div 100 = 4 * a + b"
    by (rule int_div_pos_eq [of _ _ _ "4 * c + e"]) (use p in auto)
  moreover have "(y - 1) div 400 = a"
    by (rule int_div_pos_eq [of _ _ _ "100 * b + 4 * c + e"]) (use p in auto)
  ultimately show "365 * (y - 1) + (y - 1) div 4 - (y - 1) div 100 + (y - 1) div 400 + yd = d"
    using p(1,2) by simp
  show "0 \<le> yd" by fact
  have "is_leap y" if "yd = 365"
  proof -
    have e: "e = 3" "c = 24 \<Longrightarrow> b = 3" using p(11) that by auto
    have "y mod 4 = 0" by (rule int_mod_pos_eq [of _ _ "100 * a + 25 * b + c + 1"]) (use p e in auto)
    moreover have "y mod 100 \<noteq> 0" if "c \<noteq> 24"
    proof -
      have "y mod 100 = 4 * c + 4"
        by (rule int_mod_pos_eq [of _ _ "4 * a + b"]) (use p e that in auto)
      then show ?thesis using p by simp
    qed
    moreover have "y mod 400 = 0" if "c = 24"
      by (rule int_mod_pos_eq [of _ _ "a + 1"]) (use p e that in auto)
    ultimately show ?thesis unfolding is_leap_def by metis
  qed
  moreover have "yd < 365 \<or> yd = 365" using p(10) by linarith
  ultimately show "yd < sum_list (month_lengths y)" by (auto simp: month_lengths_def)
qed

lemma civil_of_day:
  assumes "civil_of_day n = (y, m, d)"
  shows "day_number y m d = n" "1 \<le> m" "m \<le> 12" "1 \<le> d" "d \<le> days_in m y"
proof -
  obtain yd where yd: "year_of_day n = (y, yd)" and md: "month_walk 1 yd (month_lengths y) = (m, d)"
    using assms by (auto simp: civil_of_day_def split: prod.splits)
  note w = month_walk [OF year_of_day(2,3) [OF yd] md]
  show "day_number y m d = n"
    using w year_of_day(1) [OF yd] by (simp add: day_number_def Let_def)
  show "1 \<le> m" "m \<le> 12" "1 \<le> d" "d \<le> days_in m y"
    using w by (auto simp: month_lengths_def days_in_def)
qed

lemma civil_year_range: "0 \<le> n \<Longrightarrow> n < 3652059 \<Longrightarrow> civil_of_day n = (y, m, d) \<Longrightarrow> 1 \<le> y \<and> y < 10000"
proof -
  assume n: "0 \<le> n" "n < 3652059" and c: "civil_of_day n = (y, m, d)"
  obtain yd where yd: "year_of_day n = (y, yd)"
    using c by (auto simp: civil_of_day_def split: prod.splits)
  obtain a b c e where p: "y = 400 * a + 100 * b + 4 * c + e + 1"
    "n = 146097 * a + 36524 * b + 1461 * c + 365 * e + yd"
    "0 \<le> b" "b \<le> 3" "0 \<le> c" "c \<le> 24" "0 \<le> e" "e \<le> 3" "0 \<le> yd" "yd \<le> 365"
    using year_parts [OF yd] by metis
  have "0 \<le> a" "a \<le> 24" using p n by auto
  moreover have "\<not> (a = 24 \<and> b = 3 \<and> c = 24 \<and> e = 3)" using p n by auto
  ultimately show ?thesis using p by auto
qed

lemma days_in_bound: "1 \<le> m \<Longrightarrow> m \<le> 12 \<Longrightarrow> days_in m y \<le> 31"
proof -
  assume "1 \<le> m" "m \<le> 12"
  then have "nat (m - 1) \<in> {..<12}" by auto
  then show ?thesis by (auto simp: days_in_def month_lengths_def nth_Cons' lessThan_nat_numeral lessThan_Suc)
qed

end
