(* ===== verification/Gentime.thy ===== *)
theory Gentime
  imports Statusinfo Errclass Go_Time
begin

text \<open>
  The tolerant decoder of a timestamp response, \<^verbatim>\<open>internal/tsp/gentime.go\<close>: the TSTInfo
  structure as encoding/asn1 reads it into \<^verbatim>\<open>lenientTSTInfo\<close>, the GeneralizedTime with the
  rules of package time for the layout \<^verbatim>\<open>20060102150405Z0700\<close>, and the assembly of the
  timestamp.  The CMS parser of the pkcs7 package is a parameter, and so is the answer of each
  method the program calls on a parsed token.
\<close>

subsection \<open>Certificates and CMS tokens\<close>

type_synonym oid = "int list"

record certificate =
  cert_raw :: bytes
  cert_subject :: string
  cert_issuer :: string
  cert_notAfter :: time
  cert_extKeyUsage :: "int list"
  cert_unknownExtKeyUsage :: "oid list"
  cert_extensions :: "(oid \<times> bool) list"

record verify_options =
  vo_roots :: "certificate list"
  vo_intermediates :: "certificate list"
  vo_currentTime :: time
  vo_keyUsages :: "int list"

text \<open>\<^verbatim>\<open>*pkcs7.PKCS7\<close>, by its data and the answers of its methods.\<close>

record pkcs7 =
  p7_content :: bytes
  p7_certificates :: "certificate list"
  p7_signedAttribute :: "oid \<Rightarrow> raw_value option"
  p7_onlySigner :: "certificate option"
  p7_verifyWithOpts :: "verify_options \<Rightarrow> goerr option"

subsection \<open>The TSTInfo structure\<close>

record tst_info =
  tst_version :: int
  tst_policy :: oid
  tst_hashAlgorithm :: oid
  tst_hashedMessage :: bytes
  tst_serialNumber :: int
  tst_time :: raw_value
  tst_seconds :: int
  tst_milliseconds :: int
  tst_microseconds :: int
  tst_ordering :: bool
  tst_nonce :: "int option"

text \<open>One field of a SEQUENCE: \<open>None\<close> when the field is absent or another one follows.  A raw value
  with a tag of its own may be primitive or constructed.\<close>

definition take_field :: "int \<Rightarrow> int \<Rightarrow> bool option \<Rightarrow> bytes \<Rightarrow> asn1_error + bytes option \<times> bytes" where
  "take_field cls tag compound cs =
     (if cs = [] then Inr (None, cs)
      else and_then (parse_tag_and_length cs) (\<lambda>(t, body).
        if tl_class t \<noteq> cls \<or> tl_tag t \<noteq> tag \<or> compound = Some (\<not> tl_compound t) then Inr (None, cs)
        else if tl_length t > int (length body) then Inl (SyntaxError ''data truncated'')
        else Inr (Some (take (nat (tl_length t)) body), drop (nat (tl_length t)) body)))"

definition required_field :: "int \<Rightarrow> bool \<Rightarrow> bytes \<Rightarrow> asn1_error + bytes \<times> bytes" where
  "required_field tag compound cs =
     and_then (take_field 0 tag (Some compound) cs) (\<lambda>(r, rest).
       case r of
         Some body \<Rightarrow> Inr (body, rest)
       | None \<Rightarrow> Inl (if cs = [] then SyntaxError ''sequence truncated''
                      else StructuralError ''tags don't match''))"

definition parse_big_int :: "bytes \<Rightarrow> asn1_error + int" where
  "parse_big_int bs =
     (case bs of
        [] \<Rightarrow> Inl (StructuralError ''empty integer'')
      | b0 # rest \<Rightarrow>
         (if rest \<noteq> [] \<and> ((byte b0 = 0 \<and> byte (hd rest) < 128) \<or> (byte b0 = 255 \<and> byte (hd rest) \<ge> 128))
          then Inl (StructuralError ''integer not minimally-encoded'')
          else Inr (if byte b0 \<ge> 128 then be_value 0 bs - 256 ^ length bs else be_value 0 bs)))"

definition parse_bool :: "bytes \<Rightarrow> asn1_error + bool" where
  "parse_bool bs =
     (if map byte bs = [0] then Inr False
      else if map byte bs = [255] then Inr True
      else Inl (SyntaxError ''invalid boolean''))"

text \<open>An optional field with a default, and its parser.\<close>

definition optional_field ::
  "int \<Rightarrow> int \<Rightarrow> bool option \<Rightarrow> (bytes \<Rightarrow> asn1_error + 'a) \<Rightarrow> 'a \<Rightarrow> bytes \<Rightarrow> asn1_error + 'a \<times> bytes" where
  "optional_field cls tag compound p dflt cs =
     and_then (take_field cls tag compound cs) (\<lambda>(r, rest).
       case r of
         None \<Rightarrow> Inr (dflt, rest)
       | Some body \<Rightarrow> and_then (p body) (\<lambda>v. Inr (v, rest)))"

definition parse_accuracy :: "bytes \<Rightarrow> asn1_error + int \<times> int \<times> int" where
  "parse_accuracy cs =
     and_then (optional_field 0 TagInteger (Some False) parse_int64 0 cs) (\<lambda>(s, cs1).
     and_then (optional_field 2 0 (Some False) parse_int64 0 cs1) (\<lambda>(ms, cs2).
     and_then (optional_field 2 1 (Some False) parse_int64 0 cs2) (\<lambda>(us, _). Inr (s, ms, us))))"

text \<open>\<^verbatim>\<open>messageImprint\<close>: the algorithm identifier (its parameters are any value) and the hash.\<close>

definition parse_message_imprint :: "bytes \<Rightarrow> asn1_error + oid \<times> bytes" where
  "parse_message_imprint cs =
     and_then (required_field TagSequence True cs) (\<lambda>(alg, cs1).
     and_then (required_field TagOID False alg) (\<lambda>(o0, params).
     and_then (parse_object_identifier o0) (\<lambda>alg_oid.
     and_then (if params = [] then Inr () else and_then (unmarshal_raw params) (\<lambda>_. Inr ())) (\<lambda>_.
     and_then (required_field TagOctetString False cs1) (\<lambda>(h, _). Inr (alg_oid, h))))))"

text \<open>\<^verbatim>\<open>[]pkix.Extension\<close>; only its well-formedness matters here.\<close>

definition parse_extension :: "bytes \<Rightarrow> asn1_error + unit" where
  "parse_extension cs =
     and_then (required_field TagOID False cs) (\<lambda>(o0, cs1).
     and_then (parse_object_identifier o0) (\<lambda>_.
     and_then (optional_field 0 1 (Some False) parse_bool False cs1) (\<lambda>(_, cs2).
     and_then (required_field TagOctetString False cs2) (\<lambda>_. Inr ()))))"

lemma take_field_consumes:
  assumes "take_field c t k cs = Inr (Some b, rest)"
  shows "length rest < length cs"
proof -
  obtain tl body where t: "parse_tag_and_length cs = Inr (tl, body)" and r: "rest = drop (nat (tl_length tl)) body"
    using assms by (auto simp: take_field_def and_then_Inr split: if_splits)
  obtain pre where "pre \<noteq> []" "cs = pre @ body" using parse_tag_and_length_consumes [OF t] by blast
  then have "length body < length cs" by simp
  moreover have "length rest \<le> length body" by (simp add: r)
  ultimately show ?thesis by linarith
qed

function parse_extensions :: "bytes \<Rightarrow> asn1_error + unit" where
  "parse_extensions cs =
     (if cs = [] then Inr ()
      else (case required_field TagSequence True cs of
        Inl e \<Rightarrow> Inl e
      | Inr (body, rest) \<Rightarrow> and_then (parse_extension body) (\<lambda>_. parse_extensions rest)))"
  by pat_completeness auto
termination
  by (relation "measure length")
    (auto simp: required_field_def and_then_Inr split: option.splits dest: take_field_consumes)

declare parse_extensions.simps [simp del]

definition unmarshal_tst_info :: "bytes \<Rightarrow> asn1_error + tst_info" where
  "unmarshal_tst_info bs =
     and_then (required_field TagSequence True bs) (\<lambda>(cs0, _).
     and_then (unmarshal_int cs0) (\<lambda>(version, cs1).
     and_then (required_field TagOID False cs1) (\<lambda>(p0, cs2).
     and_then (parse_object_identifier p0) (\<lambda>policy.
     and_then (required_field TagSequence True cs2) (\<lambda>(mi, cs3).
     and_then (parse_message_imprint mi) (\<lambda>(alg, hashed).
     and_then (required_field TagInteger False cs3) (\<lambda>(sn, cs4).
     and_then (parse_big_int sn) (\<lambda>serial.
     and_then (unmarshal_raw cs4) (\<lambda>(tm, cs5).
     and_then (optional_field 0 TagSequence (Some True) parse_accuracy (0, 0, 0) cs5) (\<lambda>((s, ms, us), cs6).
     and_then (optional_field 0 1 (Some False) parse_bool False cs6) (\<lambda>(ordering, cs7).
     and_then (optional_field 0 TagInteger (Some False) (\<lambda>b. map_sum id Some (parse_big_int b)) None cs7) (\<lambda>(nonce, cs8).
     and_then (optional_field 2 0 None (\<lambda>b. Inr ()) () cs8) (\<lambda>(_, cs9).
     and_then (optional_field 2 1 (Some True) parse_extensions () cs9) (\<lambda>_.
       Inr \<lparr>tst_version = version, tst_policy = policy, tst_hashAlgorithm = alg,
            tst_hashedMessage = hashed, tst_serialNumber = serial, tst_time = tm,
            tst_seconds = s, tst_milliseconds = ms, tst_microseconds = us,
            tst_ordering = ordering, tst_nonce = nonce\<rparr>))))))))))))))"

subsection \<open>GeneralizedTime\<close>

text \<open>\<^verbatim>\<open>getnum\<close> of package time.\<close>

definition getnum :: "bool \<Rightarrow> string \<Rightarrow> string + int \<times> string" where
  "getnum fixed s =
     (if \<not> digit_at s 0 then Inl ''bad value''
      else if \<not> digit_at s 1
        then (if fixed then Inl ''bad value'' else Inr (num (take 1 s), drop 1 s))
      else Inr (num (take 2 s), drop 2 s))"

text \<open>The fraction that may follow the seconds although the layout has none.\<close>

definition parse_fraction :: "string \<Rightarrow> int \<times> string" where
  "parse_fraction s =
     (if length s \<ge> 2 \<and> (s ! 0 = CHR ''.'' \<or> s ! 0 = CHR '','') \<and> is_digit (s ! 1)
      then (let ds = takeWhile is_digit (drop 1 s); k = min (length ds) 9
            in (num (take k ds) * 10 ^ (9 - k), drop (1 + length ds) s))
      else (0, s))"

definition parse_zone :: "string \<Rightarrow> string + int \<times> string" where
  "parse_zone s =
     (if s \<noteq> [] \<and> hd s = CHR ''Z'' then Inr (0, drop 1 s)
      else if length s < 5 then Inl ''bad value''
      else and_then (getnum True (take 2 (drop 1 s))) (\<lambda>(hr, _).
           and_then (getnum True (take 2 (drop 3 s))) (\<lambda>(mm, _).
             if hr > 24 \<or> mm > 60 then Inl ''time zone offset out of range''
             else if hd s = CHR ''+'' then Inr ((hr * 60 + mm) * 60, drop 5 s)
             else if hd s = CHR ''-'' then Inr (- ((hr * 60 + mm) * 60), drop 5 s)
             else Inl ''bad value'')))"

text \<open>\<^verbatim>\<open>time.Parse\<close> for the layout \<^verbatim>\<open>20060102150405Z0700\<close>.\<close>

definition time_parse :: "string \<Rightarrow> string + time" where
  "time_parse s0 =
     (if length s0 < 4 \<or> \<not> list_all is_digit (take 4 s0) then Inl ''bad value''
      else (let y = num (take 4 s0) in
        and_then (getnum True (drop 4 s0)) (\<lambda>(m, s1).
        if m \<le> 0 \<or> 12 < m then Inl ''month out of range'' else
        and_then (getnum True s1) (\<lambda>(d, s2).
        and_then (getnum False s2) (\<lambda>(hh, s3).
        if 24 \<le> hh then Inl ''hour out of range'' else
        and_then (getnum True s3) (\<lambda>(mi, s4).
        if 60 \<le> mi then Inl ''minute out of range'' else
        and_then (getnum True s4) (\<lambda>(ss, s5).
        if 60 \<le> ss then Inl ''second out of range'' else
        (case parse_fraction s5 of (ns, s6) \<Rightarrow>
        and_then (parse_zone s6) (\<lambda>(off, s7).
        if s7 \<noteq> [] then Inl ''extra text''
        else if d < 1 \<or> d > days_in m y then Inl ''day out of range''
        else Inr (date_nanos y m d hh mi ss ns - off * 1000000000))))))))))"

definition fractional_part :: "string \<Rightarrow> string option" where
  "fractional_part s =
     (case index_of s ''.'' of
        None \<Rightarrow> None
      | Some dot \<Rightarrow> Some (takeWhile (\<lambda>c. c \<notin> set ''Z+-'') (drop (dot + 1) s)))"

definition warn_non_minimal_gen_time :: string where
  "warn_non_minimal_gen_time = ''genTime is not valid DER: X.690 11.7 forbids trailing zeros in '' @
     ''the fractional seconds. The instant is unambiguous and was accepted, but the encoding is '' @
     ''non-conformant and stricter verifiers will reject these tokens''"

definition parse_generalized_time :: "raw_value \<Rightarrow> string + time \<times> string" where
  "parse_generalized_time raw =
     (if rv_tag raw \<noteq> TagGeneralizedTime
      then Inl (''genTime is ASN.1 tag '' @ int_dec (rv_tag raw) @ '', not a GeneralizedTime'')
      else (let s = rv_bytes raw in
        (case time_parse s of
           Inl e \<Rightarrow> Inl (''genTime '' @ go_quote s @ '' is not a valid GeneralizedTime: '' @ e)
         | Inr t \<Rightarrow>
            (case fractional_part s of
               Some fp \<Rightarrow> if has_suffix fp ''0'' then Inr (t, warn_non_minimal_gen_time) else Inr (t, [])
             | None \<Rightarrow> Inr (t, [])))))"

subsection \<open>The timestamp\<close>

datatype crypto_hash = SHA1 | SHA224 | SHA256 | SHA384 | SHA512

text \<open>\<^verbatim>\<open>crypto.Hash.String\<close>\<close>

fun hash_string :: "crypto_hash \<Rightarrow> string" where
  "hash_string SHA1 = ''SHA-1''"
| "hash_string SHA224 = ''SHA-224''"
| "hash_string SHA256 = ''SHA-256''"
| "hash_string SHA384 = ''SHA-384''"
| "hash_string SHA512 = ''SHA-512''"

definition digest_oids :: "(string \<times> crypto_hash) list" where
  "digest_oids =
     [(''1.3.14.3.2.26'', SHA1), (''2.16.840.1.101.3.4.2.1'', SHA256),
      (''2.16.840.1.101.3.4.2.2'', SHA384), (''2.16.840.1.101.3.4.2.3'', SHA512),
      (''2.16.840.1.101.3.4.2.4'', SHA224)]"

record timestamp =
  ts_rawToken :: bytes
  ts_hashAlgorithm :: crypto_hash
  ts_hashedMessage :: bytes
  ts_time :: time
  ts_accuracy :: duration
  ts_serialNumber :: int
  ts_policy :: oid
  ts_ordering :: bool
  ts_nonce :: "int option"
  ts_certificates :: "certificate list"

text \<open>\<^verbatim>\<open>rawResponse\<close>: the bytes of the token, empty when it is absent.\<close>

definition unmarshal_raw_response :: "bytes \<Rightarrow> asn1_error + bytes" where
  "unmarshal_raw_response body =
     and_then (required_field TagSequence True body) (\<lambda>(cs, _).
     and_then (unmarshal_raw cs) (\<lambda>(_, cs1).
     if cs1 = [] then Inr [] else and_then (unmarshal_raw cs1) (\<lambda>(tok, _). Inr (rv_full tok))))"

definition parse_response_tolerantly ::
  "(bytes \<Rightarrow> string + pkcs7) \<Rightarrow> bytes \<Rightarrow> string + timestamp \<times> pkcs7 \<times> string" where
  "parse_response_tolerantly pkcs7_parse body =
     and_then (map_error asn1_error_text (unmarshal_raw_response body)) (\<lambda>token.
     if token = [] then Inl ''no pkcs7 data in Time-Stamp response'' else
     and_then (pkcs7_parse token) (\<lambda>p7.
     and_then (map_error asn1_error_text (unmarshal_tst_info (p7_content p7))) (\<lambda>inf.
     if tst_hashedMessage inf = [] then Inl ''Time-Stamp response contains no hashed message'' else
     and_then (parse_generalized_time (tst_time inf)) (\<lambda>(gen_time, warning).
     (case map_of digest_oids (oid_string (tst_hashAlgorithm inf)) of
        None \<Rightarrow> Inl ''Time-Stamp response uses unknown hash function''
      | Some alg \<Rightarrow>
          Inr (\<lparr>ts_rawToken = token, ts_hashAlgorithm = alg,
                 ts_hashedMessage = tst_hashedMessage inf, ts_time = gen_time,
                 ts_accuracy = s64 (s64 (s64 (second * tst_seconds inf) +
                   s64 (millisecond * tst_milliseconds inf)) + s64 (microsecond * tst_microseconds inf)),
                 ts_serialNumber = tst_serialNumber inf, ts_policy = tst_policy inf,
                 ts_ordering = tst_ordering inf, ts_nonce = tst_nonce inf,
                 ts_certificates = p7_certificates p7\<rparr>, p7, warning))))))"

subsection \<open>Reading a fraction\<close>

lemma getnum_two:
  "length p = 2 \<Longrightarrow> list_all is_digit p \<Longrightarrow> getnum fixed (p @ x) = Inr (num p, x)"
  by (auto simp: getnum_def digit_at_def list_all_length nth_append)

text \<open>After 14 digits the result depends on the rest only through the fraction and the zone.\<close>

lemma time_parse_tail:
  assumes "length pre = 14" "list_all is_digit pre"
  shows "(\<exists>e. \<forall>x. time_parse (pre @ x) = Inl e) \<or>
    (\<exists>g. \<forall>x. time_parse (pre @ x) = (case parse_fraction x of (ns, s6) \<Rightarrow>
       and_then (parse_zone s6) (\<lambda>(off, s7). if s7 \<noteq> [] then Inl ''extra text'' else g ns off)))"
proof -
  define y m d h i s where "y = take 4 pre" and "m = take 2 (drop 4 pre)" and "d = take 2 (drop 6 pre)"
    and "h = take 2 (drop 8 pre)" and "i = take 2 (drop 10 pre)" and "s = take 2 (drop 12 pre)"
  have pre: "pre = y @ m @ d @ h @ i @ s"
    using assms(1) unfolding y_def m_def d_def h_def i_def s_def
    by (simp add: take_add [symmetric] flip: append_assoc drop_drop)
  have len: "length y = 4" "length m = 2" "length d = 2" "length h = 2" "length i = 2" "length s = 2"
    using assms(1) by (simp_all add: y_def m_def d_def h_def i_def s_def)
  have dig: "list_all is_digit y" "list_all is_digit m" "list_all is_digit d" "list_all is_digit h"
    "list_all is_digit i" "list_all is_digit s" using assms(2) by (simp_all add: pre)
  have eq: "time_parse (pre @ x) =
      (if num m \<le> 0 \<or> 12 < num m then Inl ''month out of range''
       else if 24 \<le> num h then Inl ''hour out of range''
       else if 60 \<le> num i then Inl ''minute out of range''
       else if 60 \<le> num s then Inl ''second out of range''
       else (case parse_fraction x of (ns, s6) \<Rightarrow>
         and_then (parse_zone s6) (\<lambda>(off, s7). if s7 \<noteq> [] then Inl ''extra text'' else
           (if num d < 1 \<or> num d > days_in (num m) (num y) then Inl ''day out of range''
            else Inr (date_nanos (num y) (num m) (num d) (num h) (num i) (num s) ns - off * 1000000000)))))" for x
    using len dig getnum_two [OF len(2) dig(2)] getnum_two [OF len(3) dig(3)] getnum_two [OF len(4) dig(4)]
      getnum_two [OF len(5) dig(5)] getnum_two [OF len(6) dig(6)]
    by (simp add: time_parse_def pre Let_def)
  show ?thesis
  proof (cases "num m \<le> 0 \<or> 12 < num m \<or> 24 \<le> num h \<or> 60 \<le> num i \<or> 60 \<le> num s")
    case True
    then have "\<forall>x. time_parse (pre @ x) =
      Inl (if num m \<le> 0 \<or> 12 < num m then ''month out of range''
       else if 24 \<le> num h then ''hour out of range''
       else if 60 \<le> num i then ''minute out of range'' else ''second out of range'')"
      unfolding eq by (simp split: if_split) blast
    then show ?thesis by (intro disjI1) (rule exI)
  next
    case False
    then have "\<forall>x. time_parse (pre @ x) = (case parse_fraction x of (ns, s6) \<Rightarrow>
       and_then (parse_zone s6) (\<lambda>(off, s7). if s7 \<noteq> [] then Inl ''extra text'' else
         (\<lambda>ns off. if num d < 1 \<or> num d > days_in (num m) (num y) then Inl ''day out of range''
            else Inr (date_nanos (num y) (num m) (num d) (num h) (num i) (num s) ns - off * 1000000000)) ns off))"
      unfolding eq by simp
    then show ?thesis by (intro disjI2) (rule exI)
  qed
qed

lemma parse_fraction_digits:
  assumes "list_all is_digit f" "f \<noteq> []" "length f \<le> 9" "\<not> is_digit z" "c = CHR ''.'' \<or> c = CHR '',''"
  shows "parse_fraction (c # f @ z # x) = (num f * 10 ^ (9 - length f), z # x)"
proof -
  have t: "takeWhile is_digit (f @ z # x) = f" using assms by (simp add: list_all_iff takeWhile_tail)
  moreover have "is_digit ((f @ z # x) ! 0)" using assms(1,2) by (cases f) auto
  ultimately show ?thesis using assms(3,5) by (auto simp: parse_fraction_def Let_def)
qed

lemma index_of_single: "c \<notin> set p \<Longrightarrow> index_of (p @ c # t) [c] = Some (length p)"
  by (induction p) auto

lemma digit_not: "is_digit c \<Longrightarrow> c \<noteq> CHR ''.'' \<and> c \<notin> set ''Z+-''"
  by (auto simp: is_digit_def byte_def)

lemma fractional_part_digits:
  assumes "list_all is_digit pre" "list_all is_digit f"
  shows "fractional_part (pre @ CHR ''.'' # f @ ''Z'') = Some f"
proof -
  have "CHR ''.'' \<notin> set pre" using assms(1) digit_not by (auto simp: list_all_iff)
  then have "index_of (pre @ CHR ''.'' # f @ ''Z'') ''.'' = Some (length pre)" by (rule index_of_single)
  moreover have "takeWhile (\<lambda>c. c \<notin> set ''Z+-'') (f @ ''Z'') = f"
    using assms(2) digit_not by (subst takeWhile_append2) (auto simp: list_all_iff)
  ultimately show ?thesis by (simp add: fractional_part_def)
qed

subsection \<open>Properties\<close>

text \<open>Forgiving a trailing zero changes nothing but the warning.  If a GeneralizedTime with a
  fraction of at most eight digits in Zulu time reads as the instant \<open>t\<close>, then the same time with a
  zero appended to its fraction is accepted as the same instant, with the non-DER warning.\<close>

theorem gen_time_zero_forgiven:
  assumes "length pre = 14" "list_all is_digit pre" "list_all is_digit f" "f \<noteq> []" "length f \<le> 8"
    and "rv_tag raw = TagGeneralizedTime"
    and "time_parse (pre @ CHR ''.'' # f @ ''Z'') = Inr t"
  shows "parse_generalized_time (raw\<lparr>rv_bytes := pre @ CHR ''.'' # (f @ ''0'') @ ''Z''\<rparr>) =
    Inr (t, warn_non_minimal_gen_time)"
proof -
  have z: "\<not> is_digit (CHR ''Z'')" "is_digit (CHR ''0'')" by (simp_all add: is_digit_def byte_def)
  have f0: "list_all is_digit (f @ ''0'')" using assms(3) z by simp
  have "num (f @ ''0'') * 10 ^ (9 - length (f @ ''0'')) = num f * 10 ^ (9 - length f)"
  proof -
    have "(10 :: int) ^ (9 - length f) = 10 * 10 ^ (8 - length f)"
      using assms(5) by (simp add: Suc_diff_le flip: power_Suc)
    moreover have "byte (CHR ''0'') = 48" by (simp add: byte_def)
    ultimately show ?thesis by (simp add: num_append)
  qed
  then have "parse_fraction (CHR ''.'' # (f @ ''0'') @ ''Z'') = parse_fraction (CHR ''.'' # f @ ''Z'')"
    using parse_fraction_digits [OF f0 _ _ z(1), of "CHR ''.''" "[]"]
      parse_fraction_digits [OF assms(3,4) _ z(1), of "CHR ''.''" "[]"] assms(5) by simp
  then have "time_parse (pre @ CHR ''.'' # (f @ ''0'') @ ''Z'') = Inr t"
    using time_parse_tail [OF assms(1,2)] assms(7) by (metis Inl_Inr_False)
  moreover have "fractional_part (pre @ CHR ''.'' # (f @ ''0'') @ ''Z'') = Some (f @ ''0'')"
    by (rule fractional_part_digits [OF assms(2) f0])
  ultimately show ?thesis using assms(6)
    by (simp add: parse_generalized_time_def has_suffix_def Let_def)
qed

definition gen_time_value :: "string \<Rightarrow> raw_value" where
  "gen_time_value s = \<lparr>rv_class = 0, rv_tag = TagGeneralizedTime, rv_compound = False, rv_bytes = s, rv_full = []\<rparr>"

theorem gen_time_zero_forgiven_witness:
  "\<exists>t. parse_generalized_time (gen_time_value ''20260924081902.10Z'') = Inr (t, warn_non_minimal_gen_time)"
proof -
  have "time_parse (''20260924081902'' @ CHR ''.'' # ''1'' @ ''Z'') = Inr 63925834742100000000"
    by code_simp
  from gen_time_zero_forgiven [OF _ _ _ _ _ _ this, of "gen_time_value []"]
  show ?thesis by (simp add: gen_time_value_def is_digit_def byte_def TagGeneralizedTime_def)
qed

text \<open>Not every deviation is reported.  A comma instead of the point, and a numeric offset
  instead of Z, are read as the same instant as the DER form and carry no warning, even with a
  trailing zero in the fraction.\<close>

theorem gen_time_silent_deviations:
  "parse_generalized_time (gen_time_value ''20260924081902,10Z'') = Inr (63925834742100000000, [])
   \<and> parse_generalized_time (gen_time_value ''20260924081902.1+0000'') = Inr (63925834742100000000, [])
   \<and> parse_generalized_time (gen_time_value ''20260924081902.1Z'') = Inr (63925834742100000000, [])"
  by code_simp

end
