(* ===== verification/Ess.thy ===== *)
theory Ess
  imports Gentime
begin

text \<open>
  The signing-certificate binding, \<^verbatim>\<open>internal/tsp/ess.go\<close>.  The hash functions of package
  crypto are the parameter \<open>hash_of\<close>; \<open>None\<close> is a hash that is not linked into the binary.
\<close>

type_synonym hash_lib = "crypto_hash \<Rightarrow> (bytes \<Rightarrow> bytes) option"

definition oid_signing_certificate :: oid where
  "oid_signing_certificate = [1, 2, 840, 113549, 1, 9, 16, 2, 12]"

definition oid_signing_certificate_v2 :: oid where
  "oid_signing_certificate_v2 = [1, 2, 840, 113549, 1, 9, 16, 2, 47]"

record ess_result =
  ess_present :: bool
  ess_version :: string
  ess_matched :: bool
  ess_reason :: string

definition digest_cert :: "hash_lib \<Rightarrow> (bytes \<Rightarrow> bytes) \<Rightarrow> crypto_hash \<Rightarrow> bytes \<Rightarrow> string + bytes" where
  "digest_cert hash_of sha1 h der =
     (if h = SHA1 then Inr (sha1 der)
      else (case hash_of h of
        None \<Rightarrow> Inl (''hash '' @ hash_string h @ '' is not available in this build'')
      | Some f \<Rightarrow> Inr (f der)))"

text \<open>The certHash of one ESSCertID and the algorithm it was made with.\<close>

definition ess_hash_field :: "bytes \<Rightarrow> bool \<Rightarrow> string + crypto_hash \<times> raw_value" where
  "ess_hash_field der v2 =
     (let h = (if v2 then SHA256 else SHA1) in
      case unmarshal_raw der of
        Inl e \<Rightarrow> Inl ''cannot decode ESSCertID body''
      | Inr (field, rest) \<Rightarrow>
          (if v2 \<and> rv_tag field = TagSequence \<and> rv_compound field
           then (case unmarshal_oid (rv_bytes field) of
              Inl e \<Rightarrow> Inl ''cannot decode ESSCertID hash algorithm''
            | Inr alg \<Rightarrow>
               (case map_of digest_oids (oid_string alg) of
                  None \<Rightarrow> Inl (''ESSCertID uses unsupported hash algorithm '' @ oid_string alg)
                | Some known \<Rightarrow>
                   (case unmarshal_raw rest of
                      Inl e \<Rightarrow> Inl ''cannot decode ESSCertID certHash''
                    | Inr (field2, _) \<Rightarrow> Inr (known, field2))))
           else Inr (h, field)))"

definition ess_cert_id_matches ::
  "hash_lib \<Rightarrow> (bytes \<Rightarrow> bytes) \<Rightarrow> bytes \<Rightarrow> certificate \<Rightarrow> bool \<Rightarrow> string + bool" where
  "ess_cert_id_matches hash_of sha1 der signer v2 =
     and_then (ess_hash_field der v2) (\<lambda>(h, field).
       if rv_tag field \<noteq> TagOctetString then Inl ''ESSCertID certHash is not an OCTET STRING''
       else and_then (digest_cert hash_of sha1 h (cert_raw signer)) (\<lambda>got.
         Inr (rv_bytes field = got)))"

text \<open>The loop of \<^verbatim>\<open>matchESS\<close>: the outcome and the reason, after \<open>found\<close> entries.\<close>

function ess_walk ::
  "hash_lib \<Rightarrow> (bytes \<Rightarrow> bytes) \<Rightarrow> certificate \<Rightarrow> bool \<Rightarrow> int \<Rightarrow> bytes \<Rightarrow> bool \<times> string" where
  "ess_walk hash_of sha1 signer v2 found rest =
     (if rest = [] then
        (False, if found = 0 then ''SigningCertificate attribute contains no ESSCertID''
                else ''none of the '' @ int_dec found @ '' ESSCertID entries match the signer certificate'')
      else (case unmarshal_raw rest of
        Inl e \<Rightarrow> (False, ''cannot decode ESSCertID: '' @ asn1_error_text e)
      | Inr (cert_id, rest') \<Rightarrow>
         (case ess_cert_id_matches hash_of sha1 (rv_bytes cert_id) signer v2 of
            Inl e \<Rightarrow> (False, e)
          | Inr True \<Rightarrow> (True, [])
          | Inr False \<Rightarrow> ess_walk hash_of sha1 signer v2 (found + 1) rest')))"
  by pat_completeness auto
termination
  by (relation "measure (\<lambda>(_, _, _, _, _, rest). length rest)") (auto dest: unmarshal_raw_split(2))

declare ess_walk.simps [simp del]

definition match_ess ::
  "hash_lib \<Rightarrow> (bytes \<Rightarrow> bytes) \<Rightarrow> raw_value \<Rightarrow> certificate \<Rightarrow> string \<Rightarrow> bool \<Rightarrow> ess_result" where
  "match_ess hash_of sha1 raw signer version v2 =
     (let res = (\<lambda>m r. \<lparr>ess_present = True, ess_version = version, ess_matched = m, ess_reason = r\<rparr>) in
      if rv_tag raw \<noteq> TagSequence \<or> \<not> rv_compound raw
        then res False ''SigningCertificate attribute is not a SEQUENCE''
      else (case unmarshal_raw (rv_bytes raw) of
         Inl e \<Rightarrow> res False (''cannot decode ESSCertID sequence: '' @ asn1_error_text e)
       | Inr (certs_seq, _) \<Rightarrow>
           (if rv_tag certs_seq \<noteq> TagSequence \<or> \<not> rv_compound certs_seq
              then res False ''ESSCertID container is not a SEQUENCE''
            else (case ess_walk hash_of sha1 signer v2 0 (rv_bytes certs_seq) of (m, r) \<Rightarrow> res m r))))"

definition check_ess_binding ::
  "hash_lib \<Rightarrow> (bytes \<Rightarrow> bytes) \<Rightarrow> pkcs7 \<Rightarrow> certificate option \<Rightarrow> ess_result" where
  "check_ess_binding hash_of sha1 p7 signer_opt =
     (case signer_opt of
        None \<Rightarrow> \<lparr>ess_present = False, ess_version = [], ess_matched = False, ess_reason = ''no signer certificate''\<rparr>
      | Some signer \<Rightarrow>
         (case p7_signedAttribute p7 oid_signing_certificate_v2 of
            Some raw \<Rightarrow> match_ess hash_of sha1 raw signer ''V2'' True
          | None \<Rightarrow>
             (case p7_signedAttribute p7 oid_signing_certificate of
                Some raw \<Rightarrow> match_ess hash_of sha1 raw signer ''V1'' False
              | None \<Rightarrow> \<lparr>ess_present = False, ess_version = [], ess_matched = False, ess_reason = []\<rparr>)))"

subsection \<open>What a match proves\<close>

text \<open>\<open>binds d signer v2 der\<close>: an ESSCertID whose certHash is the digest of the certificate.\<close>

definition binds :: "(crypto_hash \<Rightarrow> bytes \<Rightarrow> string + bytes) \<Rightarrow> certificate \<Rightarrow> bool \<Rightarrow> bytes \<Rightarrow> bool" where
  "binds digest signer v2 der \<longleftrightarrow>
     (\<exists>h field. ess_hash_field der v2 = Inr (h, field) \<and> rv_tag field = TagOctetString
        \<and> digest h (cert_raw signer) = Inr (rv_bytes field))"

lemma ess_cert_id_matches_True:
  "ess_cert_id_matches hash_of sha1 der signer v2 = Inr True \<longleftrightarrow> binds (digest_cert hash_of sha1) signer v2 der"
  by (auto simp: ess_cert_id_matches_def binds_def and_then_Inr split: if_splits)

text \<open>The ESSCertIDs of a container, as far as they decode.\<close>

function ess_entries :: "bytes \<Rightarrow> bytes list" where
  "ess_entries rest =
     (if rest = [] then []
      else (case unmarshal_raw rest of
        Inl e \<Rightarrow> [] | Inr (v, rest') \<Rightarrow> rv_bytes v # ess_entries rest'))"
  by pat_completeness auto
termination
  by (relation "measure length") (auto dest: unmarshal_raw_split(2))

declare ess_entries.simps [simp del]

lemma ess_walk_matched:
  "fst (ess_walk hash_of sha1 signer v2 found rest) \<Longrightarrow>
   \<exists>der \<in> set (ess_entries rest). binds (digest_cert hash_of sha1) signer v2 der"
proof (induction hash_of sha1 signer v2 found rest rule: ess_walk.induct)
  case (1 hash_of sha1 signer v2 found rest)
  obtain v rest' b where r: "rest \<noteq> []" "unmarshal_raw rest = Inr (v, rest')"
    and m: "ess_cert_id_matches hash_of sha1 (rv_bytes v) signer v2 = Inr b"
    using "1.prems" by (subst (asm) ess_walk.simps) (auto split: if_splits sum.splits)
  have e: "ess_entries rest = rv_bytes v # ess_entries rest'"
    using r by (simp add: ess_entries.simps [of rest])
  show ?case
  proof (cases b)
    case True
    then show ?thesis using m e by (simp add: ess_cert_id_matches_True)
  next
    case False
    then have "fst (ess_walk hash_of sha1 signer v2 (found + 1) rest')"
      using "1.prems" r m by (simp add: ess_walk.simps [of _ _ _ _ _ rest])
    then show ?thesis using "1.IH" [OF r refl m] False e by simp
  qed
qed

text \<open>The container of the attribute that decided.\<close>

definition ess_container :: "raw_value \<Rightarrow> bytes \<Rightarrow> bool" where
  "ess_container raw body \<longleftrightarrow> rv_tag raw = TagSequence \<and> rv_compound raw \<and>
     (\<exists>seq rest. unmarshal_raw (rv_bytes raw) = Inr (seq, rest) \<and> rv_tag seq = TagSequence
        \<and> rv_compound seq \<and> body = rv_bytes seq)"

lemma match_ess_matched:
  assumes "ess_matched (match_ess hash_of sha1 raw signer version v2)"
  shows "\<exists>body. ess_container raw body \<and>
    (\<exists>der \<in> set (ess_entries body). binds (digest_cert hash_of sha1) signer v2 der)"
proof -
  obtain seq rest where s: "rv_tag raw = TagSequence" "rv_compound raw"
      "unmarshal_raw (rv_bytes raw) = Inr (seq, rest)" "rv_tag seq = TagSequence" "rv_compound seq"
    and w: "fst (ess_walk hash_of sha1 signer v2 0 (rv_bytes seq))"
    using assms by (auto simp: match_ess_def Let_def split: if_splits sum.splits prod.splits)
  then show ?thesis using ess_walk_matched [OF w] by (auto simp: ess_container_def)
qed

subsection \<open>Properties\<close>

text \<open>C35: a matched binding is a real one.  When the check answers Matched, the token has a signed
  SigningCertificateV2 attribute, or has none and has a SigningCertificate attribute, and one of the
  ESSCertIDs in its container carries, as an OCTET STRING, the digest of the certificate that signed,
  under the named algorithm or the default of the version.\<close>

theorem ess_binding_sound:
  assumes "ess_matched (check_ess_binding hash_of sha1 p7 s)"
  shows "\<exists>signer raw body der v2. s = Some signer \<and>
    p7_signedAttribute p7 (if v2 then oid_signing_certificate_v2 else oid_signing_certificate) = Some raw \<and>
    (v2 \<or> p7_signedAttribute p7 oid_signing_certificate_v2 = None) \<and>
    ess_container raw body \<and> der \<in> set (ess_entries body) \<and>
    binds (digest_cert hash_of sha1) signer v2 der"
proof -
  obtain signer where s: "s = Some signer"
    using assms by (auto simp: check_ess_binding_def split: option.splits)
  show ?thesis
  proof (cases "p7_signedAttribute p7 oid_signing_certificate_v2")
    case (Some raw)
    then have "ess_matched (match_ess hash_of sha1 raw signer ''V2'' True)"
      using assms s by (simp add: check_ess_binding_def)
    from match_ess_matched [OF this] show ?thesis using s Some by (metis (full_types))
  next
    case None
    then obtain raw where r: "p7_signedAttribute p7 oid_signing_certificate = Some raw"
        "ess_matched (match_ess hash_of sha1 raw signer ''V1'' False)"
      using assms s by (auto simp: check_ess_binding_def split: option.splits)
    from match_ess_matched [OF r(2)] show ?thesis using s None r(1) by (metis (full_types))
  qed
qed

text \<open>A token whose V2 attribute names the signer, with the identity for every hash.\<close>

definition demo_signer :: certificate where
  "demo_signer = \<lparr>cert_raw = ''ab'', cert_subject = ''CN=tsa'', cert_issuer = ''CN=ca'', cert_notAfter = 0,
     cert_extKeyUsage = [8], cert_unknownExtKeyUsage = [], cert_extensions = [([2, 5, 29, 37], True)]\<rparr>"

definition demo_attribute :: raw_value where
  "demo_attribute = \<lparr>rv_class = 0, rv_tag = 16, rv_compound = True,
     rv_bytes = tlv 48 (tlv 48 (tlv 4 ''ab'')), rv_full = []\<rparr>"

definition demo_token :: "bytes \<Rightarrow> pkcs7" where
  "demo_token content = \<lparr>p7_content = content, p7_certificates = [demo_signer],
     p7_signedAttribute = (\<lambda>i. if i = oid_signing_certificate_v2 then Some demo_attribute else None),
     p7_onlySigner = Some demo_signer, p7_verifyWithOpts = (\<lambda>_. None)\<rparr>"

lemma demo_matched:
  "check_ess_binding (\<lambda>_. Some id) id (demo_token c) (Some demo_signer) =
     \<lparr>ess_present = True, ess_version = ''V2'', ess_matched = True, ess_reason = []\<rparr>"
proof -
  have "match_ess (\<lambda>_. Some id) id demo_attribute demo_signer ''V2'' True =
      \<lparr>ess_present = True, ess_version = ''V2'', ess_matched = True, ess_reason = []\<rparr>"
    by code_simp
  then show ?thesis by (simp add: check_ess_binding_def demo_token_def)
qed

theorem ess_binding_sound_witness:
  "\<exists>raw body der v2. ess_container raw body \<and> der \<in> set (ess_entries body) \<and>
    binds (digest_cert (\<lambda>_. Some id) id) demo_signer v2 der"
  using ess_binding_sound [of "\<lambda>_. Some id" id "demo_token []" "Some demo_signer"]
  by (auto simp: demo_matched)

end
