(* ===== verification/Request.thy ===== *)
theory Request
  imports Gentime
begin

text \<open>
  Building timestamp queries, \<^verbatim>\<open>internal/tsp/request.go\<close>.  Randomness is an argument: the
  payload that \<^verbatim>\<open>rand.Read\<close> delivers and the draws of \<^verbatim>\<open>rand.Int\<close>.
  \<^verbatim>\<open>timestamp.CreateRequest\<close> and the hash functions are parameters.
\<close>

definition content_type_request :: string where
  "content_type_request = ''application/timestamp-query''"

definition content_type_response :: string where
  "content_type_response = ''application/timestamp-reply''"

definition nonce_bits :: nat where "nonce_bits = 128"

definition nonce_max :: int where "nonce_max = 2 ^ nonce_bits"

record request =
  rq_der :: bytes
  rq_nonce :: int
  rq_hashAlgorithm :: crypto_hash
  rq_imprint :: bytes

record builder =
  bd_hashAlg :: crypto_hash
  bd_payloadSize :: int
  bd_certReq :: bool
  bd_policyOID :: "oid option"

record builder_options =
  bo_hashName :: string
  bo_payloadSize :: int
  bo_certReq :: bool
  bo_policyOID :: string

definition hash_by_name :: "string \<Rightarrow> string + crypto_hash" where
  "hash_by_name name =
     (let n = to_lower (trim_space name) in
      if n \<in> {''sha256'', ''sha-256'', []} then Inr SHA256
      else if n \<in> {''sha384'', ''sha-384''} then Inr SHA384
      else if n \<in> {''sha512'', ''sha-512''} then Inr SHA512
      else if n \<in> {''sha1'', ''sha-1''} then Inl ''sha1 is not accepted; it is not collision resistant''
      else Inl (''unsupported hash algorithm '' @ go_quote name @ '' (use sha256, sha384 or sha512)''))"

text \<open>\<^verbatim>\<open>strconv.Atoi\<close>: an optional sign and digits, in the range of an int.\<close>

definition atoi :: "string \<Rightarrow> int option" where
  "atoi s =
     (let neg = (s \<noteq> [] \<and> hd s = CHR ''-'');
          ds = (if s \<noteq> [] \<and> (hd s = CHR ''-'' \<or> hd s = CHR ''+'') then tl s else s);
          v = (if neg then - num ds else num ds)
      in if ds = [] \<or> \<not> list_all is_digit ds then None
         else if in_i64 v then Some v else None)"

fun oid_arcs :: "string list \<Rightarrow> int list option" where
  "oid_arcs [] = Some []"
| "oid_arcs (p # ps) =
     (case atoi p of
        None \<Rightarrow> None
      | Some v \<Rightarrow> if v < 0 then None else map_option (\<lambda>vs. v # vs) (oid_arcs ps))"

definition parse_oid :: "string \<Rightarrow> string + oid" where
  "parse_oid s =
     (case oid_arcs (split_on CHR ''.'' s) of
        None \<Rightarrow> Inl (''invalid OID '' @ go_quote s)
      | Some oid \<Rightarrow> if length oid < 2 then Inl (''invalid OID '' @ go_quote s) else Inr oid)"

definition new_builder :: "builder_options \<Rightarrow> string + builder" where
  "new_builder opts =
     and_then (hash_by_name (bo_hashName opts)) (\<lambda>alg.
     if bo_payloadSize opts < 16
       then Inl (''payload size '' @ int_dec (bo_payloadSize opts) @ '' is too small'')
     else if \<not> bo_certReq opts
       then Inl ''cert_req must be true so the response carries the TSA certificate''
     else (let b = \<lparr>bd_hashAlg = alg, bd_payloadSize = bo_payloadSize opts,
                    bd_certReq = bo_certReq opts, bd_policyOID = None\<rparr> in
       if bo_policyOID opts \<noteq> []
       then and_then (parse_oid (bo_policyOID opts)) (\<lambda>oid. Inr (b\<lparr>bd_policyOID := Some oid\<rparr>))
       else Inr b))"

text \<open>\<^verbatim>\<open>newNonce\<close> draws until a draw is not zero; \<open>None\<close> is a loop that has not returned
  when the given draws are used up.\<close>

fun new_nonce :: "(string + int) list \<Rightarrow> (string + int) option" where
  "new_nonce [] = None"
| "new_nonce (Inl e # ds) = Some (Inl (''generate nonce: '' @ e))"
| "new_nonce (Inr n # ds) = (if n \<noteq> 0 then Some (Inr n) else new_nonce ds)"

definition build_request ::
  "(crypto_hash \<Rightarrow> bytes \<Rightarrow> bytes) \<Rightarrow> (crypto_hash \<Rightarrow> bytes \<Rightarrow> bool \<Rightarrow> int \<Rightarrow> oid option \<Rightarrow> string + bytes) \<Rightarrow>
   builder \<Rightarrow> string + bytes \<Rightarrow> (string + int) list \<Rightarrow> (string + request) option" where
  "build_request hash create b payload draws =
     (case payload of
        Inl e \<Rightarrow> Some (Inl (''generate payload: '' @ e))
      | Inr pl \<Rightarrow>
         (let imprint = hash (bd_hashAlg b) pl in
          case new_nonce draws of
            None \<Rightarrow> None
          | Some (Inl e) \<Rightarrow> Some (Inl e)
          | Some (Inr nonce) \<Rightarrow>
             (case create (bd_hashAlg b) pl (bd_certReq b) nonce (bd_policyOID b) of
                Inl e \<Rightarrow> Some (Inl (''create timestamp request: '' @ e))
              | Inr der \<Rightarrow> Some (Inr \<lparr>rq_der = der, rq_nonce = nonce,
                  rq_hashAlgorithm = bd_hashAlg b, rq_imprint = imprint\<rparr>))))"

subsection \<open>Lemmas\<close>

lemma new_nonce_some:
  "new_nonce ds = Some (Inr n) \<longleftrightarrow>
     (\<exists>zs rest. ds = map Inr zs @ Inr n # rest \<and> n \<noteq> 0 \<and> list_all (\<lambda>z. z = 0) zs)"
proof (induction ds rule: new_nonce.induct)
  case (3 m ds)
  show ?case
  proof (cases "m = 0")
    case True
    have "(\<exists>zs rest. Inr m # ds = map Inr zs @ Inr n # rest \<and> n \<noteq> 0 \<and> list_all (\<lambda>z. z = 0) zs) \<longleftrightarrow>
        (\<exists>zs rest. ds = map Inr zs @ Inr n # rest \<and> n \<noteq> 0 \<and> list_all (\<lambda>z. z = 0) zs)"
    proof
      assume "\<exists>zs rest. Inr m # ds = map Inr zs @ Inr n # rest \<and> n \<noteq> 0 \<and> list_all (\<lambda>z. z = 0) zs"
      then obtain zs rest where z: "Inr m # ds = map Inr zs @ Inr n # rest" "n \<noteq> 0" "list_all (\<lambda>z. z = 0) zs"
        by blast
      then obtain z zs' where "zs = z # zs'" using True by (cases zs) auto
      then show "\<exists>zs rest. ds = map Inr zs @ Inr n # rest \<and> n \<noteq> 0 \<and> list_all (\<lambda>z. z = 0) zs"
        using z by auto
    next
      assume "\<exists>zs rest. ds = map Inr zs @ Inr n # rest \<and> n \<noteq> 0 \<and> list_all (\<lambda>z. z = 0) zs"
      then obtain zs rest where "ds = map Inr zs @ Inr n # rest" "n \<noteq> 0" "list_all (\<lambda>z. z = 0) zs" by blast
      then show "\<exists>zs rest. Inr m # ds = map Inr zs @ Inr n # rest \<and> n \<noteq> 0 \<and> list_all (\<lambda>z. z = 0) zs"
        using True by (intro exI [of _ "0 # zs"]) auto
    qed
    then show ?thesis using True 3 by simp
  next
    case False
    then show ?thesis by (auto intro: exI [of _ "[]"] simp: Cons_eq_append_conv)
  qed
qed (auto simp: Cons_eq_append_conv Cons_eq_map_conv)

subsection \<open>Properties\<close>

text \<open>C38: a built request is fresh and bound to its payload: its nonce is the first draw that is not
  zero, so it is at least 1 and below 2^128, its imprint is the hash of the payload drawn for it, and the
  encoded query was made from the same hash, payload, certReq flag, nonce and policy; zero draws are
  skipped, and a failing source of randomness or encoder fails the build instead of reusing anything.\<close>

theorem build_request_fresh:
  assumes "build_request hash create b payload draws = Some (Inr r)"
    and "\<forall>d \<in> set draws. \<forall>n. d = Inr n \<longrightarrow> 0 \<le> n \<and> n < nonce_max"
  shows "0 < rq_nonce r \<and> rq_nonce r < 2 ^ 128 \<and> rq_hashAlgorithm r = bd_hashAlg b
    \<and> (\<exists>pl zs rest. payload = Inr pl \<and> draws = map Inr zs @ Inr (rq_nonce r) # rest \<and> list_all (\<lambda>z. z = 0) zs
        \<and> rq_imprint r = hash (bd_hashAlg b) pl
        \<and> create (bd_hashAlg b) pl (bd_certReq b) (rq_nonce r) (bd_policyOID b) = Inr (rq_der r))"
proof -
  obtain pl where pl: "payload = Inr pl" using assms(1) by (auto simp: build_request_def split: sum.splits)
  obtain n where n: "new_nonce draws = Some (Inr n)"
      and c: "create (bd_hashAlg b) pl (bd_certReq b) n (bd_policyOID b) = Inr (rq_der r)"
      and r: "rq_nonce r = n" "rq_hashAlgorithm r = bd_hashAlg b" "rq_imprint r = hash (bd_hashAlg b) pl"
    using assms(1) pl by (auto simp: build_request_def Let_def split: option.splits sum.splits)
  obtain zs rest where z: "draws = map Inr zs @ Inr n # rest" "n \<noteq> 0" "list_all (\<lambda>z. z = 0) zs"
    using n unfolding new_nonce_some by blast
  have "0 \<le> n \<and> n < nonce_max" using assms(2) z(1) by simp
  then show ?thesis using z r c pl by (auto simp: nonce_max_def nonce_bits_def)
qed

theorem build_request_fresh_witness:
  "\<exists>r. build_request (\<lambda>_. id) (\<lambda>_ _ _ _ _. Inr ''q'')
      \<lparr>bd_hashAlg = SHA256, bd_payloadSize = 32, bd_certReq = True, bd_policyOID = None\<rparr>
      (Inr ''data'') [Inr 0, Inr 7] = Some (Inr r) \<and> rq_nonce r = 7 \<and> rq_nonce r < 2 ^ 128"
proof -
  let ?r = "\<lparr>rq_der = ''q'', rq_nonce = 7, rq_hashAlgorithm = SHA256, rq_imprint = ''data''\<rparr>"
  have b: "build_request (\<lambda>_. id) (\<lambda>_ _ _ _ _. Inr ''q'')
      \<lparr>bd_hashAlg = SHA256, bd_payloadSize = 32, bd_certReq = True, bd_policyOID = None\<rparr>
      (Inr ''data'') [Inr 0, Inr 7] = Some (Inr ?r)"
    by (simp add: build_request_def)
  show ?thesis using build_request_fresh [OF b] b by (auto simp: nonce_max_def nonce_bits_def)
qed

text \<open>\<^verbatim>\<open>NewBuilder\<close> accepts exactly the options it can honour: a name of one of the
  three SHA-2 hashes or none, a payload of at least 16 bytes, the certificate requested, and a policy
  that is empty or a well-formed identifier; the builder carries those values unchanged.\<close>

theorem new_builder_iff:
  "new_builder opts = Inr b \<longleftrightarrow>
     hash_by_name (bo_hashName opts) = Inr (bd_hashAlg b) \<and> 16 \<le> bo_payloadSize opts \<and> bo_certReq opts
     \<and> bd_payloadSize b = bo_payloadSize opts \<and> bd_certReq b
     \<and> (if bo_policyOID opts = [] then bd_policyOID b = None
        else \<exists>o0. parse_oid (bo_policyOID opts) = Inr o0 \<and> bd_policyOID b = Some o0)"
  by (cases b) (auto simp: new_builder_def and_then_Inr Let_def)

end
