(* ===== verification/Verify.thy ===== *)
theory Verify
  imports Ess Request Go_Time
begin

text \<open>
  The acceptance chain, \<^verbatim>\<open>internal/tsp/verify.go\<close>.  The libraries the verifier uses are
  gathered in \<open>tsp_lib\<close>: the CMS parser (whose result carries the answers of its own methods, among
  them \<^verbatim>\<open>VerifyWithOpts\<close>), \<^verbatim>\<open>mime.ParseMediaType\<close> and the hash functions.
\<close>

record tsp_lib =
  lib_pkcs7_parse :: "bytes \<Rightarrow> string + pkcs7"
  lib_media_type :: "string \<Rightarrow> string option"
  lib_hash :: hash_lib
  lib_sha1 :: "bytes \<Rightarrow> bytes"

definition OIDExtKeyUsage :: oid where "OIDExtKeyUsage = [2, 5, 29, 37]"

text \<open>\<^verbatim>\<open>x509.ExtKeyUsageTimeStamping\<close>\<close>

definition ExtKeyUsageTimeStamping :: int where "ExtKeyUsageTimeStamping = 8"

record verifier =
  vf_roots :: "certificate list"
  vf_maxClockSkew :: duration
  vf_requireESS :: bool
  vf_allowGrantedWithMods :: bool

record verify_result =
  vr_status :: status_info
  vr_genTime :: time
  vr_accuracy :: duration
  vr_serialNumber :: int
  vr_policy :: string
  vr_signerSubject :: string
  vr_signerIssuer :: string
  vr_signerExpiry :: time
  vr_ess :: ess_result
  vr_clockSkew :: duration
  vr_warnings :: "string list"

record http_response =
  hr_statusCode :: int
  hr_contentType :: string
  hr_body :: bytes
  hr_sentAt :: time
  hr_receivedAt :: time

definition new_verifier :: "certificate list option \<Rightarrow> duration \<Rightarrow> bool \<Rightarrow> string + verifier" where
  "new_verifier roots maxSkew requireESS =
     (case roots of
        None \<Rightarrow> Inl ''no trust anchors configured; the TSA certificate chain could not be verified''
      | Some rs \<Rightarrow>
         (if maxSkew \<le> 0 then Inl ''max clock skew must be greater than zero''
          else Inr \<lparr>vf_roots = rs, vf_maxClockSkew = maxSkew, vf_requireESS = requireESS,
                    vf_allowGrantedWithMods = True\<rparr>))"

definition status_accepted :: "verifier \<Rightarrow> pki_status \<Rightarrow> bool" where
  "status_accepted v s \<longleftrightarrow>
     (if s = StatusGranted then True else s = StatusGrantedWithMods \<and> vf_allowGrantedWithMods v)"

definition check_skew :: "verifier \<Rightarrow> time \<Rightarrow> time \<Rightarrow> time \<Rightarrow> duration \<times> class_error option" where
  "check_skew v genTime sentAt receivedAt =
     (let decide = (\<lambda>skew. if skew > vf_maxClockSkew v
            then (skew, Some (new_error ClockSkewExceeded
              (''genTime is '' @ duration_string (duration_round skew millisecond) @
               '' outside the request window (limit '' @ duration_string (vf_maxClockSkew v) @
               ''); check NTP on both ends'')))
            else (skew, None))
      in if genTime < sentAt then decide (time_sub sentAt genTime)
         else if genTime > receivedAt then decide (time_sub genTime receivedAt)
         else (0, None))"

fun find_eku_extension :: "(oid \<times> bool) list \<Rightarrow> bool option" where
  "find_eku_extension [] = None"
| "find_eku_extension ((i, critical) # es) =
     (if i = OIDExtKeyUsage then Some critical else find_eku_extension es)"

definition check_time_stamping_eku :: "certificate \<Rightarrow> class_error option" where
  "check_time_stamping_eku cert =
     (if \<not> list_ex (\<lambda>e. e = ExtKeyUsageTimeStamping) (cert_extKeyUsage cert)
        then Some (new_error UntrustedCert
          ''TSA certificate does not carry the timeStamping extended key usage'')
      else if length (cert_extKeyUsage cert) \<noteq> 1 \<or> length (cert_unknownExtKeyUsage cert) > 0
        then Some (new_error UntrustedCert
          ''TSA certificate carries extended key usages besides timeStamping, which RFC 3161 forbids'')
      else (case find_eku_extension (cert_extensions cert) of
          Some critical \<Rightarrow>
            (if \<not> critical then Some (new_error UntrustedCert
               ''the extended key usage extension of the TSA certificate is not marked critical'')
             else None)
        | None \<Rightarrow> Some (new_error UntrustedCert ''TSA certificate has no extended key usage extension'')))"

definition check_content_type :: "tsp_lib \<Rightarrow> string \<Rightarrow> class_error option" where
  "check_content_type lib raw =
     (if raw = [] then Some (new_error InvalidContentType ''response has no Content-Type header'')
      else (case lib_media_type lib raw of
        None \<Rightarrow> Some (new_error InvalidContentType (''unparsable Content-Type '' @ go_quote (sanitize raw)))
      | Some mt \<Rightarrow>
          (if \<not> equal_fold mt content_type_response
           then Some (new_error InvalidContentType
             (''Content-Type '' @ go_quote (sanitize mt) @ '' is not '' @ content_type_response))
           else None)))"

definition classify_parse_error :: "string \<Rightarrow> class_error" where
  "classify_parse_error msg =
     (if contains msg ''digest'' \<or> contains msg ''signature'' \<or> contains msg ''verification''
         \<or> contains msg ''crypto/rsa'' then new_error InvalidSignature msg
      else if contains msg ''x509:'' then new_error UntrustedCert msg
      else new_error MalformedResponse msg)"

definition pkcs7_chain_failure :: string where
  "pkcs7_chain_failure = ''failed to verify certificate chain''"

definition pkcs7_validity_failure :: string where
  "pkcs7_validity_failure = ''outside of certificate validity''"

definition classify_verify_error :: "goerr \<Rightarrow> class_error" where
  "classify_verify_error e =
     (let msg = err_text e in
      if is_kind KUnknownAuthority e \<or> is_kind KCertInvalid e
         \<or> contains msg pkcs7_chain_failure \<or> contains msg pkcs7_validity_failure
      then new_error UntrustedCert msg else new_error InvalidSignature msg)"

text \<open>Step 7b: the warnings it adds, or the error.\<close>

definition check_ess :: "verifier \<Rightarrow> ess_result \<Rightarrow> class_error + string list" where
  "check_ess v ess =
     (if ess_present ess \<and> \<not> ess_matched ess
        then Inl (new_error InvalidSignature (''SigningCertificate'' @ ess_version ess @
          '' attribute does not bind the signer certificate: '' @ ess_reason ess))
      else if \<not> ess_present ess \<and> vf_requireESS v
        then Inl (new_error InvalidSignature
          ''token has no SigningCertificate(V2) attribute and require_ess is set'')
      else if \<not> ess_present ess
        then Inr [''token has no SigningCertificate(V2) attribute; signer binding could not be checked'']
      else Inr [])"

definition verify_options_for :: "verifier \<Rightarrow> timestamp \<Rightarrow> verify_options" where
  "verify_options_for v ts = \<lparr>vo_roots = vf_roots v, vo_intermediates = ts_certificates ts,
     vo_currentTime = ts_time ts, vo_keyUsages = [ExtKeyUsageTimeStamping]\<rparr>"

text \<open>Steps 5 to 9 on a parsed token.\<close>

definition verify_token ::
  "tsp_lib \<Rightarrow> verifier \<Rightarrow> request \<Rightarrow> http_response \<Rightarrow> status_info \<Rightarrow> string list \<Rightarrow> timestamp \<Rightarrow> pkcs7 \<Rightarrow>
   verify_result option \<times> class_error option" where
  "verify_token lib v req resp status warnings ts p7 =
     (let reject = (\<lambda>e. (None, Some e)) in
      case ts_nonce ts of
        None \<Rightarrow> reject (new_error InvalidNonce ''response contains no nonce'')
      | Some nonce \<Rightarrow>
         (if nonce \<noteq> rq_nonce req
            then reject (new_error InvalidNonce ''response nonce does not match the request nonce'')
          else if ts_hashAlgorithm ts \<noteq> rq_hashAlgorithm req
            then reject (new_error InvalidImprint (''response hash algorithm '' @ hash_string (ts_hashAlgorithm ts) @
              '' does not match request '' @ hash_string (rq_hashAlgorithm req)))
          else if ts_hashedMessage ts \<noteq> rq_imprint req
            then reject (new_error InvalidImprint ''response message imprint does not match the request'')
          else if length (ts_certificates ts) = 0
            then reject (new_error UntrustedCert
              ''response carries no TSA certificate although certReq was true; the signature cannot be verified'')
          else (case p7_onlySigner p7 of
             None \<Rightarrow> reject (new_error InvalidSignature ''token does not have exactly one signer'')
           | Some signer \<Rightarrow>
              (let ess = check_ess_binding (lib_hash lib) (lib_sha1 lib) p7 (Some signer) in
               case check_ess v ess of
                 Inl e \<Rightarrow> reject e
               | Inr added \<Rightarrow>
                  (case p7_verifyWithOpts p7 (verify_options_for v ts) of
                     Some e \<Rightarrow> reject (classify_verify_error e)
                   | None \<Rightarrow>
                      (case check_time_stamping_eku signer of
                         Some e \<Rightarrow> reject e
                       | None \<Rightarrow>
                          (let (skew, e) = check_skew v (ts_time ts) (hr_sentAt resp) (hr_receivedAt resp)
                           in (Some \<lparr>vr_status = status, vr_genTime = ts_time ts, vr_accuracy = ts_accuracy ts,
                                 vr_serialNumber = ts_serialNumber ts, vr_policy = oid_string (ts_policy ts),
                                 vr_signerSubject = cert_subject signer, vr_signerIssuer = cert_issuer signer,
                                 vr_signerExpiry = cert_notAfter signer, vr_ess = ess, vr_clockSkew = skew,
                                 vr_warnings = warnings @ added\<rparr>, e))))))))"

text \<open>\<^verbatim>\<open>Verify\<close>; the outer \<open>None\<close> is the panic of \<open>from_http_status\<close>.\<close>

definition verify ::
  "tsp_lib \<Rightarrow> verifier \<Rightarrow> request \<Rightarrow> http_response \<Rightarrow> (verify_result option \<times> class_error option) option" where
  "verify lib v req resp =
     (case from_http_status (hr_statusCode resp) of
        None \<Rightarrow> None
      | Some (Some e) \<Rightarrow> Some (None, Some e)
      | Some None \<Rightarrow> Some
         (case check_content_type lib (hr_contentType resp) of
            Some e \<Rightarrow> (None, Some e)
          | None \<Rightarrow>
             (case parse_status_info (hr_body resp) of
                Inl e \<Rightarrow> (None, Some (new_error MalformedResponse e))
              | Inr status \<Rightarrow>
                 (if \<not> status_accepted v (si_status status)
                    then (None, Some (new_sub TSPRejection (sub_category status)
                      (''PKIStatus='' @ status_name (si_status status) @ '' statusString='' @
                       go_quote (si_statusString status))))
                  else if \<not> si_hasToken status
                    then (None, Some (new_error MalformedResponse
                      ''PKIStatus is granted but the response carries no timeStampToken''))
                  else (case parse_response_tolerantly (lib_pkcs7_parse lib) (hr_body resp) of
                     Inl e \<Rightarrow> (None, Some (classify_parse_error e))
                   | Inr (ts, p7, warning) \<Rightarrow>
                      verify_token lib v req resp status
                        ((if si_status status = StatusGrantedWithMods
                          then [''PKIStatus is grantedWithMods: the TSA modified the request''] else []) @
                         (if warning \<noteq> [] then [warning] else []))
                        ts p7)))))"

subsection \<open>The checks one by one\<close>

lemma check_skew_None:
  assumes "vf_maxClockSkew v < 2 ^ 63 - 1" "0 \<le> vf_maxClockSkew v" "s \<le> r"
  shows "snd (check_skew v g s r) = None \<longleftrightarrow> s - vf_maxClockSkew v \<le> g \<and> g \<le> r + vf_maxClockSkew v"
  using assms by (auto simp: check_skew_def Let_def time_sub_def)

lemma check_eku_None:
  "check_time_stamping_eku c = None \<longleftrightarrow>
     cert_extKeyUsage c = [ExtKeyUsageTimeStamping] \<and> cert_unknownExtKeyUsage c = [] \<and>
     find_eku_extension (cert_extensions c) = Some True"
  by (cases "cert_extKeyUsage c"; cases "find_eku_extension (cert_extensions c)")
    (auto simp: check_time_stamping_eku_def)

lemma check_content_type_None:
  "check_content_type lib raw = None \<longleftrightarrow>
     raw \<noteq> [] \<and> (\<exists>mt. lib_media_type lib raw = Some mt \<and> equal_fold mt content_type_response)"
  by (auto simp: check_content_type_def split: option.splits)

lemma check_ess_Inr:
  "(\<exists>w. check_ess v ess = Inr w) \<longleftrightarrow> (if ess_present ess then ess_matched ess else \<not> vf_requireESS v)"
  by (auto simp: check_ess_def)

lemma from_http_status_nil: "from_http_status code = Some None \<longleftrightarrow> 200 \<le> code \<and> code < 300"
  by (auto simp: from_http_status_def)

text \<open>What a token must satisfy, and what a response must.\<close>

definition token_ok :: "tsp_lib \<Rightarrow> verifier \<Rightarrow> request \<Rightarrow> http_response \<Rightarrow> timestamp \<Rightarrow> pkcs7 \<Rightarrow> bool" where
  "token_ok lib v req resp ts p7 \<longleftrightarrow>
     ts_nonce ts = Some (rq_nonce req) \<and> ts_hashAlgorithm ts = rq_hashAlgorithm req
     \<and> ts_hashedMessage ts = rq_imprint req \<and> ts_certificates ts \<noteq> []
     \<and> p7_verifyWithOpts p7 (verify_options_for v ts) = None
     \<and> hr_sentAt resp - vf_maxClockSkew v \<le> ts_time ts
     \<and> ts_time ts \<le> hr_receivedAt resp + vf_maxClockSkew v
     \<and> (case p7_onlySigner p7 of
          None \<Rightarrow> False
        | Some signer \<Rightarrow>
            (let ess = check_ess_binding (lib_hash lib) (lib_sha1 lib) p7 (Some signer)
             in if ess_present ess then ess_matched ess else \<not> vf_requireESS v)
            \<and> cert_extKeyUsage signer = [ExtKeyUsageTimeStamping] \<and> cert_unknownExtKeyUsage signer = []
            \<and> find_eku_extension (cert_extensions signer) = Some True)"

definition acceptable :: "tsp_lib \<Rightarrow> verifier \<Rightarrow> request \<Rightarrow> http_response \<Rightarrow> bool" where
  "acceptable lib v req resp \<longleftrightarrow>
     200 \<le> hr_statusCode resp \<and> hr_statusCode resp < 300
     \<and> hr_contentType resp \<noteq> []
     \<and> (case lib_media_type lib (hr_contentType resp) of
          None \<Rightarrow> False | Some mt \<Rightarrow> equal_fold mt content_type_response)
     \<and> (case parse_status_info (hr_body resp) of
          Inl e \<Rightarrow> False
        | Inr si \<Rightarrow> status_accepted v (si_status si) \<and> si_hasToken si)
     \<and> (case parse_response_tolerantly (lib_pkcs7_parse lib) (hr_body resp) of
          Inl e \<Rightarrow> False
        | Inr (ts, p7, w) \<Rightarrow> token_ok lib v req resp ts p7)"

lemma verify_token_gate:
  assumes "\<not> (ts_nonce ts = Some (rq_nonce req) \<and> ts_hashAlgorithm ts = rq_hashAlgorithm req
     \<and> ts_hashedMessage ts = rq_imprint req \<and> ts_certificates ts \<noteq> [])"
  shows "\<exists>e. verify_token lib v req resp si ws ts p7 = (None, Some e) \<and>
     e_class e \<in> {InvalidNonce, InvalidImprint, UntrustedCert}"
  using assms by (cases "ts_nonce ts") (simp_all add: verify_token_def Let_def new_error_def)

lemma verify_token_step:
  assumes "ts_nonce ts = Some (rq_nonce req)" "ts_hashAlgorithm ts = rq_hashAlgorithm req"
    "ts_hashedMessage ts = rq_imprint req" "ts_certificates ts \<noteq> []"
    and signer: "p7_onlySigner p7 = Some signer"
    and ess: "ess = check_ess_binding (lib_hash lib) (lib_sha1 lib) p7 (Some signer)"
  shows "snd (verify_token lib v req resp si ws ts p7) =
    (case check_ess v ess of Inl e \<Rightarrow> Some e | Inr w \<Rightarrow>
      (case p7_verifyWithOpts p7 (verify_options_for v ts) of Some e \<Rightarrow> Some (classify_verify_error e)
       | None \<Rightarrow> (case check_time_stamping_eku signer of Some e \<Rightarrow> Some e
          | None \<Rightarrow> snd (check_skew v (ts_time ts) (hr_sentAt resp) (hr_receivedAt resp)))))"
  using assms(1-4) unfolding ess
  by (simp add: verify_token_def Let_def signer split_beta split: sum.split option.split)

lemma verify_token_ok:
  assumes "vf_maxClockSkew v < 2 ^ 63 - 1" "0 \<le> vf_maxClockSkew v" "hr_sentAt resp \<le> hr_receivedAt resp"
  shows "snd (verify_token lib v req resp si ws ts p7) = None \<longleftrightarrow> token_ok lib v req resp ts p7"
proof (cases "ts_nonce ts = Some (rq_nonce req) \<and> ts_hashAlgorithm ts = rq_hashAlgorithm req
     \<and> ts_hashedMessage ts = rq_imprint req \<and> ts_certificates ts \<noteq> []")
  case False
  then show ?thesis using verify_token_gate [OF False, of lib v resp si ws p7]
    by (auto simp: token_ok_def)
next
  case True
  show ?thesis
  proof (cases "p7_onlySigner p7")
    case None
    then show ?thesis using True by (simp add: verify_token_def token_ok_def Let_def)
  next
    case (Some signer)
    define ess where "ess = check_ess_binding (lib_hash lib) (lib_sha1 lib) p7 (Some signer)"
    have st: "snd (verify_token lib v req resp si ws ts p7) = None \<longleftrightarrow>
      (\<exists>w. check_ess v ess = Inr w) \<and> p7_verifyWithOpts p7 (verify_options_for v ts) = None
       \<and> check_time_stamping_eku signer = None
       \<and> snd (check_skew v (ts_time ts) (hr_sentAt resp) (hr_receivedAt resp)) = None"
      using True by (subst verify_token_step [OF _ _ _ _ Some ess_def])
        (simp_all split: sum.split option.split)
    show ?thesis
      unfolding st check_ess_Inr check_eku_None check_skew_None [OF assms]
      using True Some by (auto simp: token_ok_def Let_def ess_def [symmetric])
  qed
qed

lemma verify_token_result:
  "verify_token lib v req resp si ws ts p7 = (r, None) \<Longrightarrow> r \<noteq> None"
  by (auto simp: verify_token_def Let_def split: option.splits sum.splits prod.splits if_splits)

lemma verify_token_class:
  "verify_token lib v req resp si ws ts p7 = (r, Some e) \<Longrightarrow>
   e_class e \<in> {InvalidNonce, InvalidImprint, UntrustedCert, InvalidSignature, ClockSkewExceeded} \<and>
   (r \<noteq> None \<longleftrightarrow> e_class e = ClockSkewExceeded)"
  by (auto simp: verify_token_def Let_def check_ess_def classify_verify_error_def check_skew_def
      check_time_stamping_eku_def split: option.splits sum.splits prod.splits if_splits)

lemma verify_token_accepts:
  assumes "vf_maxClockSkew v < 2 ^ 63 - 1" "0 \<le> vf_maxClockSkew v" "hr_sentAt resp \<le> hr_receivedAt resp"
  shows "(\<exists>res. verify_token lib v req resp si ws ts p7 = (Some res, None)) \<longleftrightarrow> token_ok lib v req resp ts p7"
proof -
  obtain r e where vt: "verify_token lib v req resp si ws ts p7 = (r, e)"
    by (cases "verify_token lib v req resp si ws ts p7")
  have "e = None \<longleftrightarrow> token_ok lib v req resp ts p7"
    using verify_token_ok [OF assms, of lib req si ws ts p7] vt by simp
  moreover have "e = None \<Longrightarrow> r \<noteq> None" using verify_token_result [of lib v req resp si ws ts p7 r] vt by simp
  ultimately show ?thesis using vt by auto
qed

subsection \<open>Properties\<close>

text \<open>C23: a response is accepted exactly if every check of RFC 3161 the verifier claims holds: status
  2xx, the timestamp-reply media type, a granted status with a token, the nonce and the imprint of the
  request echoed, exactly one signer whose certificate the token binds (or no binding where none is
  required), a signature and chain valid under the trust anchors at genTime, timeStamping as the only
  and critical extended key usage, and genTime inside the request window widened by the tolerated
  skew.  No check can be skipped, and a success always comes with a result.\<close>

theorem verify_accepts_iff:
  assumes "vf_maxClockSkew v < 2 ^ 63 - 1" "0 \<le> vf_maxClockSkew v" "hr_sentAt resp \<le> hr_receivedAt resp"
  shows "(\<exists>res. verify lib v req resp = Some (Some res, None)) \<longleftrightarrow> acceptable lib v req resp"
proof (cases "200 \<le> hr_statusCode resp \<and> hr_statusCode resp < 300 \<and> check_content_type lib (hr_contentType resp) = None")
  case False
  then show ?thesis using check_content_type_None [of lib "hr_contentType resp"]
    from_http_status_nil [of "hr_statusCode resp"]
    by (auto simp: verify_def acceptable_def split: option.splits)
next
  case True
  then have pre: "from_http_status (hr_statusCode resp) = Some None" "hr_contentType resp \<noteq> []"
      "case lib_media_type lib (hr_contentType resp) of None \<Rightarrow> False | Some mt \<Rightarrow> equal_fold mt content_type_response"
    using check_content_type_None [of lib "hr_contentType resp"] from_http_status_nil [of "hr_statusCode resp"]
    by auto
  show ?thesis
  proof (cases "parse_response_tolerantly (lib_pkcs7_parse lib) (hr_body resp)")
    case (Inr r)
    then obtain ts p7 w where r: "r = (ts, p7, w)" by (cases r)
    show ?thesis using pre True Inr r verify_token_accepts [OF assms, of lib req _ _ ts p7]
      by (simp add: verify_def acceptable_def split: sum.split)
  qed (use pre True in \<open>auto simp: verify_def acceptable_def split: sum.splits\<close>)
qed

text \<open>C24: a rejected response is classified as one of eleven classes, all of which count against the
  provider, and the result of the checks is handed out beside an error in exactly one case, the clock
  skew: every other failure yields no verified data.\<close>

theorem verify_error_classes:
  assumes "verify lib v req resp = Some (r, Some e)"
  shows "e_class e \<in> {HTTP4xx, HTTP5xx, UnknownError, InvalidContentType, MalformedResponse, TSPRejection,
           InvalidNonce, InvalidImprint, UntrustedCert, InvalidSignature, ClockSkewExceeded}
    \<and> counts_against_provider (e_class e) \<and> is_failure (e_class e)
    \<and> (r = None \<longleftrightarrow> e_class e \<noteq> ClockSkewExceeded)"
proof -
  have http: "e_class x \<in> {HTTP4xx, HTTP5xx, UnknownError}" if "from_http_status c = Some (Some x)" for c x
    using that by (auto simp: from_http_status_def split: if_splits option.splits)
  have ct: "e_class x = InvalidContentType" if "check_content_type lib c = Some x" for c x
    using that by (auto simp: check_content_type_def split: if_splits option.splits)
  have pe: "e_class (classify_parse_error m) \<in> {InvalidSignature, UntrustedCert, MalformedResponse}" for m
    by (simp add: classify_parse_error_def)
  consider
      (h) "from_http_status (hr_statusCode resp) = Some (Some e)" "r = None"
    | (c) "check_content_type lib (hr_contentType resp) = Some e" "r = None"
    | (m) "e_class e = MalformedResponse" "r = None"
    | (t) "e_class e = TSPRejection" "r = None"
    | (p) m where "e = classify_parse_error m" "r = None"
    | (v) si ws ts p7 where "verify_token lib v req resp si ws ts p7 = (r, Some e)"
    using assms by (auto simp: verify_def split: option.splits sum.splits if_splits)
  then have "e_class e \<in> {HTTP4xx, HTTP5xx, UnknownError, InvalidContentType, MalformedResponse, TSPRejection,
           InvalidNonce, InvalidImprint, UntrustedCert, InvalidSignature, ClockSkewExceeded}
     \<and> (r = None \<longleftrightarrow> e_class e \<noteq> ClockSkewExceeded)"
  proof cases
    case h then show ?thesis using http by fastforce
  next
    case c then show ?thesis using ct by fastforce
  next
    case p then show ?thesis using pe [of m] by auto
  next
    case v then show ?thesis using verify_token_class [OF v] by auto
  qed auto
  then show ?thesis by (auto simp: counts_against_provider_def is_failure_def)
qed

text \<open>A granted response whose token is accepted, with the identity for every hash.\<close>

definition demo_tst :: bytes where
  "demo_tst = tlv 48 (tlv 2 [CHR 0x01] @ tlv 6 [CHR 0x2A, CHR 0x03] @
     tlv 48 (tlv 48 (tlv 6 [CHR 0x60, CHR 0x86, CHR 0x48, CHR 0x01, CHR 0x65, CHR 0x03, CHR 0x04, CHR 0x02, CHR 0x01]) @
       tlv 4 ''hash'') @
     tlv 2 [CHR 0x09] @ tlv 24 ''20260924081902Z'' @ tlv 2 [CHR 0x11])"

definition demo_tsp_lib :: tsp_lib where
  "demo_tsp_lib = \<lparr>lib_pkcs7_parse = (\<lambda>_. Inr (demo_token demo_tst)), lib_media_type = Some,
     lib_hash = (\<lambda>_. Some id), lib_sha1 = id\<rparr>"

definition demo_verifier :: verifier where
  "demo_verifier = \<lparr>vf_roots = [], vf_maxClockSkew = 1000000000, vf_requireESS = True, vf_allowGrantedWithMods = True\<rparr>"

definition demo_request :: request where
  "demo_request = \<lparr>rq_der = [], rq_nonce = 17, rq_hashAlgorithm = SHA256, rq_imprint = ''hash''\<rparr>"

definition demo_reply :: "time \<Rightarrow> http_response" where
  "demo_reply t = \<lparr>hr_statusCode = 200, hr_contentType = content_type_response,
     hr_body = tlv 48 (tlv 48 (tlv 2 [CHR 0x00]) @ tlv 48 []), hr_sentAt = t, hr_receivedAt = t + 500000000\<rparr>"

definition demo_stamp :: timestamp where
  "demo_stamp = \<lparr>ts_rawToken = tlv 48 [], ts_hashAlgorithm = SHA256, ts_hashedMessage = ''hash'',
     ts_time = 63925834742000000000, ts_accuracy = 0, ts_serialNumber = 9, ts_policy = [1, 2, 3],
     ts_ordering = False, ts_nonce = Some 17, ts_certificates = [demo_signer]\<rparr>"

lemma demo_tst_parsed:
  "unmarshal_tst_info demo_tst =
     Inr \<lparr>tst_version = 1, tst_policy = [1, 2, 3], tst_hashAlgorithm = [2, 16, 840, 1, 101, 3, 4, 2, 1],
       tst_hashedMessage = ''hash'', tst_serialNumber = 9,
       tst_time = \<lparr>rv_class = 0, rv_tag = 24, rv_compound = False, rv_bytes = ''20260924081902Z'',
         rv_full = tlv 24 ''20260924081902Z''\<rparr>,
       tst_seconds = 0, tst_milliseconds = 0, tst_microseconds = 0, tst_ordering = False, tst_nonce = Some 17\<rparr>"
  by code_simp

lemma demo_gen_time:
  "parse_generalized_time \<lparr>rv_class = 0, rv_tag = 24, rv_compound = False, rv_bytes = ''20260924081902Z'',
      rv_full = f\<rparr> = Inr (63925834742000000000, [])"
  unfolding parse_generalized_time_def raw_value.simps by code_simp

lemma demo_parsed:
  "parse_response_tolerantly (lib_pkcs7_parse demo_tsp_lib) (hr_body (demo_reply t)) =
     Inr (demo_stamp, demo_token demo_tst, [])"
proof -
  have 1: "unmarshal_raw_response (hr_body (demo_reply t)) = Inr (tlv 48 [])"
    unfolding demo_reply_def http_response.simps by code_simp
  have 2: "map_of digest_oids (oid_string [2, 16, 840, 1, 101, 3, 4, 2, 1]) = Some SHA256"
    by code_simp
  have 3: "tlv 48 [] \<noteq> []" by (simp add: tlv_def)
  show ?thesis
    by (simp add: parse_response_tolerantly_def 1 2 3 demo_tsp_lib_def demo_token_def demo_tst_parsed demo_gen_time
        demo_stamp_def s64_def second_def millisecond_def microsecond_def)
qed

lemma demo_status_info:
  "parse_status_info (hr_body (demo_reply t)) =
     Inr \<lparr>si_status = 0, si_statusString = [], si_failureInfo = [], si_hasToken = True\<rparr>"
  unfolding demo_reply_def http_response.simps by code_simp

lemma demo_acceptable:
  "acceptable demo_tsp_lib demo_verifier demo_request (demo_reply t) \<longleftrightarrow>
     t - 1000000000 \<le> 63925834742000000000 \<and> 63925834742000000000 \<le> t + 1500000000"
proof -
  have e: "equal_fold content_type_response content_type_response" by code_simp
  have c: "content_type_response \<noteq> []" by (simp add: content_type_response_def)
  have tok: "token_ok demo_tsp_lib demo_verifier demo_request (demo_reply t) demo_stamp (demo_token demo_tst) \<longleftrightarrow>
     t - 1000000000 \<le> 63925834742000000000 \<and> 63925834742000000000 \<le> t + 1500000000"
    by (simp add: token_ok_def demo_stamp_def demo_request_def demo_verifier_def demo_reply_def demo_tsp_lib_def
      demo_token_def demo_signer_def ExtKeyUsageTimeStamping_def OIDExtKeyUsage_def Let_def
      demo_matched [unfolded demo_token_def demo_signer_def])
  have sel: "hr_statusCode (demo_reply t) = 200" "hr_contentType (demo_reply t) = content_type_response"
      "lib_media_type demo_tsp_lib = Some" "vf_allowGrantedWithMods demo_verifier"
    by (simp_all add: demo_reply_def demo_tsp_lib_def demo_verifier_def)
  show ?thesis unfolding acceptable_def demo_parsed demo_status_info sel
    using e c sel tok by (simp add: status_accepted_def StatusGranted_def)
qed

theorem verify_accepts_iff_witness:
  "\<exists>res. verify demo_tsp_lib demo_verifier demo_request (demo_reply 63925834742000000000) = Some (Some res, None)"
proof -
  have "vf_maxClockSkew demo_verifier < 2 ^ 63 - 1" "0 \<le> vf_maxClockSkew demo_verifier"
      "hr_sentAt (demo_reply t) \<le> hr_receivedAt (demo_reply t)" for t
    by (simp_all add: demo_verifier_def demo_reply_def)
  from verify_accepts_iff [OF this, of demo_tsp_lib demo_request] show ?thesis by (simp add: demo_acceptable)
qed

theorem verify_error_classes_witness:
  "verify demo_tsp_lib demo_verifier demo_request ((demo_reply 0)\<lparr>hr_contentType := []\<rparr>) =
     Some (None, Some (new_error InvalidContentType ''response has no Content-Type header''))
   \<and> counts_against_provider InvalidContentType"
proof -
  have v: "verify demo_tsp_lib demo_verifier demo_request ((demo_reply 0)\<lparr>hr_contentType := []\<rparr>) =
     Some (None, Some (new_error InvalidContentType ''response has no Content-Type header''))"
    by (simp add: verify_def demo_reply_def from_http_status_def check_content_type_def)
  from verify_error_classes [OF v] v show ?thesis by simp
qed

end
