(* ===== verification/Config.thy ===== *)
theory Config
  imports Redact Request Go_Float Go_Time "HOL-Library.List_Lexorder" "HOL-Library.Char_ord"
begin

text \<open>
  The configuration, \<^verbatim>\<open>internal/config/config.go\<close> and \<^verbatim>\<open>validate.go\<close>: the document,
  its defaults, interpolation of environment references, total validation, the warnings, the request
  budget and the printable dump.  What the program reads from outside is gathered in \<open>world\<close>: the
  environment, package net/url and net.ParseIP, the answer of \<^verbatim>\<open>os.Stat\<close> (\<open>None\<close> when the
  file can be read), and the order in which a \<^verbatim>\<open>range\<close> over a map visits its entries.
\<close>

subsection \<open>The document\<close>

definition EnvLive :: string where "EnvLive = ''live''"
definition EnvTest :: string where "EnvTest = ''test''"

definition AuthNone :: string where "AuthNone = ''none''"
definition AuthBasic :: string where "AuthBasic = ''basic''"
definition AuthBearer :: string where "AuthBearer = ''bearer''"
definition AuthHeader :: string where "AuthHeader = ''header''"
definition AuthMTLS :: string where "AuthMTLS = ''mtls''"
definition AuthDigest :: string where "AuthDigest = ''digest''"

lemmas auth_types = AuthNone_def AuthBasic_def AuthBearer_def AuthHeader_def AuthMTLS_def AuthDigest_def
lemmas environments = EnvLive_def EnvTest_def

record auth_conf =
  au_type :: string
  au_usernameEnv :: string
  au_passwordEnv :: string
  au_tokenEnv :: string
  au_headers :: "(string \<times> string) list"
  au_challengePerRequest :: bool

record provider_conf =
  pv_name :: string
  pv_endpoint :: string
  pv_environment :: string
  pv_auth :: auth_conf
  pv_allowPlaintext :: bool

record tls_conf =
  tc_caFile :: string
  tc_tsaCAFile :: string
  tc_clientCertFile :: string
  tc_clientKeyFile :: string
  tc_serverName :: string
  tc_insecureSkipVerify :: bool
  tc_minVersion :: string

record request_conf =
  rc_hashAlgorithm :: string
  rc_payloadSize :: int
  rc_timeout :: duration
  rc_certReq :: "bool option"
  rc_maxClockSkew :: duration
  rc_policyOID :: string
  rc_requireESS :: bool

record load_conf =
  lc_maxConcurrency :: int
  lc_stagePause :: duration
  lc_lagThreshold :: duration
  lc_gracePeriod :: duration

record limits_conf =
  lm_maxRequests :: int
  lm_hardCap :: int
  lm_retries :: int
  lm_abortOnErrorRate :: f64
  lm_abortWindow :: int
  lm_abortOnConsecutiveFailures :: int

record config =
  cf_provider :: provider_conf
  cf_tls :: tls_conf
  cf_request :: request_conf
  cf_load :: load_conf
  cf_limits :: limits_conf
  cf_output_directory :: string

record world =
  lookup_env :: "string \<Rightarrow> string option"
  w_url :: url_lib
  parse_ip :: "string \<Rightarrow> int list option"
  file_stat :: "string \<Rightarrow> string option"
  map_order :: "(string \<times> string) list \<Rightarrow> (string \<times> string) list"

definition DefaultHardCap :: int where "DefaultHardCap = 50000"
definition MaxConfigurableHardCap :: int where "MaxConfigurableHardCap = 10000000"

definition default_config :: config where
  "default_config = \<lparr>
     cf_provider = \<lparr>pv_name = [], pv_endpoint = [], pv_environment = [],
       pv_auth = \<lparr>au_type = [], au_usernameEnv = [], au_passwordEnv = [], au_tokenEnv = [],
         au_headers = [], au_challengePerRequest = False\<rparr>,
       pv_allowPlaintext = False\<rparr>,
     cf_tls = \<lparr>tc_caFile = [], tc_tsaCAFile = [], tc_clientCertFile = [], tc_clientKeyFile = [],
       tc_serverName = [], tc_insecureSkipVerify = False, tc_minVersion = ''1.2''\<rparr>,
     cf_request = \<lparr>rc_hashAlgorithm = ''sha256'', rc_payloadSize = 64, rc_timeout = 10 * second,
       rc_certReq = None, rc_maxClockSkew = 60 * second, rc_policyOID = [], rc_requireESS = False\<rparr>,
     cf_load = \<lparr>lc_maxConcurrency = 500, lc_stagePause = 10 * second,
       lc_lagThreshold = 250 * millisecond, lc_gracePeriod = 30 * second\<rparr>,
     cf_limits = \<lparr>lm_maxRequests = 0, lm_hardCap = DefaultHardCap, lm_retries = 0,
       lm_abortOnErrorRate = Fin (1 / 4), lm_abortWindow = 200, lm_abortOnConsecutiveFailures = 50\<rparr>,
     cf_output_directory = ''results''\<rparr>"

definition apply_defaults :: "config \<Rightarrow> config" where
  "apply_defaults c =
     (let c1 = (if rc_certReq (cf_request c) = None
            then c\<lparr>cf_request := (cf_request c)\<lparr>rc_certReq := Some True\<rparr>\<rparr> else c);
          c2 = (if lm_hardCap (cf_limits c1) = 0
            then c1\<lparr>cf_limits := (cf_limits c1)\<lparr>lm_hardCap := DefaultHardCap\<rparr>\<rparr> else c1);
          c3 = (if tc_minVersion (cf_tls c2) = []
            then c2\<lparr>cf_tls := (cf_tls c2)\<lparr>tc_minVersion := ''1.2''\<rparr>\<rparr> else c2)
      in if cf_output_directory c3 = [] then c3\<lparr>cf_output_directory := ''results''\<rparr> else c3)"

text \<open>\<^verbatim>\<open>tls.VersionTLS12\<close> and \<^verbatim>\<open>VersionTLS13\<close>\<close>

definition min_tls_version :: "config \<Rightarrow> string + int" where
  "min_tls_version c =
     (let v = tc_minVersion (cf_tls c) in
      if v = ''1.2'' \<or> v = [] then Inr 771
      else if v = ''1.3'' then Inr 772
      else Inl (''tls.min_version '' @ go_quote v @ '' is not supported (use 1.2 or 1.3)''))"

definition budget :: "config \<Rightarrow> int \<Rightarrow> string + int" where
  "budget c requested =
     (let hardCap = lm_hardCap (cf_limits c); maxRequests = lm_maxRequests (cf_limits c) in
      if requested \<le> 0 then (if maxRequests > 0 then Inr maxRequests else Inr hardCap)
      else if hardCap > 0 \<and> requested > hardCap
        then Inl (''--max-requests ('' @ int_dec requested @ '') exceeds the configured hard cap of '' @ int_dec hardCap)
      else if maxRequests > 0 \<and> requested > maxRequests
        then Inl (''--max-requests ('' @ int_dec requested @ '') exceeds limits.max_requests ('' @
          int_dec maxRequests @ '') from the config'')
      else Inr requested)"

subsection \<open>Interpolation\<close>

text \<open>The expression \<^verbatim>\<open>envRef\<close>, a dollar sign and a name in braces: the name when the text begins
  with a match.\<close>

definition ident_start :: "char \<Rightarrow> bool" where
  "ident_start c \<longleftrightarrow> (let n = byte c in (65 \<le> n \<and> n \<le> 90) \<or> (97 \<le> n \<and> n \<le> 122) \<or> n = 95)"

definition ident_char :: "char \<Rightarrow> bool" where
  "ident_char c \<longleftrightarrow> ident_start c \<or> is_digit c"

definition env_ref_name :: "string \<Rightarrow> string option" where
  "env_ref_name s =
     (if has_prefix s ''${'' then
        (let r = drop 2 s; n = takeWhile ident_char r in
         if n \<noteq> [] \<and> ident_start (hd n) \<and> has_prefix (drop (length n) r) ''}'' then Some n else None)
      else None)"

fun env_ref_matches :: "string \<Rightarrow> bool" where
  "env_ref_matches [] = False"
| "env_ref_matches (c # cs) = (env_ref_name (c # cs) \<noteq> None \<or> env_ref_matches cs)"

text \<open>The interpolated text and the unset names, both left to right.\<close>

function interpolate :: "(string \<Rightarrow> string option) \<Rightarrow> string \<Rightarrow> string \<times> string list" where
  "interpolate env [] = ([], [])"
| "interpolate env (c # cs) =
     (case env_ref_name (c # cs) of
        None \<Rightarrow> (case interpolate env cs of (out, missing) \<Rightarrow> (c # out, missing))
      | Some n \<Rightarrow>
         (case interpolate env (drop (length n + 3) (c # cs)) of (out, missing) \<Rightarrow>
            (case env n of Some v \<Rightarrow> (v @ out, missing) | None \<Rightarrow> (out, n # missing))))"
  by pat_completeness auto
termination by (relation "measure (\<lambda>(_, s). length s)") auto

subsection \<open>Loopback hosts\<close>

text \<open>\<^verbatim>\<open>url.Hostname\<close>: the host without a port and without brackets.\<close>

definition valid_optional_port :: "string \<Rightarrow> bool" where
  "valid_optional_port p \<longleftrightarrow> p = [] \<or> (hd p = CHR '':'' \<and> list_all is_digit (tl p))"

definition strip_port :: "string \<Rightarrow> string" where
  "strip_port host =
     (let port = takeWhile (\<lambda>c. c \<noteq> CHR '':'') (rev host);
          cut = length host - length port - 1;
          h = (if CHR '':'' \<in> set host \<and> valid_optional_port (drop cut host) then take cut host else host)
      in if has_prefix h ''['' \<and> has_suffix h '']'' then butlast (tl h) else h)"

definition url_hostname :: "url \<Rightarrow> string" where
  "url_hostname u = strip_port (u_host u)"

text \<open>\<^verbatim>\<open>net.IP.IsLoopback\<close> on the 16-byte form \<^verbatim>\<open>ParseIP\<close> returns.\<close>

definition ip_is_loopback :: "int list \<Rightarrow> bool" where
  "ip_is_loopback ip =
     (if take 12 ip = replicate 10 0 @ [255, 255] then ip ! 12 = 127 else ip = replicate 15 0 @ [1])"

definition is_loopback_host :: "world \<Rightarrow> string \<Rightarrow> bool" where
  "is_loopback_host w host =
     (if host = ''localhost'' then True
      else (case parse_ip w host of None \<Rightarrow> False | Some ip \<Rightarrow> ip_is_loopback ip))"

definition is_loopback_from_endpoint :: "world \<Rightarrow> string \<Rightarrow> bool" where
  "is_loopback_from_endpoint w endpoint =
     (case url_parse (w_url w) endpoint of
        None \<Rightarrow> False | Some u \<Rightarrow> is_loopback_host w (url_hostname u))"

subsection \<open>Validation\<close>

datatype problem = Problem (p_field: string) (p_reason: string)

definition problem_text :: "problem \<Rightarrow> string" where
  "problem_text p = p_field p @ '': '' @ p_reason p"

definition problem_list_text :: "problem list \<Rightarrow> string" where
  "problem_list_text pl = ''invalid configuration:'' @ [CHR 0x0A] @ ''  - '' @
     join ([CHR 0x0A] @ ''  - '') (map problem_text pl)"

definition add_if :: "bool \<Rightarrow> string \<Rightarrow> string \<Rightarrow> problem list" where
  "add_if b field reason = (if b then [Problem field reason] else [])"

definition require_env :: "world \<Rightarrow> string \<Rightarrow> string \<Rightarrow> problem list" where
  "require_env w field name =
     (if name = [] then [Problem field ''must name an environment variable'']
      else if list_ex (\<lambda>c. c \<in> set ''${}/ '' \<or> c = CHR 0x5C) name
        then [Problem field ''must be a bare environment variable name, not a value or reference'']
      else if lookup_env w name = None \<or> lookup_env w name = Some []
        then [Problem field (''environment variable '' @ name @
          '' is not set (value is never read into the config)'')]
      else [])"

definition valid_oid :: "string \<Rightarrow> bool" where
  "valid_oid s =
     (if s = [] then False
      else list_all (\<lambda>part. part \<noteq> [] \<and> list_all is_digit part) (split_on CHR ''.'' s) \<and> contains s ''.'')"

definition endpoint_problems :: "world \<Rightarrow> provider_conf \<Rightarrow> problem list" where
  "endpoint_problems w p =
     (let ep = ''provider.endpoint'' in
      if pv_endpoint p = [] then [Problem ep ''must not be empty; there is no default endpoint'']
      else (case url_parse (w_url w) (pv_endpoint p) of
         None \<Rightarrow> [Problem ep ''is not a valid URL'']
       | Some u \<Rightarrow>
          (if u_scheme u \<noteq> ''http'' \<and> u_scheme u \<noteq> ''https''
             then [Problem ep ''scheme must be http or https'']
           else if u_host u = [] then [Problem ep ''must include a host'']
           else if u_user u \<noteq> None
             then [Problem ep ''must not embed credentials in the URL; use auth.*_env instead'']
           else if u_scheme u = ''http'' \<and> \<not> is_loopback_host w (url_hostname u) \<and> \<not> pv_allowPlaintext p
             then [Problem ep (''plaintext http exposes credentials and timestamps; use https, '' @
               ''or set provider.allow_plaintext if the service offers no TLS and the path is private'')]
           else [])))"

definition environment_problems :: "provider_conf \<Rightarrow> problem list" where
  "environment_problems p =
     (if pv_environment p = EnvLive \<or> pv_environment p = EnvTest then []
      else if pv_environment p = []
        then [Problem ''provider.environment'' (''must be set explicitly to '' @ go_quote ''live'' @ '' or '' @ go_quote ''test'')]
      else [Problem ''provider.environment'' (''must be '' @ go_quote ''live'' @ '' or '' @ go_quote ''test'')])"

definition header_problems :: "world \<Rightarrow> string \<times> string \<Rightarrow> problem list" where
  "header_problems w h =
     (case h of (name, ref) \<Rightarrow>
       (let field = ''provider.auth.headers.'' @ name in
        if \<not> env_ref_matches ref \<and> \<not> has_prefix ref ''env:''
          then [Problem field
            (''must reference an environment variable as '' @ go_quote ''env:NAME'' @ ''; literal secrets are not accepted'')]
        else if has_prefix ref ''env:'' then require_env w field (drop 4 ref)
        else []))"

definition auth_problems :: "world \<Rightarrow> config \<Rightarrow> problem list" where
  "auth_problems w c =
     (let a = pv_auth (cf_provider c); t = au_type a in
      if t = AuthNone then []
      else if t = []
        then [Problem ''provider.auth.type'' ''must be set explicitly (none, basic, digest, bearer, header, mtls)'']
      else if t = AuthBasic \<or> t = AuthDigest then
        require_env w ''provider.auth.username_env'' (au_usernameEnv a) @
        require_env w ''provider.auth.password_env'' (au_passwordEnv a) @
        add_if (t = AuthBasic \<and> au_challengePerRequest a)
          ''provider.auth.challenge_per_request'' ''applies only to digest authentication''
      else if t = AuthBearer then require_env w ''provider.auth.token_env'' (au_tokenEnv a)
      else if t = AuthHeader then
        add_if (au_headers a = []) ''provider.auth.headers''
          ''must define at least one header for auth type header'' @
        concat (map (header_problems w) (map_order w (au_headers a)))
      else if t = AuthMTLS then
        add_if (tc_clientCertFile (cf_tls c) = [] \<or> tc_clientKeyFile (cf_tls c) = [])
          ''tls.client_cert_file'' ''mTLS auth requires both client_cert_file and client_key_file''
      else [Problem ''provider.auth.type'' (''unknown auth type '' @ go_quote t)])"

definition file_problems :: "world \<Rightarrow> string \<times> string \<Rightarrow> problem list" where
  "file_problems w fp =
     (case fp of (field, path) \<Rightarrow>
       (if path = [] then []
        else (case file_stat w path of
           None \<Rightarrow> []
         | Some e \<Rightarrow> [Problem field (''file is not readable: '' @ redact_text (w_url w) e)])))"

definition tls_files :: "tls_conf \<Rightarrow> (string \<times> string) list" where
  "tls_files t =
     [(''tls.ca_file'', tc_caFile t), (''tls.tsa_ca_file'', tc_tsaCAFile t),
      (''tls.client_cert_file'', tc_clientCertFile t), (''tls.client_key_file'', tc_clientKeyFile t)]"

definition tls_problems :: "world \<Rightarrow> config \<Rightarrow> problem list" where
  "tls_problems w c =
     (let t = cf_tls c in
      concat (map (file_problems w) (map_order w (tls_files t))) @
      add_if ((tc_clientCertFile t = []) \<noteq> (tc_clientKeyFile t = [])) ''tls.client_cert_file''
        ''client_cert_file and client_key_file must be set together'' @
      (case min_tls_version c of Inl e \<Rightarrow> [Problem ''tls.min_version'' e] | Inr _ \<Rightarrow> []))"

definition request_problems :: "request_conf \<Rightarrow> problem list" where
  "request_problems r =
     (case hash_by_name (rc_hashAlgorithm r) of
        Inl e \<Rightarrow> [Problem ''request.hash_algorithm'' e] | Inr _ \<Rightarrow> []) @
     add_if (rc_payloadSize r < 16 \<or> rc_payloadSize r > 1048576)
       ''request.payload_size'' ''must be between 16 and 1048576 bytes'' @
     add_if (rc_timeout r \<le> 0) ''request.timeout'' ''must be greater than zero'' @
     add_if (rc_maxClockSkew r \<le> 0) ''request.max_clock_skew'' ''must be greater than zero'' @
     add_if (rc_certReq r = Some False) ''request.cert_req''
       ''must be true; without the TSA certificate the signature cannot be verified'' @
     add_if (rc_policyOID r \<noteq> [] \<and> \<not> valid_oid (rc_policyOID r))
       ''request.policy_oid'' ''is not a valid dotted OID''"

definition load_problems :: "load_conf \<Rightarrow> problem list" where
  "load_problems l =
     add_if (lc_maxConcurrency l < 1) ''load.max_concurrency'' ''must be at least 1'' @
     add_if (lc_maxConcurrency l > 20000) ''load.max_concurrency'' ''exceeds a sane client limit (20000)'' @
     add_if (lc_stagePause l < 0) ''load.stage_pause'' ''must not be negative'' @
     add_if (lc_gracePeriod l \<le> 0) ''load.grace_period'' ''must be greater than zero'' @
     add_if (lc_lagThreshold l \<le> 0) ''load.lag_threshold'' ''must be greater than zero''"

definition limits_problems :: "limits_conf \<Rightarrow> problem list" where
  "limits_problems m =
     add_if (lm_hardCap m < 1) ''limits.hard_cap'' ''must be at least 1'' @
     add_if (lm_hardCap m > MaxConfigurableHardCap) ''limits.hard_cap''
       (''exceeds the sanity limit of '' @ int_dec MaxConfigurableHardCap @ ''; check for a stray digit'') @
     add_if (lm_maxRequests m < 0) ''limits.max_requests'' ''must not be negative'' @
     add_if (lm_maxRequests m > lm_hardCap m) ''limits.max_requests'' ''must not exceed limits.hard_cap'' @
     add_if (lm_retries m \<noteq> 0) ''limits.retries''
       ''must be 0; retries are not implemented and every request is attempted exactly once'' @
     add_if (lm_abortOnErrorRate m < Fin 0 \<or> Fin 1 < lm_abortOnErrorRate m) ''limits.abort_on_error_rate''
       ''must be a fraction between 0 and 1'' @
     add_if (lm_abortWindow m < 10) ''limits.abort_window''
       ''must be at least 10 for a meaningful error rate''"

text \<open>\<^verbatim>\<open>Validate\<close>: the problems in the order they are added; none is a nil error.\<close>

definition validate :: "world \<Rightarrow> config \<Rightarrow> problem list" where
  "validate w c =
     add_if (trim_space (pv_name (cf_provider c)) = []) ''provider.name'' ''must not be empty'' @
     endpoint_problems w (cf_provider c) @
     environment_problems (cf_provider c) @
     auth_problems w c @
     tls_problems w c @
     request_problems (cf_request c) @
     load_problems (cf_load c) @
     limits_problems (cf_limits c) @
     add_if (trim_space (cf_output_directory c) = []) ''output.directory'' ''must not be empty''"

datatype config_error =
    ReadConfig string | UnsetVariables "string list" | ParseConfig string | Invalid "problem list"

definition parse_config :: "world \<Rightarrow> (string \<Rightarrow> config \<Rightarrow> string + config) \<Rightarrow> string \<Rightarrow> config_error + config" where
  "parse_config w decode raw =
     (case interpolate (lookup_env w) raw of (interpolated, missing) \<Rightarrow>
       (if missing \<noteq> [] then Inl (UnsetVariables missing)
        else (case decode interpolated default_config of
           Inl e \<Rightarrow> Inl (ParseConfig e)
         | Inr cfg \<Rightarrow>
            (let cfg' = apply_defaults cfg; pl = validate w cfg' in
             if pl \<noteq> [] then Inl (Invalid pl) else Inr cfg'))))"

definition load_file ::
  "world \<Rightarrow> (string \<Rightarrow> string + string) \<Rightarrow> (string \<Rightarrow> config \<Rightarrow> string + config) \<Rightarrow> string \<Rightarrow> config_error + config" where
  "load_file w read_file decode path =
     (case read_file path of Inl e \<Rightarrow> Inl (ReadConfig e) | Inr raw \<Rightarrow> parse_config w decode raw)"

subsection \<open>Warnings and the dump\<close>

record warning =
  wn_field :: string
  wn_message :: string
  wn_limitation :: string

definition insecure_warning :: warning where
  "insecure_warning = \<lparr>wn_field = ''tls.insecure_skip_verify'',
     wn_message = ''TLS certificate verification is DISABLED. The connection is not '' @
       ''authenticated and is vulnerable to interception. This is recorded in the report.'',
     wn_limitation = ''TLS certificate verification was DISABLED for this run. The transport was not '' @
       ''authenticated and the measurement cannot be attributed to a verified endpoint.''\<rparr>"

definition plaintext_warning :: warning where
  "plaintext_warning = \<lparr>wn_field = ''provider.allow_plaintext'',
     wn_message = ''The endpoint is plaintext http. Credentials cross the network in the '' @
       ''clear and responses can be rewritten in transit, so a timestamp from this '' @
       ''run is not evidence of anything an attacker on the path could not forge. '' @
       ''This is recorded in the report.'',
     wn_limitation = ''The endpoint was plaintext http. Credentials crossed the network in the clear '' @
       ''and responses could have been rewritten in transit, so the timestamps this run '' @
       ''collected carry no assurance against an attacker on the network path.''\<rparr>"

definition live_warning :: warning where
  "live_warning = \<lparr>wn_field = ''provider.environment'',
     wn_message = ''Target is a LIVE production TSA. Quota consumed is real and '' @
       ''irreversible, and the service is shared with real customer traffic.'',
     wn_limitation = []\<rparr>"

definition system_roots_warning :: warning where
  "system_roots_warning = \<lparr>wn_field = ''tls.tsa_ca_file'',
     wn_message = ''No TSA CA bundle configured; the timestamp certificate chain will be '' @
       ''verified against the system root store, which may not contain the provider'' @ [CHR 0x27] @ ''s CA.'',
     wn_limitation = ''No dedicated TSA CA bundle was configured; the timestamp certificate chain was '' @
       ''verified against the system root store.''\<rparr>"

definition warnings :: "world \<Rightarrow> config \<Rightarrow> warning list" where
  "warnings w c =
     (if tc_insecureSkipVerify (cf_tls c) then [insecure_warning] else []) @
     (if pv_allowPlaintext (cf_provider c) \<and> \<not> is_loopback_from_endpoint w (pv_endpoint (cf_provider c))
      then [plaintext_warning] else []) @
     (if pv_environment (cf_provider c) = EnvLive then [live_warning] else []) @
     (if tc_tsaCAFile (cf_tls c) = [] then [system_roots_warning] else [])"

definition redacted_endpoint :: "world \<Rightarrow> config \<Rightarrow> string" where
  "redacted_endpoint w c = redact_url (w_url w) (pv_endpoint (cf_provider c))"

definition bool_text :: "bool \<Rightarrow> string" where
  "bool_text b = (if b then ''true'' else ''false'')"

definition dump_line :: "string \<Rightarrow> string \<Rightarrow> string" where
  "dump_line key value = key @ ''='' @ value @ [CHR 0x0A]"

definition dump_env :: "string \<Rightarrow> string \<Rightarrow> string" where
  "dump_env key name = (if name \<noteq> [] then dump_line key (name @ '' (value not shown)'') else [])"

definition sorted_keys :: "(string \<times> string) list \<Rightarrow> string list" where
  "sorted_keys m = sort (map fst m)"

text \<open>\<^verbatim>\<open>String\<close>; \<open>None\<close> is the nil dereference of a \<^verbatim>\<open>CertReq\<close> without default.\<close>

definition config_string :: "world \<Rightarrow> config \<Rightarrow> string option" where
  "config_string w c =
     (let p = cf_provider c; a = pv_auth p; t = cf_tls c; r = cf_request c; l = cf_load c; m = cf_limits c in
      map_option (\<lambda>certReq.
       dump_line ''provider.name'' (pv_name p) @
       dump_line ''provider.endpoint'' (redacted_endpoint w c) @
       dump_line ''provider.allow_plaintext'' (bool_text (pv_allowPlaintext p)) @
       dump_line ''provider.environment'' (pv_environment p) @
       dump_line ''provider.auth.type'' (au_type a) @
       dump_env ''provider.auth.username_env'' (au_usernameEnv a) @
       dump_env ''provider.auth.password_env'' (au_passwordEnv a) @
       dump_env ''provider.auth.token_env'' (au_tokenEnv a) @
       concat (map (\<lambda>name. dump_line (''provider.auth.headers.'' @ name) Mask) (sorted_keys (au_headers a))) @
       dump_line ''tls.ca_file'' (tc_caFile t) @
       dump_line ''tls.tsa_ca_file'' (tc_tsaCAFile t) @
       dump_line ''tls.client_cert_file'' (tc_clientCertFile t) @
       dump_line ''tls.server_name'' (tc_serverName t) @
       dump_line ''tls.insecure_skip_verify'' (bool_text (tc_insecureSkipVerify t)) @
       dump_line ''tls.min_version'' (tc_minVersion t) @
       dump_line ''request.hash_algorithm'' (rc_hashAlgorithm r) @
       dump_line ''request.payload_size'' (int_dec (rc_payloadSize r)) @
       dump_line ''request.timeout'' (duration_string (rc_timeout r)) @
       dump_line ''request.cert_req'' (bool_text certReq) @
       dump_line ''request.max_clock_skew'' (duration_string (rc_maxClockSkew r)) @
       dump_line ''request.require_ess'' (bool_text (rc_requireESS r)) @
       dump_line ''load.max_concurrency'' (int_dec (lc_maxConcurrency l)) @
       dump_line ''load.stage_pause'' (duration_string (lc_stagePause l)) @
       dump_line ''limits.max_requests'' (int_dec (lm_maxRequests m)) @
       dump_line ''limits.hard_cap'' (int_dec (lm_hardCap m)) @
       dump_line ''limits.retries'' (int_dec (lm_retries m)) @
       dump_line ''output.directory'' (cf_output_directory c)) (rc_certReq r))"

subsection \<open>What an accepted configuration is\<close>

definition env_named :: "world \<Rightarrow> string \<Rightarrow> bool" where
  "env_named w name \<longleftrightarrow> name \<noteq> [] \<and> list_all (\<lambda>c. c \<notin> set ''${}/ '' \<and> c \<noteq> CHR 0x5C) name
     \<and> (case lookup_env w name of None \<Rightarrow> False | Some v \<Rightarrow> v \<noteq> [])"

definition endpoint_ok :: "world \<Rightarrow> provider_conf \<Rightarrow> bool" where
  "endpoint_ok w p \<longleftrightarrow> pv_endpoint p \<noteq> [] \<and>
     (case url_parse (w_url w) (pv_endpoint p) of
        None \<Rightarrow> False
      | Some u \<Rightarrow> u_scheme u \<in> {''http'', ''https''} \<and> u_host u \<noteq> [] \<and> u_user u = None
          \<and> (u_scheme u = ''https'' \<or> is_loopback_host w (url_hostname u) \<or> pv_allowPlaintext p))"

definition header_ok :: "world \<Rightarrow> string \<times> string \<Rightarrow> bool" where
  "header_ok w h \<longleftrightarrow>
     (if has_prefix (snd h) ''env:'' then env_named w (drop 4 (snd h)) else env_ref_matches (snd h))"

definition auth_ok :: "world \<Rightarrow> config \<Rightarrow> bool" where
  "auth_ok w c \<longleftrightarrow> (let a = pv_auth (cf_provider c); t = au_type a in
       t = AuthNone
     \<or> (t = AuthBasic \<and> env_named w (au_usernameEnv a) \<and> env_named w (au_passwordEnv a)
          \<and> \<not> au_challengePerRequest a)
     \<or> (t = AuthDigest \<and> env_named w (au_usernameEnv a) \<and> env_named w (au_passwordEnv a))
     \<or> (t = AuthBearer \<and> env_named w (au_tokenEnv a))
     \<or> (t = AuthHeader \<and> au_headers a \<noteq> [] \<and> list_all (header_ok w) (au_headers a))
     \<or> (t = AuthMTLS \<and> tc_clientCertFile (cf_tls c) \<noteq> [] \<and> tc_clientKeyFile (cf_tls c) \<noteq> []))"

definition tls_ok :: "world \<Rightarrow> tls_conf \<Rightarrow> bool" where
  "tls_ok w t \<longleftrightarrow> list_all (\<lambda>(_, path). path = [] \<or> file_stat w path = None) (tls_files t)
     \<and> (tc_clientCertFile t = [] \<longleftrightarrow> tc_clientKeyFile t = [])
     \<and> tc_minVersion t \<in> {''1.2'', [], ''1.3''}"

definition request_ok :: "request_conf \<Rightarrow> bool" where
  "request_ok r \<longleftrightarrow> (\<exists>h. hash_by_name (rc_hashAlgorithm r) = Inr h)
     \<and> 16 \<le> rc_payloadSize r \<and> rc_payloadSize r \<le> 1048576 \<and> 0 < rc_timeout r \<and> 0 < rc_maxClockSkew r
     \<and> rc_certReq r \<noteq> Some False \<and> (rc_policyOID r = [] \<or> valid_oid (rc_policyOID r))"

definition load_ok :: "load_conf \<Rightarrow> bool" where
  "load_ok l \<longleftrightarrow> 1 \<le> lc_maxConcurrency l \<and> lc_maxConcurrency l \<le> 20000 \<and> 0 \<le> lc_stagePause l
     \<and> 0 < lc_gracePeriod l \<and> 0 < lc_lagThreshold l"

definition limits_ok :: "limits_conf \<Rightarrow> bool" where
  "limits_ok m \<longleftrightarrow> 1 \<le> lm_hardCap m \<and> lm_hardCap m \<le> MaxConfigurableHardCap
     \<and> 0 \<le> lm_maxRequests m \<and> lm_maxRequests m \<le> lm_hardCap m \<and> lm_retries m = 0
     \<and> (lm_abortOnErrorRate m = FNaN \<or> (\<exists>q. lm_abortOnErrorRate m = Fin q \<and> 0 \<le> q \<and> q \<le> 1))
     \<and> 10 \<le> lm_abortWindow m"

definition config_ok :: "world \<Rightarrow> config \<Rightarrow> bool" where
  "config_ok w c \<longleftrightarrow> trim_space (pv_name (cf_provider c)) \<noteq> [] \<and> endpoint_ok w (cf_provider c)
     \<and> pv_environment (cf_provider c) \<in> {EnvLive, EnvTest} \<and> auth_ok w c \<and> tls_ok w (cf_tls c)
     \<and> request_ok (cf_request c) \<and> load_ok (cf_load c) \<and> limits_ok (cf_limits c)
     \<and> trim_space (cf_output_directory c) \<noteq> []"

lemma add_if_Nil [simp]: "add_if b f r = [] \<longleftrightarrow> \<not> b"
  by (simp add: add_if_def)

lemma require_env_Nil [simp]: "require_env w f name = [] \<longleftrightarrow> env_named w name"
  by (auto simp: require_env_def env_named_def list_all_iff list_ex_iff split: option.splits)

lemma endpoint_Nil: "endpoint_problems w p = [] \<longleftrightarrow> endpoint_ok w p"
  by (auto simp: endpoint_problems_def endpoint_ok_def Let_def split: option.splits)

lemma environment_Nil: "environment_problems p = [] \<longleftrightarrow> pv_environment p \<in> {EnvLive, EnvTest}"
  by (auto simp: environment_problems_def)

lemma header_Nil: "header_problems w h = [] \<longleftrightarrow> header_ok w h"
  by (cases h) (auto simp: header_problems_def header_ok_def Let_def)

lemma auth_Nil:
  assumes "\<And>xs. set (map_order w xs) = set xs"
  shows "auth_problems w c = [] \<longleftrightarrow> auth_ok w c"
  by (auto simp: auth_problems_def auth_ok_def Let_def auth_types assms header_Nil list_all_iff)

lemma min_tls_version_Inl: "(case min_tls_version c of Inl e \<Rightarrow> [Problem f e] | Inr _ \<Rightarrow> []) = [] \<longleftrightarrow>
    tc_minVersion (cf_tls c) \<in> {''1.2'', [], ''1.3''}"
  by (auto simp: min_tls_version_def Let_def)

lemma tls_Nil:
  assumes "\<And>xs. set (map_order w xs) = set xs"
  shows "tls_problems w c = [] \<longleftrightarrow> tls_ok w (cf_tls c)"
proof -
  have "concat (map (file_problems w) (map_order w (tls_files t))) = [] \<longleftrightarrow>
      list_all (\<lambda>(_, path). path = [] \<or> file_stat w path = None) (tls_files t)" for t
    by (auto simp: assms file_problems_def list_all_iff split: option.splits prod.splits if_splits)
  then show ?thesis
    by (simp add: tls_problems_def tls_ok_def Let_def min_tls_version_Inl conj_assoc)
qed

lemma request_Nil: "request_problems r = [] \<longleftrightarrow> request_ok r"
  by (auto simp: request_problems_def request_ok_def split: sum.splits)

lemma load_Nil: "load_problems l = [] \<longleftrightarrow> load_ok l"
  by (auto simp: load_problems_def load_ok_def)

lemma rate_range:
  "\<not> x < Fin 0 \<and> \<not> Fin 1 < x \<longleftrightarrow> x = FNaN \<or> (\<exists>q. x = Fin q \<and> 0 \<le> q \<and> q \<le> 1)"
  by (cases x) auto

lemma limits_Nil: "limits_problems m = [] \<longleftrightarrow> limits_ok m"
  using rate_range [of "lm_abortOnErrorRate m"] by (auto simp: limits_problems_def limits_ok_def)

lemma validate_Nil:
  assumes "\<And>xs. set (map_order w xs) = set xs"
  shows "validate w c = [] \<longleftrightarrow> config_ok w c"
  by (simp add: validate_def config_ok_def endpoint_Nil environment_Nil auth_Nil [OF assms]
      tls_Nil [OF assms] request_Nil load_Nil limits_Nil)

subsection \<open>Properties\<close>

text \<open>A world with one set variable, in which every file can be read.\<close>

definition demo_world :: world where
  "demo_world = \<lparr>lookup_env = (\<lambda>n. if n = ''TSA_TOKEN'' then Some ''s3cret'' else None),
     w_url = \<lparr>url_parse = (\<lambda>s. Some \<lparr>u_scheme = ''https'', u_user = None, u_host = s, u_path = [],
        u_query = [], u_fragment = []\<rparr>), url_string = u_host\<rparr>,
     parse_ip = (\<lambda>_. None), file_stat = (\<lambda>_. None), map_order = (\<lambda>xs. xs)\<rparr>"

definition demo_provider :: provider_conf where
  "demo_provider = \<lparr>pv_name = ''tsa'', pv_endpoint = ''tsa.example'', pv_environment = ''test'',
     pv_auth = \<lparr>au_type = ''bearer'', au_usernameEnv = [], au_passwordEnv = [], au_tokenEnv = ''TSA_TOKEN'',
       au_headers = [], au_challengePerRequest = False\<rparr>, pv_allowPlaintext = True\<rparr>"

definition demo_config :: config where
  "demo_config = apply_defaults (default_config\<lparr>cf_provider := demo_provider\<rparr>)"

lemma demo_config_ok: "config_ok demo_world demo_config"
proof -
  have "tls_ok demo_world (cf_tls demo_config)" "request_ok (cf_request demo_config)"
      "load_ok (cf_load demo_config)" "limits_ok (cf_limits demo_config)"
      "trim_space (cf_output_directory demo_config) \<noteq> []"
    by (simp_all add: demo_config_def apply_defaults_def default_config_def tls_ok_def tls_files_def
        demo_world_def request_ok_def hash_by_name_def load_ok_def limits_ok_def duration_defs
        MaxConfigurableHardCap_def DefaultHardCap_def to_lower_def to_lower_char_def trim_space_def is_space_def exI [of _ "1 / 4"])
  moreover have "cf_provider demo_config = demo_provider"
    by (simp add: demo_config_def apply_defaults_def default_config_def DefaultHardCap_def)
  ultimately show ?thesis
    by (simp add: config_ok_def endpoint_ok_def auth_ok_def demo_provider_def demo_world_def auth_types
        environments env_named_def trim_space_def is_space_def)
qed

text \<open>C26: validation is complete and its verdict does not depend on the order in which the maps are
  visited: no problem is reported exactly for a configuration that satisfies every rule at once, the
  declarative \<open>config_ok\<close> (endpoint, environment, the credentials each scheme needs, readable and paired
  TLS files, request, load and limit bounds).  The one value that escapes its bounds is a NaN error
  rate.\<close>

theorem validate_iff:
  assumes "\<And>xs. set (map_order w xs) = set xs"
  shows "validate w c = [] \<longleftrightarrow> config_ok w c"
  by (rule validate_Nil [OF assms])

theorem validate_iff_witness: "validate demo_world demo_config = []"
  using validate_iff [of demo_world demo_config] demo_config_ok by (simp add: demo_world_def)

lemma parse_config_Inr:
  "parse_config w decode raw = Inr c \<Longrightarrow>
   validate w c = [] \<and> (\<exists>cfg. c = apply_defaults cfg \<and> decode (fst (interpolate (lookup_env w) raw)) default_config = Inr cfg)
   \<and> snd (interpolate (lookup_env w) raw) = []"
  by (auto simp: parse_config_def Let_def split: prod.splits sum.splits if_splits)

text \<open>C28: the budget of a loaded configuration.  Whatever file was read, a configuration that
  \<^verbatim>\<open>Parse\<close> returns gives every run a budget of at least one request that exceeds neither the hard
  cap, nor a configured \<^verbatim>\<open>max_requests\<close>, nor the sanity limit of ten million; a positive request is
  granted unchanged or refused, and it is refused exactly when it is over the smaller limit.\<close>

theorem budget_bounded:
  assumes "\<And>xs. set (map_order w xs) = set xs" and "parse_config w decode raw = Inr c"
  shows "(case budget c req of
      Inr b \<Rightarrow> 1 \<le> b \<and> b \<le> lm_hardCap (cf_limits c) \<and> b \<le> 10000000
        \<and> \<not> (0 < lm_maxRequests (cf_limits c) \<and> lm_maxRequests (cf_limits c) < b) \<and> \<not> (0 < req \<and> b \<noteq> req)
    | Inl e \<Rightarrow> (if lm_maxRequests (cf_limits c) = 0 then lm_hardCap (cf_limits c) else lm_maxRequests (cf_limits c)) < req)"
proof -
  have "limits_ok (cf_limits c)"
    using parse_config_Inr [OF assms(2)] validate_Nil [OF assms(1)] by (auto simp: config_ok_def)
  then show ?thesis
    by (auto simp: budget_def Let_def limits_ok_def MaxConfigurableHardCap_def split: sum.splits)
qed

theorem budget_bounded_witness:
  "budget demo_config 60000 = Inl (''--max-requests (60000) exceeds the configured hard cap of 50000'')
   \<and> parse_config demo_world (\<lambda>_ d. Inr (d\<lparr>cf_provider := demo_provider\<rparr>)) [] = Inr demo_config
   \<and> (case budget demo_config 200 of Inr b \<Rightarrow> b = 200 | Inl e \<Rightarrow> False)"
proof -
  have ord: "set (map_order demo_world xs) = set xs" for xs by (simp add: demo_world_def)
  have v: "validate demo_world demo_config = []" using validate_Nil [OF ord] demo_config_ok by blast
  have p: "parse_config demo_world (\<lambda>_ d. Inr (d\<lparr>cf_provider := demo_provider\<rparr>)) [] = Inr demo_config"
    using v by (simp add: parse_config_def demo_config_def)
  have l: "cf_limits demo_config = cf_limits default_config"
    by (simp add: demo_config_def apply_defaults_def default_config_def DefaultHardCap_def)
  have dec: "int_dec 60000 = ''60000''" "int_dec 50000 = ''50000''"
    by (simp_all add: int_dec_def nat_dec.simps digit_char_def) (code_simp)+
  show ?thesis using p budget_bounded [OF ord p, of 200]
    by (auto simp: budget_def l default_config_def DefaultHardCap_def dec Let_def)
qed



text \<open>The plaintext warning looks at the option and not at the endpoint.  A valid configuration
  with an https endpoint and \<^verbatim>\<open>allow_plaintext\<close> set is reported, to the operator and in the
  limitations of the report, as a run over plaintext http.\<close>

theorem plaintext_warning_for_https:
  "config_ok demo_world demo_config
   \<and> map_option u_scheme (url_parse (w_url demo_world) (pv_endpoint (cf_provider demo_config))) = Some ''https''
   \<and> plaintext_warning \<in> set (warnings demo_world demo_config)"
proof -
  have "cf_provider demo_config = demo_provider"
    by (simp add: demo_config_def apply_defaults_def default_config_def DefaultHardCap_def)
  then show ?thesis using demo_config_ok
    by (simp add: warnings_def is_loopback_from_endpoint_def is_loopback_host_def demo_world_def
      demo_provider_def url_hostname_def strip_port_def valid_optional_port_def has_suffix_def Let_def)
qed

text \<open>A policy that passes validation can still fail the run.  \<^verbatim>\<open>validOID\<close> looks at the
  digits only, \<^verbatim>\<open>parseOID\<close> also at their value: a dotted OID with a component of 2^63 or more is valid
  to the first and rejected by the second, when the request builder is made.\<close>

theorem valid_oid_unparsable:
  "valid_oid ''1.2.9223372036854775808'' \<and> (\<exists>e. parse_oid ''1.2.9223372036854775808'' = Inl e)"
proof
  show "valid_oid ''1.2.9223372036854775808''" by code_simp
  have "atoi ''9223372036854775808'' = None"
    by (simp add: atoi_def num_def byte_def is_digit_def in_i64_def)
  moreover have "split_on CHR ''.'' ''1.2.9223372036854775808'' = [''1'', ''2'', ''9223372036854775808'']"
    by simp
  ultimately have "oid_arcs (split_on CHR ''.'' ''1.2.9223372036854775808'') = None"
    by (simp split: option.split)
  then show "\<exists>e. parse_oid ''1.2.9223372036854775808'' = Inl e" by (simp add: parse_oid_def)
qed

end
