(* ===== verification/Digest.thy ===== *)
theory Digest
  imports Config Utf8 "HOL-Library.Word"
begin

text \<open>
  HTTP Digest access authentication, \<^verbatim>\<open>internal/config/digest.go\<close>, and the credentials of
  \<^verbatim>\<open>internal/config/auth.go\<close>: reading a challenge, quoting, building the Authorization header,
  the shared challenge with its nonce counter, the cache of the credential hash, and \<^verbatim>\<open>Apply\<close>.
  MD5 and SHA-256 are the parameter \<open>digest_lib\<close>; what \<^verbatim>\<open>rand.Read\<close> delivers is an argument.
\<close>

record digest_lib =
  dl_md5 :: "bytes \<Rightarrow> bytes"
  dl_sha256 :: "bytes \<Rightarrow> bytes"

subsection \<open>Hexadecimal and base64\<close>

definition hex_digit :: "nat \<Rightarrow> char" where
  "hex_digit d = (if d < 10 then char_of (48 + d) else char_of (87 + d))"

definition hex_encode :: "bytes \<Rightarrow> string" where
  "hex_encode bs = concat (map (\<lambda>c. [hex_digit (of_char c div 16), hex_digit (of_char c mod 16)]) bs)"

fun nat_hex :: "nat \<Rightarrow> string" where
  "nat_hex n = (if n < 16 then [hex_digit n] else nat_hex (n div 16) @ [hex_digit (n mod 16)])"

declare nat_hex.simps [simp del]

text \<open>\<^verbatim>\<open>fmt\<close>'s \<^verbatim>\<open>%08x\<close>\<close>

definition hex08 :: "nat \<Rightarrow> string" where
  "hex08 n = (let s = nat_hex n in replicate (8 - length s) CHR ''0'' @ s)"

definition base64_digit :: "nat \<Rightarrow> char" where
  "base64_digit d = ''ABCDEFGHIJKLMNOPQRSTUVWXYZabcdefghijklmnopqrstuvwxyz0123456789+/'' ! d"

fun base64 :: "bytes \<Rightarrow> string" where
  "base64 (a # b # c # bs) =
     (let n = of_char a * 65536 + of_char b * 256 + of_char c :: nat in
      [base64_digit (n div 262144), base64_digit (n div 4096 mod 64), base64_digit (n div 64 mod 64),
       base64_digit (n mod 64)] @ base64 bs)"
| "base64 [a, b] =
     (let n = of_char a * 65536 + of_char b * 256 :: nat in
      [base64_digit (n div 262144), base64_digit (n div 4096 mod 64), base64_digit (n div 64 mod 64), CHR ''=''])"
| "base64 [a] =
     (let n = of_char a * 65536 :: nat in
      [base64_digit (n div 262144), base64_digit (n div 4096 mod 64), CHR ''='', CHR ''=''])"
| "base64 [] = []"

subsection \<open>Quoting and splitting\<close>

definition quote_byte :: "char \<Rightarrow> string" where
  "quote_byte c =
     (if c = CHR 0x5C then [CHR 0x5C, CHR 0x5C]
      else if c = CHR 0x22 then [CHR 0x5C, CHR 0x22] else [c])"

definition quote_digest :: "string \<Rightarrow> string" where
  "quote_digest s = CHR 0x22 # concat (map quote_byte s) @ [CHR 0x22]"

fun unquote_digest :: "string \<Rightarrow> string" where
  "unquote_digest [] = []"
| "unquote_digest [c] = [c]"
| "unquote_digest (a # b # cs) =
     (if a = CHR 0x5C \<and> (b = CHR 0x22 \<or> b = CHR 0x5C) then b # unquote_digest cs
      else a # unquote_digest (b # cs))"

text \<open>The loop of \<^verbatim>\<open>splitDigestParams\<close> over runes: the text of the current part and the two
  flags.\<close>

fun split_loop :: "bytes list \<Rightarrow> string \<Rightarrow> bool \<Rightarrow> bool \<Rightarrow> string list" where
  "split_loop [] cur inQuotes escaped = (if trim_space cur \<noteq> [] then [cur] else [])"
| "split_loop (r # rs) cur inQuotes escaped =
     (if escaped then split_loop rs (cur @ r) inQuotes False
      else if r = [CHR 0x5C] \<and> inQuotes then split_loop rs (cur @ r) inQuotes True
      else if r = [CHR 0x22] then split_loop rs (cur @ r) (\<not> inQuotes) False
      else if r = '','' \<and> \<not> inQuotes then cur # split_loop rs [] inQuotes False
      else split_loop rs (cur @ r) inQuotes False)"

definition split_digest_params :: "string \<Rightarrow> string list" where
  "split_digest_params s = split_loop (runes s) [] False False"

text \<open>One \<^verbatim>\<open>key=value\<close>; a part without an equals sign is skipped.\<close>

definition param_pair :: "string \<Rightarrow> (string \<times> string) option" where
  "param_pair kv =
     (case index_of kv ''='' of
        None \<Rightarrow> None
      | Some eq \<Rightarrow>
         (let key = to_lower (trim_space (take eq kv)); val = trim_space (drop (eq + 1) kv) in
          Some (key, if length val \<ge> 2 \<and> hd val = CHR 0x22 \<and> last val = CHR 0x22
                     then unquote_digest (butlast (tl val)) else val)))"

definition digest_params :: "string list \<Rightarrow> (string \<rightharpoonup> string)" where
  "digest_params parts =
     foldl (\<lambda>m kv. case param_pair kv of None \<Rightarrow> m | Some (k, v) \<Rightarrow> m(k \<mapsto> v)) Map.empty parts"

definition parse_digest_challenge :: "string \<Rightarrow> string + (string \<rightharpoonup> string)" where
  "parse_digest_challenge header =
     (let h = trim_space header in
      if h = [] then Inl ''no WWW-Authenticate header''
      else (case index_of (to_lower h) ''digest'' of
         None \<Rightarrow> Inl ''server does not offer Digest authentication''
       | Some i \<Rightarrow>
          (let parts = split_digest_params (trim_space (drop (i + 6) h)) in
           if list_all (\<lambda>kv. param_pair kv = None) parts then Inl ''digest challenge has no parameters''
           else Inr (digest_params parts))))"

subsection \<open>Challenges\<close>

record challenge =
  ch_realm :: string
  ch_nonce :: string
  ch_opaque :: string
  ch_qop :: string
  ch_algorithm :: string

definition no_challenge :: challenge where
  "no_challenge = \<lparr>ch_realm = [], ch_nonce = [], ch_opaque = [], ch_qop = [], ch_algorithm = []\<rparr>"

text \<open>\<^verbatim>\<open>p[key]\<close> of a Go map of strings\<close>

definition map_get :: "(string \<rightharpoonup> string) \<Rightarrow> string \<Rightarrow> string" where
  "map_get p k = (case p k of None \<Rightarrow> [] | Some v \<Rightarrow> v)"

definition parse_challenge :: "string \<Rightarrow> string + challenge" where
  "parse_challenge header =
     and_then (parse_digest_challenge header) (\<lambda>p.
       let algo = map_get p ''algorithm'' in
       if has_suffix (to_upper algo) ''-SESS''
         then Inl (''digest algorithm '' @ go_quote algo @ '' (session variant) is not supported'')
       else if to_upper algo \<notin> {[], ''MD5'', ''SHA-256''}
         then Inl (''unsupported digest algorithm '' @ go_quote algo)
       else (case p ''realm'' of
         None \<Rightarrow> Inl ''digest challenge has no realm''
       | Some realm \<Rightarrow>
          (case p ''nonce'' of
             None \<Rightarrow> Inl ''digest challenge has no nonce''
           | Some nonce \<Rightarrow>
              (let qop = (if list_ex (\<lambda>v. trim_space v = ''auth'') (split_on CHR '','' (map_get p ''qop''))
                          then ''auth'' else [])
               in if map_get p ''qop'' \<noteq> [] \<and> qop = []
                  then Inl (''digest challenge offers qop='' @ go_quote (map_get p ''qop'') @
                         ''; only auth is supported'')
                  else Inr \<lparr>ch_realm = realm, ch_nonce = nonce, ch_opaque = map_get p ''opaque'',
                            ch_qop = qop, ch_algorithm = algo\<rparr>))))"

text \<open>A response is seen through its status and its WWW-Authenticate header.\<close>

definition is_stale_challenge :: "int \<Rightarrow> string \<Rightarrow> bool" where
  "is_stale_challenge status wwwAuthenticate =
     (if status \<noteq> 401 then False
      else (case parse_digest_challenge wwwAuthenticate of
        Inl e \<Rightarrow> False | Inr p \<Rightarrow> equal_fold (map_get p ''stale'') ''true''))"

definition trim_suffix :: "string \<Rightarrow> string \<Rightarrow> string" where
  "trim_suffix s t = (if has_suffix s t then take (length s - length t) s else s)"

definition digest_hash :: "digest_lib \<Rightarrow> string \<Rightarrow> string \<Rightarrow> string" where
  "digest_hash L algorithm s =
     (if equal_fold (trim_suffix algorithm ''-sess'') ''SHA-256'' then hex_encode (dl_sha256 L s)
      else hex_encode (dl_md5 L s))"

definition random_hex :: "nat \<Rightarrow> bytes option \<Rightarrow> string" where
  "random_hex n r = (case r of None \<Rightarrow> replicate (n * 2) CHR ''0'' | Some b \<Rightarrow> hex_encode b)"

subsection \<open>Credentials\<close>

record digest_state =
  dg_challenge :: challenge
  dg_ha1 :: string
  dg_ha1Realm :: string
  dg_ha1Algo :: string
  dg_nc :: "64 word"

definition new_digest_state :: digest_state where
  "new_digest_state = \<lparr>dg_challenge = no_challenge, dg_ha1 = [], dg_ha1Realm = [], dg_ha1Algo = [], dg_nc = 0\<rparr>"

record credentials =
  cr_username :: string
  cr_password :: string
  cr_token :: string
  cr_headers :: "(string \<times> string) list"
  cr_digest :: "digest_state option"

record http_request =
  hq_method :: string
  hq_uri :: string
  hq_header :: "string \<rightharpoonup> string"
  hq_body :: bytes

definition redacted_count :: "credentials option \<Rightarrow> string" where
  "redacted_count cr =
     (case cr of
        None \<Rightarrow> ''nil''
      | Some c \<Rightarrow> nat_dec ((if cr_username c \<noteq> [] then 1 else 0) + (if cr_password c \<noteq> [] then 1 else 0) +
          (if cr_token c \<noteq> [] then 1 else 0) + length (cr_headers c)) @ '' redacted value(s)'')"

definition credentials_string :: "credentials option \<Rightarrow> string" where
  "credentials_string cr = ''config.Credentials{'' @ redacted_count cr @ ''}''"

definition get_env :: "world \<Rightarrow> string \<Rightarrow> string + string" where
  "get_env w name =
     (case lookup_env w name of
        None \<Rightarrow> Inl (''environment variable '' @ name @ '' is not set or empty'')
      | Some v \<Rightarrow> if v = [] then Inl (''environment variable '' @ name @ '' is not set or empty'') else Inr v)"

fun resolve_headers :: "world \<Rightarrow> (string \<times> string) list \<Rightarrow> string + (string \<times> string) list" where
  "resolve_headers w [] = Inr []"
| "resolve_headers w ((name, ref) # hs) =
     (if \<not> has_prefix ref ''env:''
        then Inl (''auth header '' @ name @ '' must reference an environment variable as env:NAME'')
      else and_then (get_env w (drop 4 ref)) (\<lambda>v.
        and_then (resolve_headers w hs) (\<lambda>rest. Inr ((name, v) # rest))))"

definition resolve_credentials :: "world \<Rightarrow> config \<Rightarrow> string + credentials" where
  "resolve_credentials w c =
     (let a = pv_auth (cf_provider c); t = au_type a;
          cr = \<lparr>cr_username = [], cr_password = [], cr_token = [], cr_headers = [], cr_digest = None\<rparr> in
      if t = AuthBasic \<or> t = AuthDigest then
        and_then (get_env w (au_usernameEnv a)) (\<lambda>u.
        and_then (get_env w (au_passwordEnv a)) (\<lambda>p.
          Inr (cr\<lparr>cr_username := u, cr_password := p,
                  cr_digest := (if t = AuthDigest then Some new_digest_state else None)\<rparr>)))
      else if t = AuthBearer then
        and_then (get_env w (au_tokenEnv a)) (\<lambda>tok. Inr (cr\<lparr>cr_token := tok\<rparr>))
      else if t = AuthHeader then
        and_then (resolve_headers w (map_order w (au_headers a))) (\<lambda>hs. Inr (cr\<lparr>cr_headers := hs\<rparr>))
      else Inr cr)"

definition has_challenge :: "credentials option \<Rightarrow> bool" where
  "has_challenge cr =
     (case cr of None \<Rightarrow> False
      | Some c \<Rightarrow> (case cr_digest c of None \<Rightarrow> False | Some d \<Rightarrow> ch_nonce (dg_challenge d) \<noteq> []))"

definition secret_of :: "credentials \<Rightarrow> challenge \<Rightarrow> string" where
  "secret_of cr c = cr_username cr @ '':'' @ ch_realm c @ '':'' @ cr_password cr"

definition install_challenge :: "digest_lib \<Rightarrow> credentials \<Rightarrow> challenge \<Rightarrow> digest_state \<Rightarrow> digest_state" where
  "install_challenge L cr c d = d\<lparr>dg_challenge := c,
     dg_ha1 := digest_hash L (ch_algorithm c) (secret_of cr c),
     dg_ha1Realm := ch_realm c, dg_ha1Algo := ch_algorithm c, dg_nc := 0\<rparr>"

definition set_challenge :: "digest_lib \<Rightarrow> string \<Rightarrow> credentials option \<Rightarrow> string + credentials" where
  "set_challenge L header cr =
     (case cr of
        None \<Rightarrow> Inl ''digest authentication is not configured''
      | Some c \<Rightarrow>
         (case cr_digest c of
            None \<Rightarrow> Inl ''digest authentication is not configured''
          | Some d \<Rightarrow> and_then (parse_challenge header) (\<lambda>ch.
              Inr (c\<lparr>cr_digest := Some (install_challenge L c ch d)\<rparr>))))"

definition ha1_for :: "digest_lib \<Rightarrow> credentials \<Rightarrow> challenge \<Rightarrow> string \<times> credentials" where
  "ha1_for L cr c =
     (let computed = digest_hash L (ch_algorithm c) (secret_of cr c) in
      case cr_digest cr of
        None \<Rightarrow> (computed, cr)
      | Some d \<Rightarrow>
         (if dg_ha1 d \<noteq> [] \<and> dg_ha1Realm d = ch_realm c \<and> dg_ha1Algo d = ch_algorithm c
          then (dg_ha1 d, cr)
          else (computed, cr\<lparr>cr_digest := Some (d\<lparr>dg_ha1 := computed, dg_ha1Realm := ch_realm c,
                                                  dg_ha1Algo := ch_algorithm c\<rparr>)\<rparr>)))"

subsection \<open>The Authorization header\<close>

definition digest_response :: "digest_lib \<Rightarrow> http_request \<Rightarrow> challenge \<Rightarrow> string \<Rightarrow> string \<Rightarrow> string \<Rightarrow> string" where
  "digest_response L req c ha1 ncHex cnonce =
     (let ha2 = digest_hash L (ch_algorithm c) (hq_method req @ '':'' @ hq_uri req) in
      if ch_qop c = ''auth''
      then digest_hash L (ch_algorithm c) (join '':'' [ha1, ch_nonce c, ncHex, cnonce, ch_qop c, ha2])
      else digest_hash L (ch_algorithm c) (join '':'' [ha1, ch_nonce c, ha2]))"

definition digest_header ::
  "digest_lib \<Rightarrow> bytes option \<Rightarrow> credentials \<Rightarrow> http_request \<Rightarrow> challenge \<Rightarrow> string \<Rightarrow> string \<Rightarrow> string" where
  "digest_header L rdm cr req c ha1 ncHex =
     (let cnonce = (if ch_qop c = ''auth'' then random_hex 16 rdm else []);
          response = digest_response L req c ha1 ncHex cnonce in
      ''Digest username='' @ quote_digest (cr_username cr) @
      '', realm='' @ quote_digest (ch_realm c) @
      '', nonce='' @ quote_digest (ch_nonce c) @
      '', uri='' @ quote_digest (hq_uri req) @
      '', response='' @ quote_digest response @
      (if ch_algorithm c \<noteq> [] then '', algorithm='' @ ch_algorithm c else []) @
      (if ch_opaque c \<noteq> [] then '', opaque='' @ quote_digest (ch_opaque c) else []) @
      (if ch_qop c = ''auth'' then '', qop=auth, nc='' @ ncHex @ '', cnonce='' @ quote_digest cnonce else []))"

text \<open>\<^verbatim>\<open>http.CanonicalHeaderKey\<close> for names that are tokens.\<close>

fun canonical_loop :: "bool \<Rightarrow> string \<Rightarrow> string" where
  "canonical_loop up [] = []"
| "canonical_loop up (c # cs) =
     (if up then to_upper_char c else to_lower_char c) # canonical_loop (c = CHR ''-'') cs"

definition token_char :: "char \<Rightarrow> bool" where
  "token_char c \<longleftrightarrow> ident_start c \<or> is_digit c \<or> c \<in> set ''!#$%&*+-.^_`|~'' \<or> c = CHR 0x27"

definition canonical_key :: "string \<Rightarrow> string" where
  "canonical_key s = (if list_all token_char s then canonical_loop True s else s)"

definition header_set :: "string \<Rightarrow> string \<Rightarrow> http_request \<Rightarrow> http_request" where
  "header_set name v req = req\<lparr>hq_header := (hq_header req)(canonical_key name \<mapsto> v)\<rparr>"

definition apply_digest ::
  "digest_lib \<Rightarrow> bytes option \<Rightarrow> credentials \<Rightarrow> http_request \<Rightarrow> credentials \<times> http_request" where
  "apply_digest L rdm cr req =
     (case cr_digest cr of
        None \<Rightarrow> (cr, req)
      | Some d \<Rightarrow>
         (if ch_nonce (dg_challenge d) = [] then (cr, req)
          else (let n = dg_nc d + 1 in
            (cr\<lparr>cr_digest := Some (d\<lparr>dg_nc := n\<rparr>)\<rparr>,
             header_set ''Authorization''
               (digest_header L rdm cr req (dg_challenge d) (dg_ha1 d) (hex08 (unat n))) req))))"

definition authorize_once ::
  "digest_lib \<Rightarrow> bytes option \<Rightarrow> credentials option \<Rightarrow> http_request \<Rightarrow> string \<Rightarrow>
   (string + http_request) \<times> credentials option" where
  "authorize_once L rdm cr req header =
     (case cr of
        None \<Rightarrow> (Inl ''no credentials'', cr)
      | Some c \<Rightarrow>
         (case parse_challenge header of
            Inl e \<Rightarrow> (Inl e, cr)
          | Inr ch \<Rightarrow>
             (case ha1_for L c ch of (ha1, c') \<Rightarrow>
                (Inr (header_set ''Authorization'' (digest_header L rdm c' req ch ha1 ''00000001'') req),
                 Some c'))))"

definition apply_credentials ::
  "digest_lib \<Rightarrow> world \<Rightarrow> bytes option \<Rightarrow> string \<Rightarrow> credentials option \<Rightarrow> http_request \<Rightarrow>
   credentials option \<times> http_request" where
  "apply_credentials L w rdm typ cr req =
     (case cr of
        None \<Rightarrow> (None, req)
      | Some c \<Rightarrow>
         (if typ = AuthBasic
            then (Some c, header_set ''Authorization'' (''Basic '' @ base64 (cr_username c @ '':'' @ cr_password c)) req)
          else if typ = AuthBearer
            then (Some c, header_set ''Authorization'' (''Bearer '' @ cr_token c) req)
          else if typ = AuthDigest
            then (case apply_digest L rdm c req of (c', req') \<Rightarrow> (Some c', req'))
          else if typ = AuthHeader
            then (Some c, foldl (\<lambda>r (name, v). header_set name v r) req (map_order w (cr_headers c)))
          else (Some c, req)))"

subsection \<open>Trust anchors\<close>

text \<open>Reading a file, parsing a PEM bundle and the system pool are arguments.  The outer option of the
  pool is the nil pool of an empty path.\<close>

definition load_cert_pool ::
  "(string \<Rightarrow> string + string) \<Rightarrow> (string \<Rightarrow> certificate list option) \<Rightarrow> string \<Rightarrow> string + certificate list option" where
  "load_cert_pool read_file from_pem path =
     (if path = [] then Inr None
      else (case read_file path of
        Inl e \<Rightarrow> Inl (''read CA bundle: '' @ e)
      | Inr pem \<Rightarrow>
         (case from_pem pem of
            None \<Rightarrow> Inl (''CA bundle '' @ path @ '' contains no usable PEM certificates'')
          | Some pool \<Rightarrow> Inr (Some pool))))"

definition tsa_roots ::
  "(string \<Rightarrow> string + string) \<Rightarrow> (string \<Rightarrow> certificate list option) \<Rightarrow> string + certificate list \<Rightarrow> config \<Rightarrow>
   string + certificate list option \<times> string" where
  "tsa_roots read_file from_pem system c =
     (let t = cf_tls c; pool = (\<lambda>path. and_then (load_cert_pool read_file from_pem path) (\<lambda>p. Inr (p, path))) in
      if tc_tsaCAFile t \<noteq> [] then pool (tc_tsaCAFile t)
      else if tc_caFile t \<noteq> [] then pool (tc_caFile t)
      else (case system of
        Inl e \<Rightarrow> Inl (''load system cert pool: '' @ e)
      | Inr p \<Rightarrow> Inr (Some p, ''system'')))"

subsection \<open>What is written is what is read\<close>

lemma unquote_quote_byte: "unquote_digest (quote_byte c @ t) = c # unquote_digest t"
  by (cases t) (auto simp: quote_byte_def)

lemma unquote_quote: "unquote_digest (concat (map quote_byte s)) = s"
  by (induction s) (simp_all add: unquote_quote_byte)

abbreviation single :: "string \<Rightarrow> bytes list" where
  "single s \<equiv> map (\<lambda>c. [c]) s"

text \<open>A part the splitter copies as a whole.\<close>

definition safe_part :: "string \<Rightarrow> bool" where
  "safe_part p \<longleftrightarrow> (\<forall>rs cur. split_loop (single p @ rs) cur False False = split_loop rs (cur @ p) False False)"

lemma safe_append: "safe_part p \<Longrightarrow> safe_part q \<Longrightarrow> safe_part (p @ q)"
  by (simp add: safe_part_def)

lemma safe_plain: "CHR 0x22 \<notin> set p \<Longrightarrow> CHR '','' \<notin> set p \<Longrightarrow> safe_part p"
proof -
  have "CHR 0x22 \<notin> set p \<Longrightarrow> CHR '','' \<notin> set p \<Longrightarrow>
      split_loop (single p @ rs) cur False False = split_loop rs (cur @ p) False False" for rs cur
    by (induction p arbitrary: cur) auto
  then show "CHR 0x22 \<notin> set p \<Longrightarrow> CHR '','' \<notin> set p \<Longrightarrow> safe_part p" by (simp add: safe_part_def)
qed

lemma split_escaped:
  "split_loop (single (concat (map quote_byte s)) @ rs) cur True False =
   split_loop rs (cur @ concat (map quote_byte s)) True False"
  by (induction s arbitrary: cur) (simp_all add: quote_byte_def)

lemma safe_quote: "safe_part (quote_digest s)"
  using split_escaped [of s] by (simp add: safe_part_def quote_digest_def)

lemma split_parts:
  "list_all safe_part ps \<Longrightarrow> ps \<noteq> [] \<Longrightarrow> trim_space (last ps) \<noteq> [] \<Longrightarrow>
   split_loop (single (join '','' ps)) [] False False = ps"
proof (induction ps rule: induct_list012)
  case (2 x)
  then have "safe_part x" by simp
  then have "split_loop (single x @ []) [] False False = split_loop [] ([] @ x) False False"
    unfolding safe_part_def by blast
  then show ?case using 2 by simp
next
  case (3 x y xs)
  have "safe_part x" using "3.prems"(1) by simp
  then have "split_loop (single x @ single ('','' @ join '','' (y # xs))) [] False False =
      split_loop (single ('','' @ join '','' (y # xs))) ([] @ x) False False"
    unfolding safe_part_def by blast
  also have "\<dots> = x # split_loop (single (join '','' (y # xs))) [] False False" by simp
  also have "\<dots> = x # y # xs" using 3 by simp
  finally show ?case by simp
qed simp

lemma trim_space_id: "s \<noteq> [] \<Longrightarrow> \<not> is_space (hd s) \<Longrightarrow> \<not> is_space (last s) \<Longrightarrow> trim_space s = s"
  by (simp add: trim_space_def dropWhile_eq_self_iff [THEN iffD2] hd_rev)

lemma trim_space_nonempty: "x \<in> set s \<Longrightarrow> \<not> is_space x \<Longrightarrow> trim_space s \<noteq> []"
proof -
  assume x: "x \<in> set s" "\<not> is_space x"
  then have "x \<in> set (dropWhile is_space s)"
    by (metis UnE set_append set_takeWhileD takeWhile_dropWhile_id)
  then show "trim_space s \<noteq> []" using x(2) by (auto simp: trim_space_def dropWhile_eq_Nil_conv)
qed

lemma trim_space_blank: "trim_space (CHR '' '' # s) = trim_space s"
  by (simp add: trim_space_def is_space_def)

lemma not_space_quote [simp]: "\<not> is_space CHR 0x22"
  by (simp add: is_space_def)

lemma trim_quote [simp]: "trim_space (quote_digest s) = quote_digest s"
  by (rule trim_space_id) (simp_all add: quote_digest_def)

text \<open>One part: a name, an equals sign, and a value the reader understands.\<close>

definition reads_as :: "string \<Rightarrow> string \<Rightarrow> bool" where
  "reads_as raw v \<longleftrightarrow> trim_space raw = raw \<and> raw \<noteq> [] \<and> safe_part raw \<and> \<not> is_space (last raw) \<and>
     (if length raw \<ge> 2 \<and> hd raw = CHR 0x22 \<and> last raw = CHR 0x22 then unquote_digest (butlast (tl raw)) else raw) = v"

lemma reads_quote: "reads_as (quote_digest s) s"
proof -
  have "trim_space (quote_digest s) = quote_digest s" by simp
  then show ?thesis using safe_quote [of s] unquote_quote [of s]
    by (simp add: reads_as_def) (simp add: quote_digest_def butlast_append)
qed

lemma reads_plain:
  assumes "p \<noteq> []" "CHR 0x22 \<notin> set p" "CHR '','' \<notin> set p" "list_all (\<lambda>c. \<not> is_space c) p"
  shows "reads_as p p"
proof -
  have "\<not> is_space (hd p)" "\<not> is_space (last p)" using assms by (auto simp: list_all_iff)
  moreover have "hd p \<noteq> CHR 0x22" using assms(1,2) by (metis list.set_sel(1))
  ultimately show ?thesis
    using assms trim_space_id [of p] safe_plain [of p] by (simp add: reads_as_def)
qed

definition token_key :: "string \<Rightarrow> bool" where
  "token_key k \<longleftrightarrow> k \<noteq> [] \<and> list_all (\<lambda>c. 97 \<le> byte c \<and> byte c \<le> 122) k"

lemma token_key_char:
  assumes "97 \<le> byte c" "byte c \<le> 122"
  shows "\<not> is_space c \<and> c \<noteq> CHR ''='' \<and> c \<noteq> CHR 0x22 \<and> c \<noteq> CHR '','' \<and> to_lower_char c = c"
  using assms by (auto simp: byte_def is_space_def to_lower_char_def Let_def)

lemma token_key_facts:
  assumes "token_key k"
  shows "trim_space k = k" "CHR ''='' \<notin> set k" "to_lower k = k" "safe_part k"
proof -
  have c: "\<forall>c \<in> set k. \<not> is_space c \<and> c \<noteq> CHR ''='' \<and> c \<noteq> CHR 0x22 \<and> c \<noteq> CHR '','' \<and> to_lower_char c = c"
    using assms token_key_char unfolding token_key_def list_all_iff by blast
  show "trim_space k = k" using c assms by (intro trim_space_id) (auto simp: token_key_def)
  show "CHR ''='' \<notin> set k" using c by auto
  show "to_lower k = k" using c by (simp add: to_lower_def map_idI)
  show "safe_part k" using c by (intro safe_plain) auto
qed

lemma param_pair_part:
  assumes "token_key k" "reads_as raw v" "sp = [] \<or> sp = '' ''"
  shows "param_pair (sp @ k @ ''='' @ raw) = Some (k, v)"
proof -
  have k: "trim_space (sp @ k) = k" using assms(3) token_key_facts(1) [OF assms(1)] trim_space_blank by auto
  have "CHR ''='' \<notin> set (sp @ k)" using assms(3) token_key_facts(2) [OF assms(1)] by auto
  then have "index_of (sp @ k @ ''='' @ raw) ''='' = Some (length (sp @ k))"
    using index_of_single [of "CHR ''=''" "sp @ k" raw] by simp
  then show ?thesis using assms(2) k token_key_facts(3) [OF assms(1)]
    by (auto simp: param_pair_def Let_def reads_as_def)
qed

definition part :: "string \<times> string \<times> string \<Rightarrow> string" where
  "part f = (case f of (k, raw, v) \<Rightarrow> k @ ''='' @ raw)"

definition field_ok :: "string \<times> string \<times> string \<Rightarrow> bool" where
  "field_ok f \<longleftrightarrow> (case f of (k, raw, v) \<Rightarrow> token_key k \<and> reads_as raw v)"

lemma digest_params_upd:
  "list_all (\<lambda>(p, k, v). param_pair p = Some (k, v)) xs \<Longrightarrow> distinct (map (fst \<circ> snd) xs) \<Longrightarrow>
   foldl (\<lambda>m kv. case param_pair kv of None \<Rightarrow> m | Some (k, v) \<Rightarrow> m(k \<mapsto> v)) m (map fst xs)
   = m ++ map_of (map snd xs)"
proof (induction xs arbitrary: m)
  case (Cons x xs)
  obtain p k v where x: "x = (p, k, v)" by (cases x)
  have "k \<notin> fst ` set (map snd xs)" using Cons.prems(2) x by force
  then have "map_of (map snd xs) k = None" by (simp add: map_of_eq_None_iff)
  then have "m(k \<mapsto> v) ++ map_of (map snd xs) = (m ++ map_of (map snd xs))(k \<mapsto> v)"
    by (intro map_add_upd_left) (simp add: domIff)
  moreover have "foldl (\<lambda>m kv. case param_pair kv of None \<Rightarrow> m | Some (k, v) \<Rightarrow> m(k \<mapsto> v)) (m(k \<mapsto> v)) (map fst xs)
      = m(k \<mapsto> v) ++ map_of (map snd xs)"
    using Cons by simp
  ultimately show ?case using Cons.prems(1) x by (simp del: fun_upd_apply)
qed simp

lemma join_nonempty: "ps \<noteq> [] \<Longrightarrow> last ps \<noteq> [] \<Longrightarrow> join sep ps \<noteq> []"
  by (induction ps rule: induct_list012) auto

lemma join_last: "ps \<noteq> [] \<Longrightarrow> last ps \<noteq> [] \<Longrightarrow> last (join sep ps) = last (last ps)"
proof (induction ps rule: induct_list012)
  case (3 x y xs)
  then have "join sep (y # xs) \<noteq> []" using join_nonempty [of "y # xs" sep] by simp
  then show ?case using 3 by simp
qed simp_all


definition ascii :: "string \<Rightarrow> bool" where
  "ascii s \<longleftrightarrow> (\<forall>c \<in> set s. byte c < 128)"

lemma ascii_append [simp]: "ascii (s @ t) \<longleftrightarrow> ascii s \<and> ascii t" "ascii []" "ascii (c # s) \<longleftrightarrow> byte c < 128 \<and> ascii s"
  by (auto simp: ascii_def)

lemma ascii_join: "list_all ascii ps \<Longrightarrow> ascii sep \<Longrightarrow> ascii (join sep ps)"
  by (induction ps rule: induct_list012) auto

lemma ascii_quote: "ascii s \<Longrightarrow> ascii (quote_digest s)"
  by (auto simp: ascii_def quote_digest_def quote_byte_def byte_def split: if_splits)

lemma ascii_key: "token_key k \<Longrightarrow> ascii k"
  by (auto simp: token_key_def ascii_def list_all_iff)

lemma field_facts:
  assumes "field_ok f"
  shows "safe_part (part f)" "safe_part ('' '' @ part f)" "part f \<noteq> []" "\<not> is_space (hd (part f))"
    "\<not> is_space (last (part f))"
proof -
  obtain k raw v where f: "f = (k, raw, v)" "token_key k" "reads_as raw v"
    using assms by (cases f) (auto simp: field_ok_def)
  have eq: "safe_part ''=''" "safe_part '' ''" by (intro safe_plain; simp)+
  have "safe_part (k @ ''='' @ raw)"
    using token_key_facts(4) [OF f(2)] eq(1) f(3) by (intro safe_append) (simp_all add: reads_as_def)
  then show "safe_part (part f)" by (simp add: f part_def)
  then show "safe_part ('' '' @ part f)" using eq(2) by (intro safe_append)
  show "part f \<noteq> []" by (simp add: f part_def)
  show "\<not> is_space (hd (part f))" using f(2) token_key_char unfolding token_key_def
    by (cases k) (auto simp: f part_def)
  show "\<not> is_space (last (part f))" using f(3) by (simp add: f part_def reads_as_def)
qed

lemma parse_parts:
  assumes "list_all field_ok (f # fs)" "distinct (map fst (f # fs))" "list_all (\<lambda>(k, raw, v). ascii raw) (f # fs)"
  shows "parse_digest_challenge (''Digest'' @ join '','' (map (\<lambda>f. '' '' @ part f) (f # fs))) =
    Inr (map_of (map (\<lambda>(k, raw, v). (k, v)) (f # fs)))"
proof -
  let ?sp = "map (\<lambda>f. '' '' @ part f) (f # fs)"
  let ?ps = "part f # map (\<lambda>f. '' '' @ part f) fs"
  have sp: "join '','' ?sp = CHR '' '' # join '','' ?ps" by (cases fs) simp_all
  have safe: "list_all safe_part ?ps" using assms(1) field_facts by (auto simp: list_all_iff)
  have l: "last ?ps \<noteq> [] \<and> \<not> is_space (last (last ?ps))"
  proof (cases "fs = []")
    case True
    then show ?thesis using field_facts [of f] assms(1) by simp
  next
    case False
    then have "field_ok (last fs)" using assms(1) by (simp add: list_all_iff)
    then show ?thesis using False field_facts [of "last fs"] by (simp add: last_map)
  qed
  then have j: "join '','' ?ps \<noteq> []" "last (join '','' ?ps) = last (last ?ps)"
    using join_nonempty [of ?ps] join_last [of ?ps] by blast+
  have hd_j: "hd (join '','' ?ps) = hd (part f)" using field_facts(3) [of f] assms(1) by (cases fs) simp_all
  have trim_j: "trim_space (join '','' ?ps) = join '','' ?ps"
    using j hd_j l field_facts(4) [of f] assms(1) by (intro trim_space_id) simp_all
  have trim_l: "trim_space (last ?ps) \<noteq> []"
    using l trim_space_nonempty [of "last (last ?ps)" "last ?ps"] by simp
  have asc: "ascii (join '','' ?ps)"
  proof -
    have "ascii (part g)" if "g \<in> set (f # fs)" for g
      using assms(1,3) that ascii_key by (cases g) (auto simp: list_all_iff part_def field_ok_def byte_def)
    then show ?thesis by (intro ascii_join) (auto simp: list_all_iff byte_def)
  qed
  have parts: "split_digest_params (join '','' ?ps) = ?ps"
    unfolding split_digest_params_def
    using split_parts [OF safe] trim_l runes_all_ascii [of "join '','' ?ps"] asc by (simp add: ascii_def)
  have rd: "param_pair (part g) = Some (fst g, snd (snd g))" "param_pair ('' '' @ part g) = Some (fst g, snd (snd g))"
    if "g \<in> set (f # fs)" for g
  proof -
    obtain k raw v where g: "g = (k, raw, v)" by (cases g)
    then have "token_key k" "reads_as raw v" using assms(1) that by (auto simp: list_all_iff field_ok_def)
    from param_pair_part [OF this, of "[]"] param_pair_part [OF this, of "'' ''"]
    show "param_pair (part g) = Some (fst g, snd (snd g))" "param_pair ('' '' @ part g) = Some (fst g, snd (snd g))"
      by (simp_all add: g part_def)
  qed
  let ?xs = "(part f, fst f, snd (snd f)) # map (\<lambda>g. ('' '' @ part g, fst g, snd (snd g))) fs"
  have "digest_params ?ps = Map.empty ++ map_of (map snd ?xs)"
    unfolding digest_params_def
    using digest_params_upd [of ?xs Map.empty] rd assms(2) by (simp add: list_all_iff comp_def)
  moreover have "map snd ?xs = map (\<lambda>(k, raw, v). (k, v)) (f # fs)" by (simp add: split_beta)
  ultimately have params: "digest_params ?ps = map_of (map (\<lambda>(k, raw, v). (k, v)) (f # fs))" by (simp only: empty_map_add)
  let ?h = "''Digest'' @ join '','' ?sp"
  have th: "trim_space ?h = ?h" using sp j l by (intro trim_space_id) (simp_all add: is_space_def)
  have low: "map to_lower_char ''Digest'' = ''digest''" by code_simp
  have ix: "index_of (to_lower ?h) ''digest'' = Some 0"
    using low by (simp add: to_lower_def)
  have dr: "trim_space (drop (0 + 6) ?h) = join '','' ?ps" using sp trim_space_blank trim_j by simp
  have some: "\<not> list_all (\<lambda>kv. param_pair kv = None) ?ps" using rd(1) [of f] by simp
  show ?thesis
    unfolding parse_digest_challenge_def Let_def th ix option.case dr parts params
    using some by simp
qed


lemma char_byte_eqs: "c = CHR 0x22 \<Longrightarrow> byte c = 34" "c = CHR '','' \<Longrightarrow> byte c = 44"
  "is_space c \<Longrightarrow> byte c \<in> {9, 10, 11, 12, 13, 32}"
  by (auto simp: byte_def is_space_def)

lemma hex_digit_byte: "d < 16 \<Longrightarrow> byte (hex_digit d) = (if d < 10 then 48 + int d else 87 + int d)"
  by (simp add: hex_digit_def)

lemma hex_digit_facts: "d < 16 \<Longrightarrow> byte (hex_digit d) < 128 \<and> \<not> is_space (hex_digit d) \<and>
   hex_digit d \<noteq> CHR 0x22 \<and> hex_digit d \<noteq> CHR '',''"
  using hex_digit_byte [of d] char_byte_eqs [of "hex_digit d"] by (auto split: if_splits)

definition hex_text :: "string \<Rightarrow> bool" where
  "hex_text s \<longleftrightarrow> (\<forall>c \<in> set s. byte c < 128 \<and> \<not> is_space c \<and> c \<noteq> CHR 0x22 \<and> c \<noteq> CHR '','')"

lemma hex_encode_text: "hex_text (hex_encode bs)"
proof -
  have "of_char c < (256 :: nat)" for c :: char
    using byte_range(2) [of c] by (simp add: byte_def)
  then have "of_char c div 16 < (16 :: nat)" for c :: char by (simp add: less_mult_imp_div_less)
  then show ?thesis using hex_digit_facts by (auto simp: hex_text_def hex_encode_def)
qed

lemma nat_hex_text: "hex_text (nat_hex n) \<and> nat_hex n \<noteq> []"
proof (induction n rule: nat_hex.induct)
  case (1 n)
  then show ?case using hex_digit_facts by (subst (1 2) nat_hex.simps) (auto simp: hex_text_def)
qed

lemma ball_union: "(\<forall>c \<in> A. P c) \<Longrightarrow> (\<forall>c \<in> B. P c) \<Longrightarrow> S \<subseteq> A \<union> B \<Longrightarrow> (\<forall>c \<in> S. P c)"
  by blast

lemma hex_text_union: "hex_text a \<Longrightarrow> hex_text b \<Longrightarrow> set s \<subseteq> set a \<union> set b \<Longrightarrow> hex_text s"
  unfolding hex_text_def by (rule ball_union)

lemma hex08_text: "hex_text (hex08 n)" "hex08 n \<noteq> []"
proof -
  have "hex_text ''0''" by (simp add: hex_text_def is_space_def byte_def)
  moreover have "set (hex08 n) \<subseteq> set ''0'' \<union> set (nat_hex n)" 
  proof -
    have "set (replicate k (CHR ''0'')) \<subseteq> set ''0''" for k by (simp add: set_replicate_conv_if)
    then show ?thesis unfolding hex08_def Let_def set_append by blast
  qed
  ultimately show "hex_text (hex08 n)" using hex_text_union nat_hex_text [THEN conjunct1] by blast
  show "hex08 n \<noteq> []" using nat_hex_text [of n] by (simp add: hex08_def Let_def)
qed

lemma hex_ascii: "hex_text s \<Longrightarrow> ascii s"
  by (simp add: hex_text_def ascii_def)

lemma hash_text: "hex_text (digest_hash L a s)"
  using hex_encode_text by (simp add: digest_hash_def)

lemma random_hex_ascii: "ascii (random_hex n r)"
  using hex_ascii [OF hex_encode_text] by (auto simp: random_hex_def ascii_def byte_def split: option.split)

text \<open>The algorithms a challenge may name are plain tokens.\<close>

lemma algorithm_plain:
  assumes "to_upper a \<in> {[], ''MD5'', ''SHA-256''}"
  shows "ascii a \<and> CHR 0x22 \<notin> set a \<and> CHR '','' \<notin> set a \<and> list_all (\<lambda>c. \<not> is_space c) a"
proof -
  have "to_upper_char c \<in> set ''MD5SHA-26''" if "c \<in> set a" for c
  proof -
    have "to_upper_char c \<in> set (to_upper a)" using that by (simp add: to_upper_def)
    then show ?thesis using assms by auto
  qed
  moreover have "byte c < 128 \<and> c \<noteq> CHR 0x22 \<and> c \<noteq> CHR '','' \<and> \<not> is_space c"
    if "to_upper_char c \<in> set ''MD5SHA-26''" for c
    using that by (auto simp: to_upper_char_def Let_def is_space_def byte_def split: if_splits)
  ultimately show ?thesis by (auto simp: ascii_def list_all_iff)
qed

definition header_fields ::
  "digest_lib \<Rightarrow> bytes option \<Rightarrow> credentials \<Rightarrow> http_request \<Rightarrow> challenge \<Rightarrow> string \<Rightarrow> string \<Rightarrow>
   (string \<times> string \<times> string) list" where
  "header_fields L rdm cr req c ha1 nc =
     (let cnonce = (if ch_qop c = ''auth'' then random_hex 16 rdm else []);
          quoted = (\<lambda>k v. (k, quote_digest v, v)) in
      [quoted ''username'' (cr_username cr), quoted ''realm'' (ch_realm c), quoted ''nonce'' (ch_nonce c),
       quoted ''uri'' (hq_uri req), quoted ''response'' (digest_response L req c ha1 nc cnonce)] @
      (if ch_algorithm c \<noteq> [] then [(''algorithm'', ch_algorithm c, ch_algorithm c)] else []) @
      (if ch_opaque c \<noteq> [] then [quoted ''opaque'' (ch_opaque c)] else []) @
      (if ch_qop c = ''auth'' then [(''qop'', ''auth'', ''auth''), (''nc'', nc, nc), quoted ''cnonce'' cnonce] else []))"

lemma digest_header_parts:
  "digest_header L rdm cr req c ha1 nc =
   ''Digest'' @ join '','' (map (\<lambda>f. '' '' @ part f) (header_fields L rdm cr req c ha1 nc))"
  by (simp add: digest_header_def header_fields_def part_def Let_def)

lemma digest_header_parsed:
  assumes "ascii (cr_username cr)" "ascii (ch_realm c)" "ascii (ch_nonce c)" "ascii (hq_uri req)" "ascii (ch_opaque c)"
    and "to_upper (ch_algorithm c) \<in> {[], ''MD5'', ''SHA-256''}"
  shows "parse_digest_challenge (digest_header L rdm cr req c ha1 (hex08 n)) =
    Inr (map_of (map (\<lambda>(k, raw, v). (k, v)) (header_fields L rdm cr req c ha1 (hex08 n))))"
proof -
  let ?fs = "header_fields L rdm cr req c ha1 (hex08 n)"
  have keys: "list_all token_key [''username'', ''realm'', ''nonce'', ''uri'', ''response'', ''algorithm'', ''opaque'',
      ''qop'', ''nc'', ''cnonce'']"
    by code_simp
  have alg: "ch_algorithm c \<noteq> [] \<Longrightarrow> reads_as (ch_algorithm c) (ch_algorithm c) \<and> ascii (ch_algorithm c)"
    using algorithm_plain [OF assms(6)] by (intro conjI reads_plain) auto
  have nc: "reads_as (hex08 n) (hex08 n)"
    using hex08_text [of n] by (intro reads_plain) (auto simp: hex_text_def list_all_iff)
  have auth: "reads_as ''auth'' ''auth''" by (intro reads_plain) (simp_all add: is_space_def)
  have ok: "list_all field_ok ?fs"
    using keys alg nc auth reads_quote by (simp add: header_fields_def field_ok_def Let_def)
  have "map fst ?fs = [''username'', ''realm'', ''nonce'', ''uri'', ''response''] @
      (if ch_algorithm c \<noteq> [] then [''algorithm''] else []) @ (if ch_opaque c \<noteq> [] then [''opaque''] else []) @
      (if ch_qop c = ''auth'' then [''qop'', ''nc'', ''cnonce''] else [])"
    by (simp add: header_fields_def Let_def)
  then have d: "distinct (map fst ?fs)" by simp
  have a: "list_all (\<lambda>(k, raw, v). ascii raw) ?fs"
    using assms(1-5) alg ascii_quote hex_ascii [OF hex08_text(1)] hex_ascii [OF hash_text] random_hex_ascii
    by (simp add: header_fields_def Let_def digest_response_def byte_def)
  obtain f fs where f: "?fs = f # fs" by (cases ?fs) (auto simp: header_fields_def Let_def)
  show ?thesis using parse_parts [of f fs] ok d a unfolding digest_header_parts f by blast
qed


end
