(* ===== verification/Digest_State.thy ===== *)
theory Digest_State
  imports Digest
begin

text \<open>
  The digest credentials as shared state: the cache of the credential hash under any sequence of
  calls, and the nonce counter under any interleaving of workers.  Holds the properties of
  \<^verbatim>\<open>internal/config/digest.go\<close> and \<^verbatim>\<open>auth.go\<close>.
\<close>

subsection \<open>The cache of the credential hash\<close>

definition ha1_ok :: "digest_lib \<Rightarrow> string \<Rightarrow> string \<Rightarrow> digest_state \<Rightarrow> bool" where
  "ha1_ok L user password d \<longleftrightarrow> dg_ha1 d = [] \<or>
     dg_ha1 d = digest_hash L (dg_ha1Algo d) (user @ '':'' @ dg_ha1Realm d @ '':'' @ password)"

definition creds_ok :: "digest_lib \<Rightarrow> string \<Rightarrow> string \<Rightarrow> credentials \<Rightarrow> bool" where
  "creds_ok L user password cr \<longleftrightarrow> cr_username cr = user \<and> cr_password cr = password
     \<and> (case cr_digest cr of None \<Rightarrow> True | Some d \<Rightarrow> ha1_ok L user password d)"

text \<open>The calls that touch the shared state, in any order.\<close>

datatype cred_op = SetChallenge string | AuthorizeOnce string http_request | Apply http_request

definition cred_step :: "digest_lib \<Rightarrow> cred_op \<Rightarrow> credentials \<Rightarrow> credentials" where
  "cred_step L op cr = (case op of
     SetChallenge h \<Rightarrow> (case set_challenge L h (Some cr) of Inl e \<Rightarrow> cr | Inr cr' \<Rightarrow> cr')
   | AuthorizeOnce h req \<Rightarrow> (case snd (authorize_once L None (Some cr) req h) of None \<Rightarrow> cr | Some cr' \<Rightarrow> cr')
   | Apply req \<Rightarrow> fst (apply_digest L None cr req))"

lemma ha1_for_ok:
  assumes "creds_ok L u p cr"
  shows "fst (ha1_for L cr c) = digest_hash L (ch_algorithm c) (u @ '':'' @ ch_realm c @ '':'' @ p)
    \<and> creds_ok L u p (snd (ha1_for L cr c))"
  using assms by (auto simp: creds_ok_def ha1_for_def ha1_ok_def secret_of_def Let_def split: option.splits)

lemma cred_step_ok: "creds_ok L u p cr \<Longrightarrow> creds_ok L u p (cred_step L op cr)"
proof (induction op)
  case (SetChallenge h)
  then show ?case
    by (cases "cr_digest cr"; cases "parse_challenge h")
      (auto simp: cred_step_def set_challenge_def install_challenge_def creds_ok_def ha1_ok_def secret_of_def)
next
  case (AuthorizeOnce h req)
  then show ?case 
    using ha1_for_ok [of L u p cr, THEN conjunct2]
    by (cases "parse_challenge h") (simp_all add: cred_step_def authorize_once_def split_beta)
next
  case (Apply req)
  then show ?case
    by (auto simp: cred_step_def apply_digest_def creds_ok_def ha1_ok_def Let_def split: option.split)
qed

lemma cred_run_ok: "creds_ok L u p cr \<Longrightarrow> creds_ok L u p (foldl (\<lambda>c op. cred_step L op c) cr ops)"
  by (induction ops arbitrary: cr) (simp_all add: cred_step_ok)

lemma resolve_creds_ok:
  "resolve_credentials w c = Inr cr \<Longrightarrow> creds_ok L (cr_username cr) (cr_password cr) cr"
  by (auto simp: resolve_credentials_def creds_ok_def ha1_ok_def new_digest_state_def Let_def and_then_Inr
      split: if_splits)

subsection \<open>Counting responses\<close>

text \<open>The parts of \<^verbatim>\<open>applyDigest\<close> that run under the lock, and the atomic increment after it,
  as steps of a system of workers: a worker that has copied the challenge holds it until it counts.
  \<open>ds_sent\<close> is the nonce and count of every header sent, newest first.  The code replaces the challenge
  at any moment (\<open>careful = False\<close>); the careful variant waits until no worker holds a copy, and brings
  a nonce that has not been used.\<close>

datatype worker = Idle | Holding challenge string

record digest_sys =
  ds_state :: digest_state
  ds_worker :: "nat \<Rightarrow> worker"
  ds_sent :: "(string \<times> 64 word) list"

inductive digest_step :: "digest_lib \<Rightarrow> credentials \<Rightarrow> bool \<Rightarrow> digest_sys \<Rightarrow> digest_sys \<Rightarrow> bool"
  for L cr careful where
  Copy: "ds_worker s i = Idle \<Longrightarrow> ch_nonce (dg_challenge (ds_state s)) \<noteq> [] \<Longrightarrow>
    digest_step L cr careful s
      (s\<lparr>ds_worker := (ds_worker s)(i := Holding (dg_challenge (ds_state s)) (dg_ha1 (ds_state s)))\<rparr>)"
| Count: "ds_worker s i = Holding c ha1 \<Longrightarrow>
    digest_step L cr careful s (s\<lparr>ds_state := (ds_state s)\<lparr>dg_nc := dg_nc (ds_state s) + 1\<rparr>,
      ds_worker := (ds_worker s)(i := Idle),
      ds_sent := (ch_nonce c, dg_nc (ds_state s) + 1) # ds_sent s\<rparr>)"
| Install: "careful \<longrightarrow> (\<forall>i. ds_worker s i = Idle) \<and> ch_nonce c \<notin> fst ` set (ds_sent s) \<Longrightarrow>
    digest_step L cr careful s (s\<lparr>ds_state := install_challenge L cr c (ds_state s)\<rparr>)"

definition digest_init :: digest_sys where
  "digest_init = \<lparr>ds_state = new_digest_state, ds_worker = (\<lambda>_. Idle), ds_sent = []\<rparr>"

definition counted :: "digest_sys \<Rightarrow> bool" where
  "counted s \<longleftrightarrow> distinct (ds_sent s) \<and> unat (dg_nc (ds_state s)) \<le> length (ds_sent s)
     \<and> (\<forall>i c h. ds_worker s i = Holding c h \<longrightarrow> c = dg_challenge (ds_state s))
     \<and> (\<forall>k. (ch_nonce (dg_challenge (ds_state s)), k) \<in> set (ds_sent s) \<longrightarrow>
          unat k \<le> unat (dg_nc (ds_state s)))"

lemma sent_grows: "digest_step L cr careful s t \<Longrightarrow> length (ds_sent s) \<le> length (ds_sent t)"
  by (induction rule: digest_step.induct) auto

lemma unat_succ: "unat (x :: 64 word) + 1 < 2 ^ 64 \<Longrightarrow> unat (x + 1) = unat x + 1"
  by (simp add: unat_word_ariths)

lemma counted_step:
  assumes "digest_step L cr True s t" "counted s" "length (ds_sent t) < 2 ^ 64"
  shows "counted t"
  using assms(1)
proof (cases rule: digest_step.cases)
  case (Copy i)
  then show ?thesis using assms(2) by (auto simp: counted_def)
next
  case (Count i c h)
  let ?n = "dg_nc (ds_state s)"
  have c: "c = dg_challenge (ds_state s)" using Count assms(2) unfolding counted_def by blast
  have "unat ?n + 1 < 2 ^ 64" using assms(2,3) Count by (simp add: counted_def)
  then have n: "unat (?n + 1) = unat ?n + 1" by (rule unat_succ)
  have new: "(ch_nonce c, ?n + 1) \<notin> set (ds_sent s)"
  proof
    assume "(ch_nonce c, ?n + 1) \<in> set (ds_sent s)"
    then have "unat (?n + 1) \<le> unat ?n" using c assms(2) unfolding counted_def by blast
    then show False using n by simp
  qed
  have le: "unat k \<le> unat ?n + 1" if "(ch_nonce c, k) \<in> set (ds_sent s)" for k
    using that c assms(2) unfolding counted_def by (meson le_Suc_eq trans_le_add1)
  show ?thesis using Count assms(2) c n new le by (auto simp: counted_def)
next
  case (Install c)
  then show ?thesis using assms(2) by (force simp: counted_def install_challenge_def)
qed

lemma counted_reach:
  "rtranclp (digest_step L cr True) digest_init s \<Longrightarrow> length (ds_sent s) < 2 ^ 64 \<Longrightarrow> counted s"
proof (induction rule: rtranclp_induct)
  case base
  then show ?case by (simp add: digest_init_def counted_def new_digest_state_def)
next
  case (step s t)
  then show ?case using counted_step sent_grows by (meson le_less_trans)
qed

subsection \<open>Properties\<close>

text \<open>C29: the Authorization header says what the client computed.  Reading the header that
  \<^verbatim>\<open>digestHeader\<close> writes, with the program's own parameter reader, gives back the user name, the
  realm, the nonce, the uri and the opaque value unchanged, whatever quotes, backslashes, commas or
  equals signs they contain (in ASCII), together with the response computed for exactly this request,
  and with qop, nonce count and client nonce exactly when qop is used.\<close>

theorem digest_header_roundtrip:
  assumes "ascii (cr_username cr)" "ascii (ch_realm c)" "ascii (ch_nonce c)" "ascii (hq_uri req)" "ascii (ch_opaque c)"
    and "to_upper (ch_algorithm c) \<in> {[], ''MD5'', ''SHA-256''}"
  shows "\<exists>m. parse_digest_challenge (digest_header L rdm cr req c ha1 (hex08 n)) = Inr m
    \<and> m ''username'' = Some (cr_username cr) \<and> m ''realm'' = Some (ch_realm c) \<and> m ''nonce'' = Some (ch_nonce c)
    \<and> m ''uri'' = Some (hq_uri req) \<and> map_get m ''opaque'' = ch_opaque c \<and> map_get m ''algorithm'' = ch_algorithm c
    \<and> m ''qop'' = (if ch_qop c = ''auth'' then Some ''auth'' else None)
    \<and> m ''nc'' = (if ch_qop c = ''auth'' then Some (hex08 n) else None)
    \<and> m ''cnonce'' = (if ch_qop c = ''auth'' then Some (random_hex 16 rdm) else None)
    \<and> m ''response'' = Some (digest_response L req c ha1 (hex08 n) (map_get m ''cnonce''))"
  unfolding digest_header_parsed [OF assms]
  by (rule exI, rule conjI [OF refl]) (simp add: header_fields_def map_get_def Let_def)

theorem digest_header_roundtrip_witness:
  "\<exists>m. parse_digest_challenge (digest_header \<lparr>dl_md5 = id, dl_sha256 = id\<rparr> (Some ''r'')
      \<lparr>cr_username = ''a, b'', cr_password = ''pw'', cr_token = [], cr_headers = [], cr_digest = None\<rparr>
      \<lparr>hq_method = ''POST'', hq_uri = ''/t=1'', hq_header = Map.empty, hq_body = []\<rparr>
      \<lparr>ch_realm = ''r'', ch_nonce = ''x,y='', ch_opaque = [], ch_qop = ''auth'', ch_algorithm = ''md5''\<rparr> ''h'' (hex08 1)) = Inr m
    \<and> m ''username'' = Some ''a, b'' \<and> m ''nonce'' = Some ''x,y=''"
proof -
  let ?cr = "\<lparr>cr_username = ''a, b'', cr_password = ''pw'', cr_token = [], cr_headers = [], cr_digest = None\<rparr>"
  let ?rq = "\<lparr>hq_method = ''POST'', hq_uri = ''/t=1'', hq_header = Map.empty, hq_body = []\<rparr>"
  let ?c = "\<lparr>ch_realm = ''r'', ch_nonce = ''x,y='', ch_opaque = [], ch_qop = ''auth'', ch_algorithm = ''md5''\<rparr>"
  have "to_upper ''md5'' = ''MD5''" by code_simp
  then show ?thesis
    using digest_header_roundtrip [of ?cr ?c ?rq "\<lparr>dl_md5 = id, dl_sha256 = id\<rparr>" "Some ''r''" "''h''" 1]
    by (auto simp: byte_def)
qed

text \<open>The cached credential hash is invisible.  After any sequence of challenges installed,
  answered once and applied, whatever headers the servers sent, the hash used for a challenge is the one
  computed from its own realm and algorithm and from the resolved user name and password.\<close>

theorem ha1_cache_transparent:
  assumes "resolve_credentials w c = Inr cr"
  shows "fst (ha1_for L (foldl (\<lambda>cr op. cred_step L op cr) cr ops) ch) =
    digest_hash L (ch_algorithm ch) (cr_username cr @ '':'' @ ch_realm ch @ '':'' @ cr_password cr)"
  using ha1_for_ok [OF cred_run_ok [OF resolve_creds_ok [OF assms]]] by blast

theorem ha1_cache_transparent_witness:
  "fst (ha1_for \<lparr>dl_md5 = id, dl_sha256 = id\<rparr>
     (foldl (\<lambda>cr op. cred_step \<lparr>dl_md5 = id, dl_sha256 = id\<rparr> op cr)
        \<lparr>cr_username = [], cr_password = [], cr_token = ''s3cret'', cr_headers = [], cr_digest = None\<rparr>
        [SetChallenge ''Digest realm=a, nonce=b''])
     \<lparr>ch_realm = ''r'', ch_nonce = ''n'', ch_opaque = [], ch_qop = [], ch_algorithm = []\<rparr>) =
   digest_hash \<lparr>dl_md5 = id, dl_sha256 = id\<rparr> [] '':r:''"
proof -
  have p: "cf_provider demo_config = demo_provider"
    by (simp add: demo_config_def apply_defaults_def default_config_def DefaultHardCap_def)
  have r: "resolve_credentials demo_world demo_config =
      Inr \<lparr>cr_username = [], cr_password = [], cr_token = ''s3cret'', cr_headers = [], cr_digest = None\<rparr>"
    by (simp add: resolve_credentials_def p demo_provider_def auth_types get_env_def demo_world_def)
  show ?thesis using ha1_cache_transparent [OF r, of "\<lparr>dl_md5 = id, dl_sha256 = id\<rparr>"
      "[SetChallenge ''Digest realm=a, nonce=b'']"
      "\<lparr>ch_realm = ''r'', ch_nonce = ''n'', ch_opaque = [], ch_qop = [], ch_algorithm = []\<rparr>"] by simp
qed


text \<open>A run up to the moment at which two workers hold the first challenge, one of which counts.\<close>

definition demo_nonce :: "string \<Rightarrow> challenge" where
  "demo_nonce n = no_challenge\<lparr>ch_nonce := n\<rparr>"

lemma demo_digest_run:
  "\<exists>s h. rtranclp (digest_step L cr careful) digest_init s \<and> ds_sent s = [(''n'', 1)]
     \<and> ds_worker s 1 = Holding (demo_nonce ''n'') h \<and> ds_worker s 0 = Idle"
proof -
  define s1 where "s1 = digest_init\<lparr>ds_state := install_challenge L cr (demo_nonce ''n'') (ds_state digest_init)\<rparr>"
  define s2 where "s2 = s1\<lparr>ds_worker := (ds_worker s1)(0 := Holding (dg_challenge (ds_state s1)) (dg_ha1 (ds_state s1)))\<rparr>"
  define s3 where "s3 = s2\<lparr>ds_worker := (ds_worker s2)(1 := Holding (dg_challenge (ds_state s2)) (dg_ha1 (ds_state s2)))\<rparr>"
  define s4 where "s4 = s3\<lparr>ds_state := (ds_state s3)\<lparr>dg_nc := dg_nc (ds_state s3) + 1\<rparr>,
      ds_worker := (ds_worker s3)(0 := Idle), ds_sent := (ch_nonce (demo_nonce ''n''), dg_nc (ds_state s3) + 1) # ds_sent s3\<rparr>"
  note defs = s1_def digest_init_def install_challenge_def demo_nonce_def no_challenge_def
  have "digest_step L cr careful digest_init s1"
    unfolding s1_def by (rule digest_step.Install) (simp add: digest_init_def)
  moreover have "digest_step L cr careful s1 s2"
    unfolding s2_def by (rule digest_step.Copy) (simp_all add: defs)
  moreover have "digest_step L cr careful s2 s3"
    unfolding s3_def by (rule digest_step.Copy) (simp_all add: s2_def defs)
  moreover have "digest_step L cr careful s3 s4"
    unfolding s4_def by (rule digest_step.Count [of _ 0 _ "dg_ha1 (ds_state s1)"]) (simp add: s3_def s2_def defs)
  ultimately have "rtranclp (digest_step L cr careful) digest_init s4"
    by (meson converse_rtranclp_into_rtranclp rtranclp.rtrancl_refl)
  moreover have "ds_sent s4 = [(''n'', 1)]" "ds_worker s4 0 = Idle"
    by (simp_all add: s4_def s3_def s2_def defs)
  moreover have "ds_worker s4 1 = Holding (demo_nonce ''n'') (dg_ha1 (ds_state s1))"
    by (simp add: s4_def s3_def s2_def defs)
  ultimately show ?thesis by blast
qed


text \<open>The count can repeat, because the challenge is copied under the lock but the counter is
  incremented outside it.  A worker that copied a challenge just before another installs a new one sends
  the old nonce with a count that restarted: in a reachable state the same nonce and count have been sent
  twice, which a server reads as a replay.\<close>

theorem nonce_count_repeats:
  "\<exists>s. rtranclp (digest_step L cr False) digest_init s \<and> ds_sent s = [(''n'', 1), (''n'', 1)]"
proof -
  obtain s h where s: "rtranclp (digest_step L cr False) digest_init s" "ds_sent s = [(''n'', 1)]"
      "ds_worker s 1 = Holding (demo_nonce ''n'') h"
    using demo_digest_run by blast
  define t where "t = s\<lparr>ds_state := install_challenge L cr (demo_nonce ''m'') (ds_state s)\<rparr>"
  define u where "u = t\<lparr>ds_state := (ds_state t)\<lparr>dg_nc := dg_nc (ds_state t) + 1\<rparr>, ds_worker := (ds_worker t)(1 := Idle),
      ds_sent := (ch_nonce (demo_nonce ''n''), dg_nc (ds_state t) + 1) # ds_sent t\<rparr>"
  have "digest_step L cr False s t" unfolding t_def by (rule digest_step.Install) simp
  moreover have "digest_step L cr False t u"
    unfolding u_def by (rule digest_step.Count [of _ 1 _ h]) (use s(3) in \<open>simp add: t_def\<close>)
  moreover have "ds_sent u = [(''n'', 1), (''n'', 1)]"
    by (simp add: u_def t_def s(2) demo_nonce_def install_challenge_def)
  ultimately show ?thesis using s(1) by (meson rtranclp.rtrancl_into_rtrancl)
qed

lemma resolve_headers_Inr:
  "list_all (header_ok w) hs \<Longrightarrow>
   (\<exists>vs. resolve_headers w hs = Inr vs) \<longleftrightarrow> list_all (\<lambda>h. has_prefix (snd h) ''env:'') hs"
proof (induction w hs rule: resolve_headers.induct)
  case (2 w name ref hs)
  show ?case
  proof (cases "has_prefix ref ''env:''")
    case True
    then obtain v where "get_env w (drop 4 ref) = Inr v"
      using "2.prems" by (auto simp: header_ok_def env_named_def get_env_def split: option.splits)
    then show ?thesis using 2 True by (auto simp: and_then_Inr)
  qed simp
qed simp

lemma env_named_get: "env_named w name \<Longrightarrow> \<exists>v. get_env w name = Inr v"
  by (auto simp: env_named_def get_env_def split: option.splits)

lemma resolve_iff:
  assumes ord: "\<And>xs. set (map_order w xs) = set xs" and v: "config_ok w c"
  shows "(\<exists>cr. resolve_credentials w c = Inr cr) \<longleftrightarrow>
    au_type (pv_auth (cf_provider c)) \<noteq> AuthHeader \<or>
    list_all (\<lambda>h. has_prefix (snd h) ''env:'') (au_headers (pv_auth (cf_provider c)))"
proof -
  let ?a = "pv_auth (cf_provider c)"
  have ok: "auth_ok w c" using v by (simp add: config_ok_def)
  consider (h) "au_type ?a = AuthHeader" | (b) "au_type ?a = AuthBasic \<or> au_type ?a = AuthDigest"
    | (t) "au_type ?a = AuthBearer" | (o) "au_type ?a \<notin> {AuthHeader, AuthBasic, AuthDigest, AuthBearer}" by blast
  then show ?thesis
  proof cases
    case h
    then have hs: "list_all (header_ok w) (map_order w (au_headers ?a))"
      using ok ord by (auto simp: auth_ok_def auth_types list_all_iff Let_def)
    have "(\<exists>cr. resolve_credentials w c = Inr cr) \<longleftrightarrow> (\<exists>vs. resolve_headers w (map_order w (au_headers ?a)) = Inr vs)"
      using h by (auto simp: resolve_credentials_def auth_types and_then_Inr Let_def)
    then show ?thesis using resolve_headers_Inr [OF hs] h ord by (simp add: list_all_iff)
  next
    case b
    then have "env_named w (au_usernameEnv ?a)" "env_named w (au_passwordEnv ?a)"
      using ok by (auto simp: auth_ok_def auth_types Let_def)
    then obtain u p where "get_env w (au_usernameEnv ?a) = Inr u" "get_env w (au_passwordEnv ?a) = Inr p"
      using env_named_get by blast
    then show ?thesis using b by (auto simp: resolve_credentials_def auth_types Let_def)
  next
    case t
    then have "env_named w (au_tokenEnv ?a)" using ok by (auto simp: auth_ok_def auth_types Let_def)
    then obtain v where "get_env w (au_tokenEnv ?a) = Inr v" using env_named_get by blast
    then show ?thesis using t by (auto simp: resolve_credentials_def auth_types Let_def)
  next
    case o
    then show ?thesis by (auto simp: resolve_credentials_def Let_def)
  qed
qed

text \<open>What validation accepts resolves.  For a configuration without problems the credentials
  resolve in the same environment, except in one case: a header value that holds a reference in the
  dollar form instead of \<^verbatim>\<open>env:\<close> passes validation and is rejected here.\<close>

theorem resolve_validated:
  assumes "\<And>xs. set (map_order w xs) = set xs" and "validate w c = []"
  shows "(\<exists>cr. resolve_credentials w c = Inr cr) \<longleftrightarrow>
    au_type (pv_auth (cf_provider c)) \<noteq> AuthHeader \<or>
    list_all (\<lambda>h. has_prefix (snd h) ''env:'') (au_headers (pv_auth (cf_provider c)))"
  using resolve_iff [OF assms(1)] validate_Nil [OF assms(1)] assms(2) by blast

theorem resolve_validated_witness: "\<exists>cr. resolve_credentials demo_world demo_config = Inr cr"
proof -
  have ord: "set (map_order demo_world xs) = set xs" for xs by (simp add: demo_world_def)
  have "cf_provider demo_config = demo_provider"
    by (simp add: demo_config_def apply_defaults_def default_config_def DefaultHardCap_def)
  then have "au_type (pv_auth (cf_provider demo_config)) \<noteq> AuthHeader"
    by (simp add: demo_provider_def auth_types)
  then show ?thesis
    using resolve_validated [OF ord, of demo_config] validate_Nil [OF ord, of demo_config] demo_config_ok by blast
qed

end
