(* ===== verification/Transport.thy ===== *)
theory Transport
  imports Digest Errclass
begin

text \<open>
  Sending a timestamp request, \<^verbatim>\<open>internal/transport/auth.go\<close>, \<^verbatim>\<open>challenge.go\<close> and
  \<^verbatim>\<open>transport.go\<close>.  The server and the network are one function from the requests sent so far
  (the newest last) to what happens to the newest; \<open>net_log\<close> is the HTTP traffic of the run.  Whether
  an endpoint parses, and to which request URI, is \<open>te_new_request\<close>; \<open>te_rand\<close> delivers random bytes.
\<close>

record http_reply =
  hp_status :: int
  hp_wwwAuthenticate :: string
  hp_cookies :: "(string \<times> string) list"
  hp_contentType :: string
  hp_body :: bytes
  hp_readError :: "goerr option"

record exchange =
  ex_written :: bool
  ex_result :: "goerr + http_reply"

record net =
  net_log :: "http_request list"
  net_wrote :: bool

record transport_env =
  te_digest :: digest_lib
  te_world :: world
  te_new_request :: "string \<Rightarrow> string + string"
  te_rand :: "nat \<Rightarrow> bytes option"
  te_server :: "http_request list \<Rightarrow> exchange"

record authenticator =
  at_creds :: "credentials option"
  at_authType :: string
  at_perRequest :: bool
  at_endpoint :: string
  at_requests :: int

text \<open>\<^verbatim>\<open>client.Do\<close>; a request that carries the trace reports when it has been written.\<close>

definition client_do :: "transport_env \<Rightarrow> bool \<Rightarrow> http_request \<Rightarrow> net \<Rightarrow> (goerr + http_reply) \<times> net" where
  "client_do E traced req n =
     (let log = net_log n @ [req]; ex = te_server E log in
      (ex_result ex, n\<lparr>net_log := log, net_wrote := net_wrote n \<or> (traced \<and> ex_written ex)\<rparr>))"

definition new_request :: "string \<Rightarrow> bytes \<Rightarrow> http_request" where
  "new_request uri body = \<lparr>hq_method = ''POST'', hq_uri = uri, hq_header = Map.empty, hq_body = body\<rparr>"

subsection \<open>Drawing a challenge\<close>

definition join_cookies :: "(string \<times> string) list \<Rightarrow> string" where
  "join_cookies cs = foldl (\<lambda>cookie (name, v). (if cookie \<noteq> [] then cookie @ ''; '' else cookie) @ name @ ''='' @ v) [] cs"

definition draw_digest_challenge ::
  "transport_env \<Rightarrow> string \<Rightarrow> string \<Rightarrow> bool \<Rightarrow> net \<Rightarrow> (goerr + string \<times> string) \<times> net" where
  "draw_digest_challenge E endpoint contentType traced n =
     (case te_new_request E endpoint of
        Inl e \<Rightarrow> (Inl (wrap_error ''build challenge request: '' (plain_error e)), n)
      | Inr uri \<Rightarrow>
         (case client_do E traced (header_set ''Content-Type'' contentType (new_request uri [])) n of
            (Inl e, n1) \<Rightarrow> (Inl e, n1)
          | (Inr resp, n1) \<Rightarrow>
             (if hp_status resp \<noteq> 401
                then (Inl (plain_error (''expected a 401 digest challenge, got HTTP '' @ int_dec (hp_status resp))), n1)
              else if hp_wwwAuthenticate resp = []
                then (Inl (plain_error ''the 401 carried no WWW-Authenticate header''), n1)
              else (Inr (hp_wwwAuthenticate resp, join_cookies (hp_cookies resp)), n1))))"

subsection \<open>The authenticator\<close>

definition uses_per_request_challenge :: "config \<Rightarrow> bool" where
  "uses_per_request_challenge cfg \<longleftrightarrow>
     au_type (pv_auth (cf_provider cfg)) = AuthDigest \<and> au_challengePerRequest (pv_auth (cf_provider cfg))"

definition new_authenticator :: "config \<Rightarrow> credentials option \<Rightarrow> authenticator" where
  "new_authenticator cfg creds = \<lparr>at_creds = creds, at_authType = au_type (pv_auth (cf_provider cfg)),
     at_perRequest = au_challengePerRequest (pv_auth (cf_provider cfg)), at_endpoint = pv_endpoint (cf_provider cfg),
     at_requests = 0\<rparr>"

definition count_request :: "authenticator \<Rightarrow> authenticator" where
  "count_request a = a\<lparr>at_requests := s64 (at_requests a + 1)\<rparr>"

definition draw ::
  "transport_env \<Rightarrow> bool \<Rightarrow> authenticator \<Rightarrow> net \<Rightarrow> (goerr + string \<times> string) \<times> authenticator \<times> net" where
  "draw E traced a n =
     (case draw_digest_challenge E (at_endpoint a) content_type_request traced n of
        (r, n1) \<Rightarrow> (r, count_request a, n1))"

definition prime :: "transport_env \<Rightarrow> authenticator \<Rightarrow> net \<Rightarrow> goerr option \<times> authenticator \<times> net" where
  "prime E a n =
     (if at_authType a \<noteq> AuthDigest \<or> at_perRequest a \<or> has_challenge (at_creds a) then (None, a, n)
      else (case draw E False a n of
         (Inl e, a1, n1) \<Rightarrow> (Some (wrap_error ''prime digest authentication: '' e), a1, n1)
       | (Inr (ch, _), a1, n1) \<Rightarrow>
          (case set_challenge (te_digest E) ch (at_creds a1) of
             Inl e \<Rightarrow> (Some (wrap_error ''prime digest authentication: '' (plain_error e)), a1, n1)
           | Inr cr \<Rightarrow> (None, a1\<lparr>at_creds := Some cr\<rparr>, n1))))"

definition auth_error :: "string \<Rightarrow> goerr" where
  "auth_error e = tag_error KAuth (wrap_error ''cannot answer digest challenge: '' (plain_error e))"

definition authorize ::
  "transport_env \<Rightarrow> bool \<Rightarrow> http_request \<Rightarrow> authenticator \<Rightarrow> net \<Rightarrow> (goerr + http_request) \<times> authenticator \<times> net" where
  "authorize E traced req a n =
     (let rdm = te_rand E (length (net_log n)) in
      if \<not> at_perRequest a \<or> at_authType a \<noteq> AuthDigest then
        (case apply_credentials (te_digest E) (te_world E) rdm (at_authType a) (at_creds a) req of
           (cr, req') \<Rightarrow> (Inr req', a\<lparr>at_creds := cr\<rparr>, n))
      else (case draw E traced a n of
         (Inl e, a1, n1) \<Rightarrow> (Inl e, a1, n1)
       | (Inr (ch, cookie), a1, n1) \<Rightarrow>
          (let req1 = (if cookie \<noteq> [] then header_set ''Cookie'' cookie req else req) in
           case authorize_once (te_digest E) rdm (at_creds a1) req1 ch of
             (Inl e, cr) \<Rightarrow> (Inl (auth_error e), a1\<lparr>at_creds := cr\<rparr>, n1)
           | (Inr req2, cr) \<Rightarrow> (Inr req2, a1\<lparr>at_creds := cr\<rparr>, n1))))"

text \<open>\<^verbatim>\<open>RetryStale\<close>: whether the challenge should be answered, and the error of storing it.\<close>

definition retry_stale :: "transport_env \<Rightarrow> http_reply \<Rightarrow> authenticator \<Rightarrow> (bool \<times> goerr option) \<times> authenticator" where
  "retry_stale E resp a =
     (if hp_status resp \<noteq> 401 \<or> at_authType a \<noteq> AuthDigest \<or> at_perRequest a
         \<or> \<not> is_stale_challenge (hp_status resp) (hp_wwwAuthenticate resp)
      then ((False, None), a)
      else (case set_challenge (te_digest E) (hp_wwwAuthenticate resp) (at_creds a) of
         Inl e \<Rightarrow> ((True, Some (auth_error e)), a)
       | Inr cr \<Rightarrow> ((True, None), count_request (a\<lparr>at_creds := Some cr\<rparr>))))"

subsection \<open>Posting a timestamp request\<close>

text \<open>The closure \<^verbatim>\<open>build\<close>\<close>

definition build_post ::
  "transport_env \<Rightarrow> string \<Rightarrow> bytes \<Rightarrow> authenticator \<Rightarrow> net \<Rightarrow> (goerr + http_request) \<times> authenticator \<times> net" where
  "build_post E endpoint der a n =
     (case te_new_request E endpoint of
        Inl e \<Rightarrow> (Inl (tag_error KRequest (wrap_error ''build HTTP request: '' (plain_error e))), a, n)
      | Inr uri \<Rightarrow>
         authorize E True
           (header_set ''Accept'' content_type_response
             (header_set ''Content-Type'' content_type_request (new_request uri der))) a n)"

definition post_timestamp ::
  "transport_env \<Rightarrow> string \<Rightarrow> bytes \<Rightarrow> authenticator \<Rightarrow> net \<Rightarrow> (goerr + http_reply) \<times> authenticator \<times> net" where
  "post_timestamp E endpoint der a n =
     (case build_post E endpoint der a n of
        (Inl e, a1, n1) \<Rightarrow> (Inl e, a1, n1)
      | (Inr req, a1, n1) \<Rightarrow>
         (case client_do E True req n1 of
            (Inl e, n2) \<Rightarrow> (Inl e, a1, n2)
          | (Inr resp, n2) \<Rightarrow>
             (case retry_stale E resp a1 of
                ((False, _), a2) \<Rightarrow> (Inr resp, a2, n2)
              | ((True, Some e), a2) \<Rightarrow> (Inl e, a2, n2)
              | ((True, None), a2) \<Rightarrow>
                 (case build_post E endpoint der a2 n2 of
                    (Inl e, a3, n3) \<Rightarrow> (Inl e, a3, n3)
                  | (Inr req2, a3, n3) \<Rightarrow>
                     (case client_do E True req2 n3 of (r, n4) \<Rightarrow> (r, a3, n4))))))"

subsection \<open>The client\<close>

record tls_config =
  tl_minVersion :: int
  tl_rootCAs :: "certificate list option"
  tl_serverName :: string
  tl_insecureSkipVerify :: bool
  tl_certificates :: "bytes list"

definition tls_config_of ::
  "(string \<Rightarrow> string + string) \<Rightarrow> (string \<Rightarrow> certificate list option) \<Rightarrow> (string \<Rightarrow> string \<Rightarrow> string + bytes) \<Rightarrow>
   config \<Rightarrow> string + tls_config" where
  "tls_config_of read_file from_pem load_pair cfg =
     and_then (min_tls_version cfg) (\<lambda>minVer.
     and_then (load_cert_pool read_file from_pem (tc_caFile (cf_tls cfg))) (\<lambda>roots.
       let out = \<lparr>tl_minVersion = minVer, tl_rootCAs = roots, tl_serverName = tc_serverName (cf_tls cfg),
                  tl_insecureSkipVerify = tc_insecureSkipVerify (cf_tls cfg), tl_certificates = []\<rparr> in
       if tc_clientCertFile (cf_tls cfg) \<noteq> [] then
         (case load_pair (tc_clientCertFile (cf_tls cfg)) (tc_clientKeyFile (cf_tls cfg)) of
            Inl e \<Rightarrow> Inl (''load client certificate: '' @ e)
          | Inr cert \<Rightarrow> Inr (out\<lparr>tl_certificates := [cert]\<rparr>))
       else Inr out))"

text \<open>\<^verbatim>\<open>New\<close>: the settings of the client that the code fixes.  A jar is kept unless every request draws
  its own challenge, a redirect is returned and not followed, and the dialer counts when there is
  something to count into.\<close>

record http_transport =
  tr_tls :: tls_config
  tr_dialTimeout :: duration
  tr_keepAlive :: duration
  tr_counted :: bool
  tr_maxIdleConns :: int
  tr_maxIdleConnsPerHost :: int
  tr_maxConnsPerHost :: int
  tr_idleConnTimeout :: duration
  tr_tlsHandshakeTimeout :: duration
  tr_expectContinueTimeout :: duration
  tr_forceAttemptHTTP2 :: bool
  tr_disableCompression :: bool

record http_client =
  hc_transport :: http_transport
  hc_jar :: bool
  hc_timeout :: duration
  hc_followRedirects :: bool

definition new_client ::
  "(string \<Rightarrow> string + string) \<Rightarrow> (string \<Rightarrow> certificate list option) \<Rightarrow> (string \<Rightarrow> string \<Rightarrow> string + bytes) \<Rightarrow>
   string option \<Rightarrow> config \<Rightarrow> bool \<Rightarrow> string + http_client \<times> tls_config" where
  "new_client read_file from_pem load_pair jar_error cfg counted =
     and_then (tls_config_of read_file from_pem load_pair cfg) (\<lambda>tls.
       let conc = lc_maxConcurrency (cf_load cfg); timeout = rc_timeout (cf_request cfg);
           tr = \<lparr>tr_tls = tls, tr_dialTimeout = timeout, tr_keepAlive = 30 * second, tr_counted = counted,
             tr_maxIdleConns = conc, tr_maxIdleConnsPerHost = conc, tr_maxConnsPerHost = 0,
             tr_idleConnTimeout = 90 * second, tr_tlsHandshakeTimeout = timeout, tr_expectContinueTimeout = second,
             tr_forceAttemptHTTP2 = False, tr_disableCompression = True\<rparr>;
           jar = \<not> uses_per_request_challenge cfg in
       (case jar_error of
          Some e \<Rightarrow> if jar then Inl (''create cookie jar: '' @ e)
                    else Inr (\<lparr>hc_transport = tr, hc_jar = jar, hc_timeout = timeout, hc_followRedirects = False\<rparr>, tls)
        | None \<Rightarrow> Inr (\<lparr>hc_transport = tr, hc_jar = jar, hc_timeout = timeout, hc_followRedirects = False\<rparr>, tls)))"

text \<open>Connections by identity, with the counters of \<^verbatim>\<open>ConnStats\<close>: dialing counts and hands out a
  connection whose \<^verbatim>\<open>closed\<close> flag is clear; the first \<^verbatim>\<open>Close\<close> counts.\<close>

record conn_stats =
  cs_dialed :: int
  cs_reused :: int
  cs_closed :: int
  cs_inFlight :: int
  cs_conns :: "bool list"

definition new_conn_stats :: conn_stats where
  "new_conn_stats = \<lparr>cs_dialed = 0, cs_reused = 0, cs_closed = 0, cs_inFlight = 0, cs_conns = []\<rparr>"

definition conns_open :: "conn_stats \<Rightarrow> int" where
  "conns_open c = s64 (cs_dialed c - cs_closed c)"

definition dial :: "conn_stats \<Rightarrow> conn_stats" where
  "dial c = c\<lparr>cs_dialed := s64 (cs_dialed c + 1), cs_conns := cs_conns c @ [False]\<rparr>"

definition close_conn :: "nat \<Rightarrow> conn_stats \<Rightarrow> conn_stats" where
  "close_conn i c =
     (if i < length (cs_conns c) \<and> \<not> cs_conns c ! i
      then c\<lparr>cs_closed := s64 (cs_closed c + 1), cs_conns := (cs_conns c)[i := True]\<rparr> else c)"

definition got_conn :: "bool \<Rightarrow> conn_stats \<Rightarrow> conn_stats" where
  "got_conn reused c = (if reused then c\<lparr>cs_reused := s64 (cs_reused c + 1)\<rparr> else c)"

subsection \<open>What each call sends\<close>

lemma header_set_body [simp]: "hq_body (header_set k v r) = hq_body r"
  by (simp add: header_set_def)

lemma new_request_body [simp]: "hq_body (new_request u b) = b"
  by (simp add: new_request_def)

lemma header_fold_body: "hq_body (foldl (\<lambda>r (name, v). header_set name v r) req hs) = hq_body req"
  by (induction hs arbitrary: req) auto

lemma apply_credentials_body: "hq_body (snd (apply_credentials L w rdm typ cr req)) = hq_body req"
  by (cases cr) (auto simp: apply_credentials_def apply_digest_def header_fold_body Let_def
      split: option.splits prod.splits)

lemma client_do_log: "client_do E traced req n = (r, n') \<Longrightarrow>
    net_log n' = net_log n @ [req] \<and> r = ex_result (te_server E (net_log n @ [req]))"
  by (auto simp: client_do_def Let_def)

lemma draw_log:
  assumes "draw E traced a n = (r, a', n')" "te_new_request E (at_endpoint a) = Inr uri"
  shows "(\<exists>q. net_log n' = net_log n @ [q] \<and> hq_body q = []) \<and> a' = count_request a"
  using assms by (auto simp: draw_def draw_digest_challenge_def client_do_def Let_def split: sum.splits prod.splits if_splits)

lemma authorize_once_body: "authorize_once L rdm cr req h = (Inr req', cr') \<Longrightarrow> hq_body req' = hq_body req"
  by (auto simp: authorize_once_def split: option.splits sum.splits prod.splits)

definition per_request :: "authenticator \<Rightarrow> bool" where
  "per_request a \<longleftrightarrow> at_perRequest a \<and> at_authType a = AuthDigest"

text \<open>Building a request keeps the mode and the endpoint, sends nothing in the shared mode and one request
  without a body in the other, and counts exactly what it sends.\<close>

lemma authorize_effect:
  assumes "authorize E traced req a n = (r, a', n')" "te_new_request E (at_endpoint a) = Inr uri"
  shows "per_request a' = per_request a \<and> at_endpoint a' = at_endpoint a \<and>
    (\<forall>req'. r = Inr req' \<longrightarrow> hq_body req' = hq_body req) \<and>
    (if per_request a
     then (\<exists>q. net_log n' = net_log n @ [q] \<and> hq_body q = []) \<and> at_requests a' = s64 (at_requests a + 1)
     else net_log n' = net_log n \<and> at_requests a' = at_requests a \<and> (\<exists>req'. r = Inr req'))"
proof (cases "per_request a")
  case False
  then show ?thesis
    using assms apply_credentials_body [of "te_digest E" "te_world E" "te_rand E (length (net_log n))" "at_authType a" "at_creds a" req]
    by (auto simp: authorize_def per_request_def Let_def split: prod.splits)
next
  case True
  obtain d a1 n1 where d: "draw E traced a n = (d, a1, n1)" by (cases "draw E traced a n")
  then have e: "(\<exists>q. net_log n1 = net_log n @ [q] \<and> hq_body q = []) \<and> a1 = count_request a"
    using draw_log assms(2) by blast
  have "n' = n1 \<and> (\<exists>cr. a' = a1\<lparr>at_creds := cr\<rparr>) \<and> (\<forall>req'. r = Inr req' \<longrightarrow> hq_body req' = hq_body req)"
  proof (cases d)
    case (Inl x)
    then show ?thesis using assms(1) True d
      by (auto simp: authorize_def per_request_def Let_def intro: exI [of _ "at_creds a1"])
  next
    case (Inr p)
    obtain ch cookie where p: "p = (ch, cookie)" by (cases p)
    obtain o1 cr where o1: "authorize_once (te_digest E) (te_rand E (length (net_log n))) (at_creds a1)
        (if cookie \<noteq> [] then header_set ''Cookie'' cookie req else req) ch = (o1, cr)" by fastforce
    show ?thesis using assms(1) True d Inr p o1 authorize_once_body [of "te_digest E"]
      by (cases o1) (fastforce simp: authorize_def per_request_def Let_def split: if_splits)+
  qed
  then show ?thesis using e True by (auto simp: count_request_def per_request_def)
qed

lemma build_post_effect:
  assumes "build_post E endpoint der a n = (r, a', n')" "te_new_request E (at_endpoint a) = Inr uri"
  shows "per_request a' = per_request a \<and> at_endpoint a' = at_endpoint a \<and>
    (\<forall>req. r = Inr req \<longrightarrow> hq_body req = der \<and> (\<exists>u. te_new_request E endpoint = Inr u)) \<and>
    (if per_request a \<and> (\<exists>u. te_new_request E endpoint = Inr u)
     then (\<exists>q. net_log n' = net_log n @ [q] \<and> hq_body q = []) \<and> at_requests a' = s64 (at_requests a + 1)
     else net_log n' = net_log n \<and> at_requests a' = at_requests a
       \<and> ((\<exists>u. te_new_request E endpoint = Inr u) \<longrightarrow> (\<exists>req. r = Inr req)))"
proof (cases "te_new_request E endpoint")
  case (Inl e)
  then show ?thesis using assms(1) by (auto simp: build_post_def)
next
  case (Inr u)
  then have "authorize E True (header_set ''Accept'' content_type_response
      (header_set ''Content-Type'' content_type_request (new_request u der))) a n = (r, a', n')"
    using assms(1) by (simp add: build_post_def)
  from authorize_effect [OF this assms(2)] show ?thesis using Inr by auto
qed

lemma retry_stale_effect:
  "retry_stale E resp a = ((st, e), a') \<Longrightarrow> per_request a' = per_request a \<and> at_endpoint a' = at_endpoint a \<and>
    at_requests a' = (if st \<and> e = None then s64 (at_requests a + 1) else at_requests a) \<and>
    (st \<longrightarrow> \<not> per_request a \<and> hp_status resp = 401 \<and> is_stale_challenge 401 (hp_wwwAuthenticate resp))"
  by (auto simp: retry_stale_def count_request_def per_request_def split: if_splits sum.splits)

text \<open>The traffic of one call: what was sent, and what it counts.\<close>

definition traffic_ok ::
  "transport_env \<Rightarrow> bytes \<Rightarrow> authenticator \<Rightarrow> net \<Rightarrow> (goerr + http_reply) \<times> authenticator \<times> net \<Rightarrow> bool" where
  "traffic_ok E der a n res \<longleftrightarrow> (case res of (r, a', n') \<Rightarrow>
     \<exists>sent. net_log n' = net_log n @ sent \<and>
       (let posts = length (filter (\<lambda>q. hq_body q = der) sent) in
        posts \<le> 2 \<and> at_requests a' - at_requests a = int (length sent) - (if posts = 0 then 0 else 1)
        \<and> (posts = 0 \<longrightarrow> (\<exists>e. r = Inl e))
        \<and> (posts = 2 \<longrightarrow> (\<exists>resp. ex_result (te_server E (net_log n @ [hd sent])) = Inr resp
             \<and> hp_status resp = 401 \<and> is_stale_challenge 401 (hp_wwwAuthenticate resp)))))"

lemma post_traffic:
  assumes uri: "te_new_request E (at_endpoint a) = Inr uri" and der: "der \<noteq> []"
    and small: "0 \<le> at_requests a" "at_requests a < 2 ^ 62"
  shows "traffic_ok E der a n (post_timestamp E endpoint der a n)"
proof -
  obtain b a1 n1 where b: "build_post E endpoint der a n = (b, a1, n1)" by (cases "build_post E endpoint der a n")
  note be = build_post_effect [OF b uri]
  have s64: "s64 (at_requests a + 1) = at_requests a + 1" using small by simp
  show ?thesis
  proof (cases b)
    case (Inl e)
    then show ?thesis using be b der s64
      by (cases "per_request a \<and> (\<exists>u. te_new_request E endpoint = Inr u)")
        (auto simp: traffic_ok_def post_timestamp_def)
  next
    case (Inr req)
    obtain r2 n2 where d: "client_do E True req n1 = (r2, n2)" by fastforce
    have body: "hq_body req = der" and ep: "\<exists>u. te_new_request E endpoint = Inr u" using be Inr by auto
    have log2: "net_log n2 = net_log n1 @ [req]" "r2 = ex_result (te_server E (net_log n1 @ [req]))"
      using client_do_log [OF d] by auto
    show ?thesis
    proof (cases "per_request a")
      case True
      then obtain q where q: "net_log n1 = net_log n @ [q]" "hq_body q = []" "at_requests a1 = at_requests a + 1"
        using be ep s64 by auto
      have "\<exists>a2. post_timestamp E endpoint der a n = (r2, a2, n2) \<and> at_requests a2 = at_requests a1"
      proof (cases r2)
        case (Inr resp)
        have "retry_stale E resp a1 = ((False, None), a1)"
          using True be by (simp add: retry_stale_def per_request_def)
        then show ?thesis using b \<open>b = Inr req\<close> d Inr by (simp add: post_timestamp_def)
      qed (use b Inr d in \<open>simp add: post_timestamp_def\<close>)
      then show ?thesis using q log2 body der by (auto simp: traffic_ok_def)
    next
      case False
      then have n1: "net_log n1 = net_log n" "at_requests a1 = at_requests a" using be by auto
      show ?thesis
      proof (cases r2)
        case (Inl e)
        then show ?thesis using b \<open>b = Inr req\<close> d n1 log2 body der by (auto simp: traffic_ok_def post_timestamp_def)
      next
        case r2: (Inr resp)
        obtain st e a2 where rs: "retry_stale E resp a1 = ((st, e), a2)" by (metis prod.exhaust)
        note re = retry_stale_effect [OF rs]
        show ?thesis
        proof (cases "st \<and> e = None")
          case nostale: False
          then have "\<exists>r. post_timestamp E endpoint der a n = (r, a2, n2)"
            using b \<open>b = Inr req\<close> d r2 rs by (cases st; cases e) (simp_all add: post_timestamp_def)
          then show ?thesis using re nostale n1 log2 body der by (auto simp: traffic_ok_def)
        next
          case stale: True
          have uri2: "te_new_request E (at_endpoint a2) = Inr uri" using re be uri by simp
          obtain c a3 n3 where c: "build_post E endpoint der a2 n2 = (c, a3, n3)" by (cases "build_post E endpoint der a2 n2")
          note ce = build_post_effect [OF c uri2]
          have "\<not> per_request a2" using re be False by simp
          then obtain req2 where c2: "c = Inr req2" "hq_body req2 = der" "net_log n3 = net_log n2" "at_requests a3 = at_requests a2"
            using ce ep by auto
          obtain r4 n4 where d2: "client_do E True req2 n3 = (r4, n4)" by fastforce
          have "post_timestamp E endpoint der a n = (r4, a3, n4)"
            using b \<open>b = Inr req\<close> d r2 rs stale c c2(1) d2 by (simp add: post_timestamp_def)
          moreover have "net_log n4 = net_log n @ [req, req2]" using client_do_log [OF d2] c2 log2 n1 by simp
          moreover have "at_requests a3 = at_requests a + 1" using c2 re stale n1 s64 by simp
          moreover have "ex_result (te_server E (net_log n @ [req])) = Inr resp" using log2 r2 n1 by simp
          moreover have "hp_status resp = 401" "is_stale_challenge 401 (hp_wwwAuthenticate resp)" using re stale by simp_all
          ultimately show ?thesis using body c2(2) by (simp add: traffic_ok_def Let_def)
        qed
      qed
    qed
  qed
qed

subsection \<open>Connections\<close>

datatype conn_op = Dial | CloseConn nat | GotConn bool

fun conn_step :: "conn_op \<Rightarrow> conn_stats \<Rightarrow> conn_stats" where
  "conn_step Dial c = dial c"
| "conn_step (CloseConn i) c = close_conn i c"
| "conn_step (GotConn b) c = got_conn b c"

definition conns_of :: "conn_op list \<Rightarrow> conn_stats" where
  "conns_of ops = foldl (\<lambda>c op. conn_step op c) new_conn_stats ops"

definition conn_inv :: "nat \<Rightarrow> conn_stats \<Rightarrow> bool" where
  "conn_inv k c \<longleftrightarrow> length (cs_conns c) \<le> k \<and> cs_dialed c = int (length (cs_conns c)) \<and> cs_closed c = count_true (cs_conns c)"

lemma count_true_set:
  "i < length bs \<Longrightarrow> \<not> bs ! i \<Longrightarrow> count_true (bs[i := True]) = count_true bs + 1"
proof (induction bs arbitrary: i)
  case (Cons b bs)
  then show ?case by (cases i) auto
qed simp

lemma conn_inv_step: "conn_inv k c \<Longrightarrow> k < 2 ^ 62 \<Longrightarrow> conn_inv (Suc k) (conn_step op c)"
  using count_true_bounds [of "cs_conns c"]
  by (cases op) (auto simp: conn_inv_def dial_def close_conn_def got_conn_def count_true_set)

lemma conns_of_inv: "length ops < 2 ^ 62 \<Longrightarrow> conn_inv (length ops) (conns_of ops)"
proof (induction ops rule: rev_induct)
  case Nil
  then show ?case by (simp add: conns_of_def new_conn_stats_def conn_inv_def)
next
  case (snoc op ops)
  then show ?case using conn_inv_step [of "length ops" "conns_of ops" op] by (simp add: conns_of_def)
qed

subsection \<open>Properties\<close>

text \<open>C12: the traffic of one timestamp.  A call of \<^verbatim>\<open>PostTimestamp\<close> sends its query at most
  twice, a second time only after the server answered the first with 401 and a stale challenge, and the
  counter of authentication requests grows by exactly the number of HTTP requests sent beyond the one
  that counts against the quota (beyond none, if no query was sent, which is an error).  So HTTP traffic
  and quota reconcile for every scheme and every failure.\<close>

theorem post_timestamp_traffic:
  assumes "te_new_request E (at_endpoint a) = Inr uri" "der \<noteq> []" "0 \<le> at_requests a" "at_requests a < 2 ^ 62"
  shows "traffic_ok E der a n (post_timestamp E endpoint der a n)"
  by (rule post_traffic [OF assms])

text \<open>A service that answers every request with 200.\<close>

definition demo_transport :: transport_env where
  "demo_transport = \<lparr>te_digest = \<lparr>dl_md5 = id, dl_sha256 = id\<rparr>, te_world = demo_world, te_new_request = Inr,
     te_rand = (\<lambda>_. None), te_server = (\<lambda>_. \<lparr>ex_written = True, ex_result = Inr \<lparr>hp_status = 200,
       hp_wwwAuthenticate = [], hp_cookies = [], hp_contentType = content_type_response, hp_body = ''r'',
       hp_readError = None\<rparr>\<rparr>)\<rparr>"

definition demo_authenticator :: authenticator where
  "demo_authenticator = new_authenticator demo_config None"

theorem post_timestamp_traffic_witness:
  "traffic_ok demo_transport ''q'' demo_authenticator \<lparr>net_log = [], net_wrote = False\<rparr>
     (post_timestamp demo_transport ''/'' ''q'' demo_authenticator \<lparr>net_log = [], net_wrote = False\<rparr>)"
  using post_timestamp_traffic [of demo_transport demo_authenticator "at_endpoint demo_authenticator" "''q''"]
  by (simp add: demo_transport_def demo_authenticator_def new_authenticator_def)

text \<open>Open connections are counted exactly.  After any sequence of dials, closes (of any connection,
  any number of times) and reuses, the number \<^verbatim>\<open>Open\<close> reports is the number of connections dialed
  and never closed.\<close>

theorem conns_open_exact:
  assumes "length ops < 2 ^ 62"
  shows "conns_open (conns_of ops) = int (length (filter Not (cs_conns (conns_of ops))))"
proof -
  have inv: "conn_inv (length ops) (conns_of ops)" by (rule conns_of_inv [OF assms])
  have "int (length (filter Not bs)) = int (length bs) - count_true bs" for bs
    by (induction bs) auto
  moreover have "0 \<le> count_true (cs_conns (conns_of ops))" "count_true (cs_conns (conns_of ops)) \<le> int (length (cs_conns (conns_of ops)))"
    by (rule count_true_bounds)+
  ultimately show ?thesis using inv assms by (simp add: conns_open_def conn_inv_def)
qed

theorem conns_open_exact_witness:
  "conns_open (conns_of [Dial, Dial, CloseConn 0, CloseConn 0]) = 1"
  using conns_open_exact [of "[Dial, Dial, CloseConn 0, CloseConn 0]"]
  by (simp add: conns_of_def new_conn_stats_def dial_def close_conn_def)

end
