(* ===== verification/Runner.thy ===== *)
theory Runner
  imports Quota Breaker Profile Collector Verify Transport
begin

text \<open>
  The load runner, \<^verbatim>\<open>internal/load/runner.go\<close>: stopping, acquiring quota, one attempt from
  build to verification, filing it, the sequential and the scheduled stage, the run over all stages
  and the drain.  \<open>runner_env\<close> gathers what a run does not change (the configuration and the
  components it is wired to) and the answers of the outside world: the clock, the measured durations,
  random bytes, whether the sink is wired.  The scheduling of goroutines is an argument too:
  \<open>rn_choices\<close> lists, for each point at which the dispatcher could be overtaken, the workers that
  finish there.  Logging is not modelled.
\<close>

definition StopCompleted :: string where "StopCompleted = ''completed''"
definition StopSignal :: string where "StopSignal = ''signal''"
definition StopQuota :: string where "StopQuota = ''quota_exhausted''"
definition StopBreaker :: string where "StopBreaker = ''auto_abort''"
definition StopError :: string where "StopError = ''error''"

lemmas stop_reasons = StopCompleted_def StopSignal_def StopQuota_def StopBreaker_def StopError_def

record outcome =
  oc_reason :: string
  oc_reasonDetail :: string
  oc_startedAt :: time
  oc_endedAt :: time
  oc_quotaUsed :: int
  oc_quotaBudget :: int
  oc_authRequests :: int
  oc_partial :: bool

text \<open>A dispatched request whose worker has not finished.\<close>

record job =
  jb_seq :: int
  jb_stage :: nat
  jb_scheduled :: time
  jb_startedAt :: time
  jb_lag :: duration

record 'c runner =
  rn_clock :: 'c
  rn_quota :: quota
  rn_breaker :: "breaker option"
  rn_collector :: collector
  rn_sink :: "attempt list option"
  rn_artifacts :: "(int \<times> bytes \<times> bytes) list option"
  rn_auth :: authenticator
  rn_net :: net
  rn_conns :: "conn_stats option"
  rn_stopped :: bool
  rn_reason :: string
  rn_detail :: string
  rn_jobs :: "job list"
  rn_choices :: "nat list list"

record 'c runner_env =
  re_cfg :: config
  re_profile :: profile
  re_now :: "'c \<Rightarrow> time \<times> 'c"
  re_sleep :: "'c \<Rightarrow> duration \<Rightarrow> goerr option \<times> 'c"
  re_sleep_until :: "'c \<Rightarrow> time \<Rightarrow> goerr option \<times> 'c"
  re_ctx :: "'c \<Rightarrow> goerr option"
  re_oob :: "f64 \<Rightarrow> int"
  re_builder :: builder
  re_hash :: "crypto_hash \<Rightarrow> bytes \<Rightarrow> bytes"
  re_create :: "crypto_hash \<Rightarrow> bytes \<Rightarrow> bool \<Rightarrow> int \<Rightarrow> oid option \<Rightarrow> string + bytes"
  re_payload :: "int \<Rightarrow> string + bytes"
  re_draws :: "int \<Rightarrow> (string + int) list"
  re_transport :: transport_env
  re_tsp :: tsp_lib
  re_verifier :: verifier
  re_netStart :: "int \<Rightarrow> time"
  re_network :: "int \<Rightarrow> duration"
  re_verify :: "int \<Rightarrow> duration"
  re_reused :: "int \<Rightarrow> bool"
  re_drained :: bool

definition now_of :: "'c runner_env \<Rightarrow> 'c runner \<Rightarrow> time \<times> 'c runner" where
  "now_of E r = (let (t, c) = re_now E (rn_clock r) in (t, r\<lparr>rn_clock := c\<rparr>))"

definition ctx_of :: "'c runner_env \<Rightarrow> 'c runner \<Rightarrow> goerr option" where
  "ctx_of E r = re_ctx E (rn_clock r)"

subsection \<open>Stopping\<close>

text \<open>\<^verbatim>\<open>stop\<close> runs under its mutex: one step.\<close>

definition stop_run :: "string \<Rightarrow> string \<Rightarrow> 'c runner \<Rightarrow> 'c runner" where
  "stop_run why detail r =
     (if rn_stopped r then r
      else r\<lparr>rn_stopped := True, rn_reason := why, rn_detail := detail, rn_quota := close_quota (rn_quota r)\<rparr>)"

definition err_stopped :: goerr where
  "err_stopped = kind_error KStopped ''run stopped''"

definition write_sink :: "attempt \<Rightarrow> 'c runner \<Rightarrow> 'c runner" where
  "write_sink a r = r\<lparr>rn_sink := map_option (\<lambda>rows. rows @ [a]) (rn_sink r)\<rparr>"

definition quota_guard_row :: "string \<Rightarrow> time \<Rightarrow> attempt" where
  "quota_guard_row stageName now =
     \<lparr>a_stage = stageName, a_sequence = 0, a_scheduledAt = now, a_startedAt = now, a_completedAt = now,
      a_scheduleLag = 0, a_total = 0, a_network = 0, a_verify = 0, a_httpStatus = 0,
      a_err = Some (new_error QuotaGuard ''request budget exhausted; no further requests were sent''),
      a_clockSkew = 0, a_warnings = []\<rparr>"

definition record_quota_guard :: "'c runner_env \<Rightarrow> string \<Rightarrow> 'c runner \<Rightarrow> 'c runner" where
  "record_quota_guard E stageName r =
     (case now_of E r of (now, r1) \<Rightarrow> write_sink (quota_guard_row stageName now) r1)"

definition acquire_unit :: "'c runner_env \<Rightarrow> string \<Rightarrow> 'c runner \<Rightarrow> (goerr + int) \<times> 'c runner" where
  "acquire_unit E stageName r =
     (case acquire (rn_quota r) of
        (Inl e, q) \<Rightarrow>
          (Inl err_stopped, record_quota_guard E stageName
             (stop_run StopQuota (''quota exhausted during '' @ stageName) (r\<lparr>rn_quota := q\<rparr>)))
      | (Inr seq, q) \<Rightarrow> (Inr seq, r\<lparr>rn_quota := q\<rparr>))"

definition self_inflicted :: "attempt \<Rightarrow> bool" where
  "self_inflicted a = (case a_err a of None \<Rightarrow> False | Some e \<Rightarrow> \<not> counts_against_provider (e_class e))"

subsection \<open>One attempt\<close>

definition classify_send_error :: "url_lib \<Rightarrow> goerr \<Rightarrow> bool \<Rightarrow> class_error" where
  "classify_send_error lib e wroteRequest =
     (if is_kind KAuth e then new_error HTTP4xx (err_text (dropWhile (\<lambda>n. n_kind n \<noteq> KAuth) e))
      else if is_kind KRequest e then new_error UnknownError (err_text (dropWhile (\<lambda>n. n_kind n \<noteq> KRequest) e))
      else classify lib e wroteRequest)"

definition max_response_bytes :: nat where "max_response_bytes = 1048576"

definition in_flight :: "int \<Rightarrow> 'c runner \<Rightarrow> 'c runner" where
  "in_flight d r = r\<lparr>rn_conns := map_option (\<lambda>c. c\<lparr>cs_inFlight := s64 (cs_inFlight c + d)\<rparr>) (rn_conns r)\<rparr>"

text \<open>Status, Content-Type and body, with the classified error: the deferred decrement runs on every
  path.\<close>

definition send ::
  "'c runner_env \<Rightarrow> int \<Rightarrow> bytes \<Rightarrow> 'c runner \<Rightarrow> (int \<times> string \<times> bytes \<times> class_error option) \<times> 'c runner" where
  "send E seq der r =
     (let r1 = in_flight 1 r;
          (res, a, n) = post_timestamp (re_transport E) (pv_endpoint (cf_provider (re_cfg E))) der
             (rn_auth r1) ((rn_net r1)\<lparr>net_wrote := False\<rparr>);
          r2 = in_flight (- 1) (r1\<lparr>rn_auth := a, rn_net := n,
             rn_conns := map_option (got_conn (re_reused E seq)) (rn_conns r1)\<rparr>);
          urls = w_url (te_world (re_transport E))
      in case res of
           Inl e \<Rightarrow> ((0, [], [], Some (classify_send_error urls e (net_wrote n))), r2)
         | Inr resp \<Rightarrow>
            (case hp_readError resp of
               Some e \<Rightarrow> ((hp_status resp, hp_contentType resp, [], Some (classify urls e True)), r2)
             | None \<Rightarrow> ((hp_status resp, hp_contentType resp, take max_response_bytes (hp_body resp), None), r2)))"

definition blank_attempt :: "string \<Rightarrow> int \<Rightarrow> time \<Rightarrow> time \<Rightarrow> duration \<Rightarrow> attempt" where
  "blank_attempt stageName seq scheduled startedAt lag =
     \<lparr>a_stage = stageName, a_sequence = seq, a_scheduledAt = scheduled, a_startedAt = startedAt,
      a_completedAt = 0, a_scheduleLag = lag, a_total = 0, a_network = 0, a_verify = 0, a_httpStatus = 0,
      a_err = None, a_clockSkew = 0, a_warnings = []\<rparr>"

definition completed_at :: "time \<Rightarrow> attempt \<Rightarrow> attempt" where
  "completed_at t a = a\<lparr>a_completedAt := t, a_total := time_sub t (a_startedAt a)\<rparr>"

text \<open>\<^verbatim>\<open>attempt\<close>; \<open>None\<close> is a build that does not return or the panic of the classification.\<close>

definition run_attempt ::
  "'c runner_env \<Rightarrow> int \<Rightarrow> string \<Rightarrow> time \<Rightarrow> time \<Rightarrow> duration \<Rightarrow> 'c runner \<Rightarrow> (attempt \<times> 'c runner) option" where
  "run_attempt E seq stageName scheduled startedAt lag r =
     (let a = blank_attempt stageName seq scheduled startedAt lag in
      case build_request (re_hash E) (re_create E) (re_builder E) (re_payload E seq) (re_draws E seq) of
        None \<Rightarrow> None
      | Some (Inl e) \<Rightarrow>
          (case now_of E r of (t, r1) \<Rightarrow>
             Some (completed_at t (a\<lparr>a_err := Some (new_error UnknownError (''build request: '' @ e))\<rparr>), r1))
      | Some (Inr req) \<Rightarrow>
          (case send E seq (rq_der req) r of ((status, contentType, body, httpErr), r1) \<Rightarrow>
             (let a1 = a\<lparr>a_network := re_network E seq, a_httpStatus := status\<rparr> in
              case httpErr of
                Some e \<Rightarrow> (case now_of E r1 of (t, r2) \<Rightarrow> Some (completed_at t (a1\<lparr>a_err := Some e\<rparr>), r2))
              | None \<Rightarrow>
                 (case verify (re_tsp E) (re_verifier E) req
                      \<lparr>hr_statusCode = status, hr_contentType = contentType, hr_body = body,
                       hr_sentAt = re_netStart E seq,
                       hr_receivedAt = time_add (re_netStart E seq) (re_network E seq)\<rparr> of
                    None \<Rightarrow> None
                  | Some (res, verr) \<Rightarrow>
                     (let a2 = a1\<lparr>a_verify := re_verify E seq, a_err := verr\<rparr>;
                          a3 = (case res of None \<Rightarrow> a2
                                | Some v \<Rightarrow> a2\<lparr>a_clockSkew := vr_clockSkew v, a_warnings := vr_warnings v\<rparr>)
                      in case now_of E r1 of (t, r2) \<Rightarrow>
                           Some (completed_at t a3,
                             r2\<lparr>rn_artifacts := map_option (\<lambda>l. l @ [(seq, rq_der req, body)]) (rn_artifacts r2)\<rparr>))))))"

subsection \<open>Filing an attempt\<close>

definition file_breaker :: "attempt \<Rightarrow> 'c runner \<Rightarrow> bool \<times> 'c runner" where
  "file_breaker a r =
     (case rn_breaker r of
        None \<Rightarrow> (False, r)
      | Some b \<Rightarrow>
         (if self_inflicted a then (False, r)
          else (case record_outcome b (\<not> succeeded a) of (trip, b') \<Rightarrow>
            (if trip then (True, stop_run StopBreaker (reason b') (r\<lparr>rn_breaker := Some b'\<rparr>))
             else (False, r\<lparr>rn_breaker := Some b'\<rparr>)))))"

definition file_attempt :: "nat \<Rightarrow> attempt \<Rightarrow> 'c runner \<Rightarrow> bool \<times> 'c runner" where
  "file_attempt stg a r =
     file_breaker a (write_sink a (r\<lparr>rn_collector := record_attempt stg a (rn_collector r)\<rparr>))"

definition stage_name_of :: "nat \<Rightarrow> 'c runner \<Rightarrow> string" where
  "stage_name_of stg r = ss_name (c_stages (rn_collector r) ! stg)"

definition perform ::
  "'c runner_env \<Rightarrow> int \<Rightarrow> nat \<Rightarrow> time \<Rightarrow> time \<Rightarrow> duration \<Rightarrow> 'c runner \<Rightarrow> (bool \<times> 'c runner) option" where
  "perform E seq stg scheduled startedAt lag r =
     map_option (\<lambda>(a, r1). file_attempt stg a r1)
       (run_attempt E seq (stage_name_of stg r) scheduled startedAt lag r)"

subsection \<open>Workers\<close>

text \<open>The worker of job \<open>k\<close> runs to its end and releases its slot.\<close>

definition finish_job :: "'c runner_env \<Rightarrow> nat \<Rightarrow> 'c runner \<Rightarrow> 'c runner option" where
  "finish_job E k r =
     (if k < length (rn_jobs r)
      then (let j = rn_jobs r ! k in
        map_option (\<lambda>(trip, r1). r1\<lparr>rn_jobs := take k (rn_jobs r1) @ drop (Suc k) (rn_jobs r1)\<rparr>)
          (perform E (jb_seq j) (jb_stage j) (jb_scheduled j) (jb_startedAt j) (jb_lag j) r))
      else Some r)"

fun finish_jobs :: "'c runner_env \<Rightarrow> nat list \<Rightarrow> 'c runner \<Rightarrow> 'c runner option" where
  "finish_jobs E [] r = Some r"
| "finish_jobs E (k # ks) r = (case finish_job E k r of None \<Rightarrow> None | Some r1 \<Rightarrow> finish_jobs E ks r1)"

text \<open>The workers that finish at this point.\<close>

definition settle :: "'c runner_env \<Rightarrow> 'c runner \<Rightarrow> 'c runner option" where
  "settle E r = finish_jobs E (case rn_choices r of [] \<Rightarrow> [] | ks # _ \<Rightarrow> ks) (r\<lparr>rn_choices := tl (rn_choices r)\<rparr>)"

definition saturation :: "nat \<Rightarrow> 'c runner \<Rightarrow> 'c runner" where
  "saturation stg r = r\<lparr>rn_collector := record_saturation stg (rn_collector r)\<rparr>"

definition max_concurrency :: "'c runner_env \<Rightarrow> nat" where
  "max_concurrency E = nat (lc_maxConcurrency (cf_load (re_cfg E)))"

text \<open>Taking a slot of \<^verbatim>\<open>r.sem\<close>: at once when one is free, else the saturation is counted and the
  dispatcher waits for a worker or for the context.  \<open>None\<close> waits forever.\<close>

definition take_slot :: "'c runner_env \<Rightarrow> nat \<Rightarrow> 'c runner \<Rightarrow> (goerr option \<times> 'c runner) option" where
  "take_slot E stg r =
     (if length (rn_jobs r) < max_concurrency E then Some (None, r)
      else (case settle E (saturation stg r) of
        None \<Rightarrow> None
      | Some r1 \<Rightarrow>
         (if length (rn_jobs r1) < max_concurrency E then Some (None, r1)
          else (case ctx_of E r1 of
            Some e \<Rightarrow> Some (Some e, r1)
          | None \<Rightarrow>
             (if rn_jobs r1 = [] then None
              else map_option (\<lambda>r2. (None, r2)) (finish_job E 0 r1))))))"

text \<open>Workers may finish, and stop the run, before the checks, while the dispatcher waits for a slot
  and between the checks and the acquisition.\<close>

definition dispatch :: "'c runner_env \<Rightarrow> nat \<Rightarrow> tick \<Rightarrow> 'c runner \<Rightarrow> (goerr option \<times> 'c runner) option" where
  "dispatch E stg tk r0 =
     (case settle E r0 of
        None \<Rightarrow> None
      | Some r \<Rightarrow>
         (if rn_stopped r then Some (Some err_stopped, r)
          else if ctx_of E r \<noteq> None then Some (ctx_of E r, r)
          else (case take_slot E stg r of
             None \<Rightarrow> None
           | Some (Some e, r1) \<Rightarrow> Some (Some e, r1)
           | Some (None, r1) \<Rightarrow>
              (case settle E (if Lag tk > lc_lagThreshold (cf_load (re_cfg E)) then saturation stg r1 else r1) of
                 None \<Rightarrow> None
               | Some r2 \<Rightarrow>
                 (case acquire_unit E (stage_name_of stg r2) r2 of
                    (Inl e, r3) \<Rightarrow> Some (Some e, r3)
                  | (Inr seq, r3) \<Rightarrow>
                     (case now_of E r3 of (startedAt, r4) \<Rightarrow>
                        Some (None, r4\<lparr>rn_collector := record_sent stg startedAt (rn_collector r4),
                          rn_jobs := rn_jobs r4 @ [\<lparr>jb_seq = seq, jb_stage = stg, jb_scheduled = Scheduled tk,
                             jb_startedAt = startedAt, jb_lag = Lag tk\<rparr>]\<rparr>)))))))"

subsection \<open>Stages\<close>

fun run_sequential :: "'c runner_env \<Rightarrow> nat \<Rightarrow> nat \<Rightarrow> 'c runner \<Rightarrow> (goerr option \<times> 'c runner) option" where
  "run_sequential E stg 0 r = Some (None, r)"
| "run_sequential E stg (Suc n) r =
     (if ctx_of E r \<noteq> None then Some (ctx_of E r, r)
      else if rn_stopped r then Some (Some err_stopped, r)
      else (case acquire_unit E (stage_name_of stg r) r of
        (Inl e, r1) \<Rightarrow> Some (Some e, r1)
      | (Inr seq, r1) \<Rightarrow>
         (case now_of E r1 of (now, r2) \<Rightarrow>
           (case perform E seq stg now now 0 (r2\<lparr>rn_collector := record_sent stg now (rn_collector r2)\<rparr>) of
              None \<Rightarrow> None
            | Some (True, r3) \<Rightarrow> Some (Some err_stopped, r3)
            | Some (False, r3) \<Rightarrow> run_sequential E stg n r3))))"

text \<open>The operations the scheduler calls, on a run that may have been cut short.\<close>

definition run_now :: "'c runner_env \<Rightarrow> 'c runner option \<Rightarrow> time \<times> 'c runner option" where
  "run_now E w = (case w of None \<Rightarrow> (0, None) | Some r \<Rightarrow> (case now_of E r of (t, r1) \<Rightarrow> (t, Some r1)))"

definition run_sleep_until :: "'c runner_env \<Rightarrow> 'c runner option \<Rightarrow> time \<Rightarrow> goerr option \<times> 'c runner option" where
  "run_sleep_until E w d = (case w of None \<Rightarrow> (None, None)
     | Some r \<Rightarrow> (case re_sleep_until E (rn_clock r) d of (e, c) \<Rightarrow> (e, Some (r\<lparr>rn_clock := c\<rparr>))))"

definition run_ctx :: "'c runner_env \<Rightarrow> 'c runner option \<Rightarrow> goerr option" where
  "run_ctx E w = (case w of None \<Rightarrow> None | Some r \<Rightarrow> ctx_of E r)"

definition run_emit :: "'c runner_env \<Rightarrow> nat \<Rightarrow> tick \<Rightarrow> 'c runner option \<Rightarrow> goerr option \<times> 'c runner option" where
  "run_emit E stg tk w = (case w of None \<Rightarrow> (Some err_stopped, None)
     | Some r \<Rightarrow> (case dispatch E stg tk r of None \<Rightarrow> (Some err_stopped, None) | Some (e, r1) \<Rightarrow> (e, Some r1)))"

definition run_stage ::
  "'c runner_env \<Rightarrow> stage \<Rightarrow> int \<Rightarrow> nat \<Rightarrow> 'c runner \<Rightarrow> (goerr option \<times> 'c runner) option" where
  "run_stage E s pl stg r =
     (if pl \<le> 0 then Some (None, r)
      else if stg_mode s = ModeSequential then run_sequential E stg (nat pl) r
      else (let sched = \<lparr>Rate = stg_tps s, HasClock = True, LagThreshold = lc_lagThreshold (cf_load (re_cfg E))\<rparr>;
                (start, r1) = now_of E r;
                (tks, e, w) = sched_run (run_now E) (run_sleep_until E) (run_ctx E) (run_emit E stg)
                   (re_oob E) sched start pl (Some r1)
            in case w of None \<Rightarrow> None | Some r2 \<Rightarrow> Some (e, r2)))"

definition stage_times :: "nat \<Rightarrow> (stage_stats \<Rightarrow> stage_stats) \<Rightarrow> 'c runner \<Rightarrow> 'c runner" where
  "stage_times stg f r = r\<lparr>rn_collector := update_stage stg f (rn_collector r)\<rparr>"

text \<open>A truncated stage stops the run as quota-limited.\<close>

definition close_truncated :: "'c runner_env \<Rightarrow> stage \<Rightarrow> int \<Rightarrow> bool \<Rightarrow> 'c runner \<Rightarrow> 'c runner" where
  "close_truncated E s pl truncated r =
     (if truncated \<and> \<not> rn_stopped r
      then record_quota_guard E (stg_name s)
        (stop_run StopQuota (''stage '' @ stg_name s @ '' was truncated to '' @ int_dec pl @
           '' requests by the remaining budget'') r)
      else r)"

text \<open>The body of the loop of \<^verbatim>\<open>Run\<close> up to the pause: the outcome so far, whether the loop goes
  on, and the runner.\<close>

definition run_one ::
  "'c runner_env \<Rightarrow> stage \<Rightarrow> string \<times> string \<Rightarrow> 'c runner \<Rightarrow> (bool \<times> (string \<times> string) \<times> 'c runner) option" where
  "run_one E s out r =
     (if rn_stopped r \<or> ctx_of E r \<noteq> None then Some (False, out, r)
      else (let pl0 = planned (re_oob E) s; rem = remaining (rn_quota r) in
        if rem \<le> 0
          then Some (False, out, stop_run StopQuota (''no quota remaining before stage '' @ stg_name s) r)
        else (let truncated = pl0 > rem; pl = (if truncated then rem else pl0);
                  (stg, c) = register_stage (stg_name s) (stg_tps s) pl (rn_collector r);
                  (t0, r1) = now_of E (r\<lparr>rn_collector := c\<rparr>)
          in case run_stage E s pl stg (stage_times stg (\<lambda>x. x\<lparr>ss_startedAt := t0\<rparr>) r1) of
               None \<Rightarrow> None
             | Some (err, r2) \<Rightarrow>
                (let (t1, r3) = now_of E r2;
                     r4 = close_truncated E s pl truncated (stage_times stg (\<lambda>x. x\<lparr>ss_endedAt := t1\<rparr>) r3)
                 in case err of
                      Some e \<Rightarrow>
                        (if \<not> is_kind KStopped e \<and> ctx_of E r4 = None
                         then Some (False, (StopError, err_text e), stop_run StopError (err_text e) r4)
                         else Some (\<not> (rn_stopped r4 \<or> ctx_of E r4 \<noteq> None), out, r4))
                    | None \<Rightarrow> Some (\<not> (rn_stopped r4 \<or> ctx_of E r4 \<noteq> None), out, r4)))))"

fun run_stages ::
  "'c runner_env \<Rightarrow> stage list \<Rightarrow> string \<times> string \<Rightarrow> 'c runner \<Rightarrow> ((string \<times> string) \<times> 'c runner) option" where
  "run_stages E [] out r = Some (out, r)"
| "run_stages E (s # ss) out r =
     (case run_one E s out r of
        None \<Rightarrow> None
      | Some (go, out', r1) \<Rightarrow>
         (if \<not> go \<or> ss = [] then Some (out', r1)
          else (let pause = (case stg_pauseAfter s of None \<Rightarrow> lc_stagePause (cf_load (re_cfg E)) | Some p \<Rightarrow> p) in
            if pause > 0
            then (case re_sleep E (rn_clock r1) pause of
                (Some e, c) \<Rightarrow> Some (out', r1\<lparr>rn_clock := c\<rparr>)
              | (None, c) \<Rightarrow> run_stages E ss out' (r1\<lparr>rn_clock := c\<rparr>))
            else run_stages E ss out' r1)))"

text \<open>\<^verbatim>\<open>drain\<close>: the workers the choices name finish first; within the grace period the rest
  follow (\<open>re_drained\<close>) or do not.\<close>

definition drain :: "'c runner_env \<Rightarrow> 'c runner \<Rightarrow> (bool \<times> 'c runner) option" where
  "drain E r =
     (case settle E r of
        None \<Rightarrow> None
      | Some r1 \<Rightarrow>
         (if re_drained E then map_option (Pair True) (finish_jobs E (replicate (length (rn_jobs r1)) 0) r1)
          else Some (rn_jobs r1 = [], r1)))"

definition run :: "'c runner_env \<Rightarrow> 'c runner \<Rightarrow> (outcome \<times> 'c runner) option" where
  "run E r0 =
     (let (t0, r) = now_of E r0;
          out = \<lparr>oc_reason = StopCompleted, oc_reasonDetail = [], oc_startedAt = t0, oc_endedAt = 0,
                 oc_quotaUsed = 0, oc_quotaBudget = q_budget (rn_quota r), oc_authRequests = 0, oc_partial = False\<rparr>;
          (perr, a, n) = prime (re_transport E) (rn_auth r) (rn_net r);
          r1 = r\<lparr>rn_auth := a, rn_net := n\<rparr>
      in case perr of
           Some e \<Rightarrow>
             (case now_of E r1 of (t1, r2) \<Rightarrow>
                Some (out\<lparr>oc_reason := StopError, oc_reasonDetail := err_text e, oc_partial := True, oc_endedAt := t1\<rparr>, r2))
         | None \<Rightarrow>
             (case run_stages E (prf_stages (re_profile E)) (StopCompleted, []) r1 of
                None \<Rightarrow> None
              | Some ((why, detail), r2) \<Rightarrow>
                 (case drain E r2 of
                    None \<Rightarrow> None
                  | Some (drained, r3) \<Rightarrow>
                     (let (t1, r4) = now_of E r3;
                          (why1, detail1) = (if rn_stopped r4 \<and> rn_reason r4 \<noteq> [] then (rn_reason r4, rn_detail r4)
                                             else (why, detail));
                          (why2, detail2) = (if ctx_of E r4 \<noteq> None \<and> why1 = StopCompleted
                                             then (StopSignal, ''interrupted by signal'') else (why1, detail1))
                      in Some (out\<lparr>oc_endedAt := t1, oc_quotaUsed := q_used (rn_quota r4),
                           oc_authRequests := at_requests (rn_auth r4), oc_reason := why2,
                           oc_reasonDetail := (if drained then detail2
                             else detail2 @ '' (grace period elapsed with requests still in flight)''),
                           oc_partial := (why2 \<noteq> StopCompleted \<or> \<not> drained)\<rparr>, r4)))))"

end
