(* ===== verification/Run_Invariants.thy ===== *)
theory Run_Invariants
  imports Runner
begin

text \<open>
  What the parts of a run leave alone, the cases of one dispatch, and the interface \<open>run_preserves\<close>:
  the laws under which a predicate on runners survives workers, dispatching, stages and a whole run.
  It is interpreted in \<open>Run_Audit\<close>.
\<close>

subsection \<open>Frames\<close>

text \<open>The part of the state the books are kept in.\<close>

definition core :: "'c runner \<Rightarrow> quota \<times> breaker option \<times> collector \<times> attempt list option \<times> bool \<times> string \<times> string \<times> job list" where
  "core r = (rn_quota r, rn_breaker r, rn_collector r, rn_sink r, rn_stopped r, rn_reason r, rn_detail r, rn_jobs r)"

lemma now_of_core: "now_of E r = (t, r') \<Longrightarrow> core r' = core r"
  by (auto simp: now_of_def core_def split: prod.splits)

lemma in_flight_core [simp]: "core (in_flight d r) = core r"
  by (simp add: in_flight_def core_def)

lemma send_core: "send E seq der r = (x, r') \<Longrightarrow> core r' = core r"
  by (auto simp: send_def Let_def core_def in_flight_def split: prod.splits sum.splits option.splits)

lemma completed_at_sequence [simp]: "a_sequence (completed_at t a) = a_sequence a"
  by (simp add: completed_at_def)

lemma run_attempt_core:
  assumes "run_attempt E seq nm scheduled startedAt lag r = Some (a, r')"
  shows "core r' = core r \<and> a_sequence a = seq"
proof -
  let ?b = "build_request (re_hash E) (re_create E) (re_builder E) (re_payload E seq) (re_draws E seq)"
  consider (err) e where "?b = Some (Inl e)" | (ok) req where "?b = Some (Inr req)"
    using assms by (cases ?b) (auto simp: run_attempt_def Let_def split: sum.splits)
  then show ?thesis
  proof cases
    case err
    then show ?thesis using assms
      by (auto simp: run_attempt_def Let_def blank_attempt_def dest: now_of_core split: prod.splits)
  next
    case ok
    obtain status ct body he r1 where s: "send E seq (rq_der req) r = ((status, ct, body, he), r1)"
      by (metis prod_cases4 surj_pair)
    note c1 = send_core [OF s]
    show ?thesis
    proof (cases he)
      case (Some e)
      then show ?thesis using assms ok s c1
        by (auto simp: run_attempt_def Let_def blank_attempt_def dest: now_of_core split: prod.splits)
    next
      case None
      obtain t r2 where n: "now_of E r1 = (t, r2)" by fastforce
      then have "core (r2\<lparr>rn_artifacts := x\<rparr>) = core r" for x
        using now_of_core [OF n] c1 by (simp add: core_def)
      then show ?thesis using assms ok s None n
        by (auto simp: run_attempt_def Let_def blank_attempt_def split: option.splits prod.splits)
    qed
  qed
qed

lemma perform_cases:
  assumes "perform E seq stg scheduled startedAt lag r = Some (trip, r')"
  obtains a r1 where "core r1 = core r" "a_sequence a = seq" "file_attempt stg a r1 = (trip, r')"
  using assms run_attempt_core [of E seq "stage_name_of stg r" scheduled startedAt lag r]
  by (fastforce simp: perform_def)

lemma file_attempt_jobs: "rn_jobs (snd (file_attempt stg a r)) = rn_jobs r"
  by (auto simp: file_attempt_def file_breaker_def write_sink_def stop_run_def split: option.split prod.split)

lemma core_jobs: "core r' = core r \<Longrightarrow> rn_jobs r' = rn_jobs r"
  by (simp add: core_def)

lemma perform_jobs:
  assumes "perform E seq stg s t l r = Some (trip, r')"
  shows "rn_jobs r' = rn_jobs r"
proof (rule perform_cases [OF assms])
  fix a r1 assume "core r1 = core r" "file_attempt stg a r1 = (trip, r')"
  then show ?thesis using file_attempt_jobs [of stg a r1] core_jobs [of r1 r] by simp
qed

lemma acquire_unit_cases:
  obtains (taken) seq q where "acquire (rn_quota r) = (Inr seq, q)" "acquire_unit E nm r = (Inr seq, r\<lparr>rn_quota := q\<rparr>)"
  | (refused) e where "acquire (rn_quota r) = (Inl e, rn_quota r)"
      "acquire_unit E nm r = (Inl err_stopped, record_quota_guard E nm
         (stop_run StopQuota (''quota exhausted during '' @ nm) r))"
proof -
  obtain x q where a: "acquire (rn_quota r) = (x, q)" by fastforce
  show thesis
  proof (cases x)
    case (Inl e)
    then have "q = rn_quota r" using a acquire_refused_iff [of "rn_quota r" e q] by simp
    moreover have "r\<lparr>rn_quota := rn_quota r\<rparr> = r" by simp
    ultimately show ?thesis using refused [of e] a Inl by (simp add: acquire_unit_def)
  qed (use taken a in \<open>simp add: acquire_unit_def\<close>)
qed

lemma record_quota_guard_core:
  "\<exists>r1 row. core r1 = core r \<and> record_quota_guard E nm r = write_sink row r1 \<and> a_sequence row = 0 \<and> self_inflicted row"
proof -
  obtain t r1 where n: "now_of E r = (t, r1)" by fastforce
  have "self_inflicted (quota_guard_row nm t)"
    by (simp add: self_inflicted_def quota_guard_row_def counts_against_provider_def)
  then show ?thesis using now_of_core [OF n] n
    by (intro exI [of _ r1] exI [of _ "quota_guard_row nm t"]) (simp add: record_quota_guard_def quota_guard_row_def)
qed

lemma finish_job_length:
  "finish_job E k r = Some r' \<Longrightarrow> k < length (rn_jobs r) \<Longrightarrow> length (rn_jobs r') = length (rn_jobs r) - 1"
  by (auto simp: finish_job_def Let_def dest: perform_jobs)

lemma finish_job_length_le: "finish_job E k r = Some r' \<Longrightarrow> length (rn_jobs r') \<le> length (rn_jobs r)"
  using finish_job_length [of E k r r'] by (cases "k < length (rn_jobs r)") (auto simp: finish_job_def)

lemma finish_jobs_length: "finish_jobs E ks r = Some r' \<Longrightarrow> length (rn_jobs r') \<le> length (rn_jobs r)"
proof (induction ks arbitrary: r)
  case (Cons k ks)
  then show ?case by (fastforce split: option.splits dest: finish_job_length_le)
qed simp

lemma settle_length: "settle E r = Some r' \<Longrightarrow> length (rn_jobs r') \<le> length (rn_jobs r)"
  unfolding settle_def by (drule finish_jobs_length) simp

lemma saturation_jobs [simp]: "rn_jobs (saturation stg r) = rn_jobs r"
  by (simp add: saturation_def)

lemma acquire_unit_jobs: "acquire_unit E nm r = (Inr seq, r') \<Longrightarrow> rn_jobs r' = rn_jobs r"
  by (rule acquire_unit_cases [of r E nm]) auto

lemma now_of_jobs: "now_of E r = (t, r') \<Longrightarrow> rn_jobs r' = rn_jobs r"
  by (auto simp: now_of_def split: prod.splits)

text \<open>The ways one dispatch can go.\<close>

lemma dispatch_cases:
  assumes "dispatch E stg tk r0 = Some (e, r')"
  obtains (gone) r where "settle E r0 = Some r" "r' = r"
  | (waiting) r x where "settle E r0 = Some r" "take_slot E stg r = Some (Some x, r')"
  | (slot) r r1 r1' r2 x r3 where "settle E r0 = Some r" "take_slot E stg r = Some (None, r1)"
      "r1' = r1 \<or> r1' = saturation stg r1" "settle E r1' = Some r2"
      "acquire_unit E (stage_name_of stg r2) r2 = (x, r3)"
      "(\<exists>y. x = Inl y \<and> r' = r3) \<or>
       (\<exists>seq t r4 j. x = Inr seq \<and> now_of E r3 = (t, r4) \<and> jb_seq j = seq \<and> jb_stage j = stg \<and>
         r' = r4\<lparr>rn_collector := record_sent stg t (rn_collector r4), rn_jobs := rn_jobs r4 @ [j]\<rparr>)"
proof -
  obtain r where r: "settle E r0 = Some r" using assms by (auto simp: dispatch_def split: option.splits)
  show thesis
  proof (cases "rn_stopped r \<or> ctx_of E r \<noteq> None")
    case True
    then show ?thesis using assms r gone by (auto simp: dispatch_def split: if_splits)
  next
    case False
    obtain e1 r1 where s: "take_slot E stg r = Some (e1, r1)"
      using assms r False by (auto simp: dispatch_def split: option.splits)
    show ?thesis
    proof (cases e1)
      case (Some x)
      then show ?thesis using assms r False s waiting by (auto simp: dispatch_def)
    next
      case None
      define r1' where "r1' = (if Lag tk > lc_lagThreshold (cf_load (re_cfg E)) then saturation stg r1 else r1)"
      obtain r2 where r2: "settle E r1' = Some r2"
        using assms r False s None by (auto simp: dispatch_def r1'_def [symmetric] split: option.splits)
      obtain x r3 where a: "acquire_unit E (stage_name_of stg r2) r2 = (x, r3)" by fastforce
      have d: "Some (e, r') = (case (x, r3) of (Inl e, r3) \<Rightarrow> Some (Some e, r3)
        | (Inr seq, r3) \<Rightarrow> (case now_of E r3 of (startedAt, r4) \<Rightarrow>
            Some (None, r4\<lparr>rn_collector := record_sent stg startedAt (rn_collector r4),
              rn_jobs := rn_jobs r4 @ [\<lparr>jb_seq = seq, jb_stage = stg, jb_scheduled = Scheduled tk,
                jb_startedAt = startedAt, jb_lag = Lag tk\<rparr>]\<rparr>)))"
        unfolding assms [symmetric] using r False s None r2 a by (simp add: dispatch_def r1'_def [symmetric])
      have "(\<exists>y. x = Inl y \<and> r' = r3) \<or>
       (\<exists>seq t r4 j. x = Inr seq \<and> now_of E r3 = (t, r4) \<and> jb_seq j = seq \<and> jb_stage j = stg \<and>
         r' = r4\<lparr>rn_collector := record_sent stg t (rn_collector r4), rn_jobs := rn_jobs r4 @ [j]\<rparr>)"
      proof (cases x)
        case (Inr seq)
        obtain t r4 where n: "now_of E r3 = (t, r4)" by fastforce
        let ?j = "\<lparr>jb_seq = seq, jb_stage = stg, jb_scheduled = Scheduled tk, jb_startedAt = t, jb_lag = Lag tk\<rparr>"
        have "r' = r4\<lparr>rn_collector := record_sent stg t (rn_collector r4), rn_jobs := rn_jobs r4 @ [?j]\<rparr>"
          using d Inr n by simp
        then show ?thesis using Inr n by (intro disjI2 exI [of _ seq] exI [of _ t] exI [of _ r4] exI [of _ ?j]) simp
      qed (use d in simp)
      moreover have "r1' = r1 \<or> r1' = saturation stg r1" by (simp add: r1'_def)
      ultimately show ?thesis using slot r s None r2 a by blast
    qed
  qed
qed

text \<open>The ways one turn of the scheduler's loop can go, and what its callbacks keep.\<close>

lemma sched_loop_cases:
  assumes "sched_loop now slp ctx emit oob s start cnt i l w = (tks, e, w')"
  obtains (finished) "cnt \<le> i" "e = None" "w' = w"
  | (cancelled) x where "ctx w = Some x" "e = Some x" "w' = w"
  | (slept) t w1 d x where "now w = (t, w1)" "slp w1 d = (Some x, w')" "e = Some x"
  | (failed) t w1 d w2 ac w3 tk x where "now w = (t, w1)" "w2 = w1 \<or> slp w1 d = (None, w2)" "now w2 = (ac, w3)"
      "emit tk w3 = (Some x, w')" "e = Some x"
  | (released) t w1 d w2 ac w3 tk w4 tks' where "i < cnt" "now w = (t, w1)" "w2 = w1 \<or> slp w1 d = (None, w2)"
      "now w2 = (ac, w3)" "emit tk w3 = (None, w4)"
      "sched_loop now slp ctx emit oob s start cnt (i + 1) ac w4 = (tks', e, w')"
proof -
  let ?sch = "time_add start (offset oob (Rate s) i)"
  let ?dl = "deadline_of ?sch (min_gap oob s) l"
  obtain t w1 where n1: "now w = (t, w1)" by fastforce
  obtain r w2 where sl: "(if t < ?dl then slp w1 ?dl else (None, w1)) = (r, w2)" by fastforce
  obtain ac w3 where n3: "now w2 = (ac, w3)" by fastforce
  define tk where "tk = \<lparr>Sequence = i + 1, Scheduled = ?sch, Actual = ac,
    Lag = (if time_sub ac ?sch < 0 then 0 else time_sub ac ?sch)\<rparr>"
  obtain er w4 where em: "emit tk w3 = (er, w4)" by fastforce
  obtain tks' res w5 where rest: "sched_loop now slp ctx emit oob s start cnt (i + 1) ac w4 = (tks', res, w5)"
    by (metis prod_cases3)
  have u: "sched_loop now slp ctx emit oob s start cnt i l w =
      (if i < cnt then (case ctx w of Some x \<Rightarrow> ([], Some x, w)
        | None \<Rightarrow> (case r of Some x \<Rightarrow> ([], Some x, w2)
          | None \<Rightarrow> (case er of Some x \<Rightarrow> ([tk], Some x, w4) | None \<Rightarrow> (tk # tks', res, w5))))
       else ([], None, w))"
    using n1 sl n3 em rest
    by (subst sched_loop.simps) (simp add: Let_def tk_def split: option.split)
  have sl': "w2 = w1 \<and> r = None \<or> slp w1 ?dl = (r, w2)" using sl by (auto split: if_splits)
  show thesis
  proof (cases "i < cnt \<and> ctx w = None")
    case False
    then show ?thesis using u assms finished cancelled by (cases "ctx w") (auto split: if_splits)
  next
    case True
    show ?thesis
    proof (cases r)
      case (Some x)
      then have "slp w1 ?dl = (Some x, w')" "e = Some x" using u assms True sl' by auto
      then show ?thesis using slept [OF n1] by blast
    next
      case None
      then have w2: "w2 = w1 \<or> slp w1 ?dl = (None, w2)" using sl' by auto
      show ?thesis
      proof (cases er)
        case (Some x)
        then have "e = Some x" "w' = w4" using u assms True None by auto
        then show ?thesis using failed [OF n1 w2 n3] em Some by blast
      next
        case er: None
        then have "e = res" "w' = w5" using u assms True None by auto
        then show ?thesis using released [OF _ n1 w2 n3] em er rest True by blast
      qed
    qed
  qed
qed

lemma sched_loop_inv:
  assumes now: "\<And>w t w'. J w \<Longrightarrow> now w = (t, w') \<Longrightarrow> J w'"
    and slp: "\<And>w d e w'. J w \<Longrightarrow> slp w d = (e, w') \<Longrightarrow> J w'"
    and emit: "\<And>w tk e w'. J w \<Longrightarrow> emit tk w = (e, w') \<Longrightarrow> J w'"
  shows "sched_loop now slp ctx emit oob s start cnt i l w = (tks, e, w') \<Longrightarrow> J w \<Longrightarrow> J w'"
proof (induction "nat (cnt - i)" arbitrary: i l w tks e rule: less_induct)
  case less
  from less.prems(1) show ?case
  proof (cases rule: sched_loop_cases)
    case (released t w1 d w2 ac w3 tk w4 tks')
    have "J w4" using less.prems(2) released by (metis now slp emit)
    then show ?thesis using less.hyps [OF _ released(6)] released(1) by simp
  qed (use less.prems(2) in \<open>metis now slp emit\<close>)+
qed

lemma sched_run_inv:
  assumes "\<And>w t w'. J w \<Longrightarrow> now w = (t, w') \<Longrightarrow> J w'"
    and "\<And>w d e w'. J w \<Longrightarrow> slp w d = (e, w') \<Longrightarrow> J w'"
    and "\<And>w tk e w'. J w \<Longrightarrow> emit tk w = (e, w') \<Longrightarrow> J w'"
    and "J w" "sched_run now slp ctx emit oob s start cnt w = (tks, e, w')"
  shows "J w'"
proof (cases "Rate s \<le> Fin 0 \<or> \<not> HasClock s")
  case True
  then show ?thesis using assms(4,5) by (auto simp: sched_run_def split: if_splits)
next
  case False
  then have "sched_loop now slp ctx emit oob s start cnt 0 0 w = (tks, e, w')"
    using assms(5) by (simp add: sched_run_def)
  then show ?thesis using sched_loop_inv [of J now slp emit] assms(1-4) by metis
qed

subsection \<open>What every part of a run preserves\<close>

text \<open>
  \<open>I n\<close> holds between the actions of the dispatcher while \<open>n\<close> stages are registered, \<open>H seq n\<close>
  while it carries a unit it has acquired and counted.  The laws are about the primitive actions;
  the lemmas carry \<open>I\<close> through workers, dispatching, stages and the whole run.
\<close>

locale run_preserves =
  fixes E :: "'c runner_env" and I :: "nat \<Rightarrow> 'c runner \<Rightarrow> bool" and H :: "int \<Rightarrow> nat \<Rightarrow> 'c runner \<Rightarrow> bool"
  assumes core_ok: "I n r \<Longrightarrow> core r' = core r \<Longrightarrow> I n r'"
    and jobs_bounded: "I n r \<Longrightarrow> length (rn_jobs r) \<le> max_concurrency E"
    and refuse_ok: "I n r \<Longrightarrow> acquire_unit E nm r = (Inl e, r') \<Longrightarrow> I n r'"
    and saturation_ok: "I n r \<Longrightarrow> stg < n \<Longrightarrow> I n (saturation stg r)"
    and started_ok: "I n r \<Longrightarrow> stg < n \<Longrightarrow> I n (stage_times stg (\<lambda>x. x\<lparr>ss_startedAt := t\<rparr>) r)"
    and ended_ok: "I n r \<Longrightarrow> stg < n \<Longrightarrow> I n (stage_times stg (\<lambda>x. x\<lparr>ss_endedAt := t\<rparr>) r)"
    and register_ok: "I n r \<Longrightarrow> register_stage nm tps pl (rn_collector r) = (stg, c) \<Longrightarrow>
      \<exists>m. stg < m \<and> I m (r\<lparr>rn_collector := c\<rparr>)"
    and stop_ok: "I n r \<Longrightarrow> why = StopQuota \<or> why = StopError \<Longrightarrow> I n (stop_run why detail r)"
    and guard_ok: "I n r \<Longrightarrow> I n (record_quota_guard E nm r)"
    and issue_ok: "I n r \<Longrightarrow> stg < n \<Longrightarrow> acquire_unit E nm r = (Inr seq, r1) \<Longrightarrow> now_of E r1 = (t, r2) \<Longrightarrow>
      H seq n (r2\<lparr>rn_collector := record_sent stg t (rn_collector r2)\<rparr>)"
    and enqueue_ok: "H (jb_seq j) n r \<Longrightarrow> jb_stage j < n \<Longrightarrow> length (rn_jobs r) < max_concurrency E \<Longrightarrow>
      I n (r\<lparr>rn_jobs := rn_jobs r @ [j]\<rparr>)"
    and perform_ok: "H seq n r \<Longrightarrow> stg < n \<Longrightarrow> perform E seq stg s t l r = Some (trip, r') \<Longrightarrow> I n r'"
    and finish_ok: "I n r \<Longrightarrow> k < length (rn_jobs r) \<Longrightarrow> finish_job E k r = Some r' \<Longrightarrow> I n r'"
begin

lemma now_ok: "I n r \<Longrightarrow> now_of E r = (t, r') \<Longrightarrow> I n r'"
  by (rule core_ok [OF _ now_of_core])

lemma clock_ok: "I n r \<Longrightarrow> I n (r\<lparr>rn_clock := c\<rparr>)"
  by (erule core_ok) (simp add: core_def)

lemma finish_job_ok: "I n r \<Longrightarrow> finish_job E k r = Some r' \<Longrightarrow> I n r'"
  by (cases "k < length (rn_jobs r)") (auto intro: finish_ok simp: finish_job_def)

lemma finish_jobs_ok: "I n r \<Longrightarrow> finish_jobs E ks r = Some r' \<Longrightarrow> I n r'"
proof (induction ks arbitrary: r)
  case (Cons k ks)
  then show ?case by (auto split: option.splits dest: finish_job_ok)
qed simp

lemma settle_ok: "I n r \<Longrightarrow> settle E r = Some r' \<Longrightarrow> I n r'"
  unfolding settle_def by (erule finish_jobs_ok [rotated], erule core_ok) (simp add: core_def)

lemma take_slot_ok:
  assumes "I n r" "stg < n" "take_slot E stg r = Some (e, r')"
  shows "I n r'" "e = None \<Longrightarrow> length (rn_jobs r') < max_concurrency E"
proof -
  have "I n r' \<and> (e = None \<longrightarrow> length (rn_jobs r') < max_concurrency E)"
  proof (cases "length (rn_jobs r) < max_concurrency E")
    case False
    then obtain r1 where r1: "settle E (saturation stg r) = Some r1"
      using assms(3) by (auto simp: take_slot_def split: option.splits)
    have i1: "I n r1" by (rule settle_ok [OF saturation_ok r1]) (fact assms)+
    show ?thesis
    proof (cases "length (rn_jobs r1) < max_concurrency E \<or> ctx_of E r1 \<noteq> None")
      case True
      then have "r' = r1 \<and> (e = None \<longrightarrow> length (rn_jobs r1) < max_concurrency E)"
        using assms(3) False r1
        by (cases "length (rn_jobs r1) < max_concurrency E"; cases "ctx_of E r1") (simp_all add: take_slot_def)
      then show ?thesis using i1 by simp
    next
      case full: False
      then obtain r2 where r2: "rn_jobs r1 \<noteq> []" "finish_job E 0 r1 = Some r2" "e = None" "r' = r2"
        using assms(3) False r1 by (auto simp: take_slot_def split: if_splits option.splits)
      then show ?thesis using finish_job_ok [OF i1 r2(2)] finish_job_length [OF r2(2)] jobs_bounded [OF i1]
        by (cases "rn_jobs r1") auto
    qed
  qed (use assms in \<open>auto simp: take_slot_def\<close>)
  then show "I n r'" "e = None \<Longrightarrow> length (rn_jobs r') < max_concurrency E" by auto
qed

lemma dispatch_ok:
  assumes "I n r0" "stg < n" "dispatch E stg tk r0 = Some (e, r')"
  shows "I n r'"
proof (rule dispatch_cases [OF assms(3)])
  fix r assume "settle E r0 = Some r" "r' = r"
  then show ?thesis using settle_ok [OF assms(1)] by simp
next
  fix r x assume "settle E r0 = Some r" "take_slot E stg r = Some (Some x, r')"
  then show ?thesis using take_slot_ok(1) [OF settle_ok [OF assms(1)] assms(2)] by blast
next
  fix r r1 r1' r2 x r3
  assume s: "settle E r0 = Some r" "take_slot E stg r = Some (None, r1)"
    "r1' = r1 \<or> r1' = saturation stg r1" "settle E r1' = Some r2"
    and a: "acquire_unit E (stage_name_of stg r2) r2 = (x, r3)"
    and x: "(\<exists>y. x = Inl y \<and> r' = r3) \<or>
      (\<exists>seq t r4 j. x = Inr seq \<and> now_of E r3 = (t, r4) \<and> jb_seq j = seq \<and> jb_stage j = stg \<and>
         r' = r4\<lparr>rn_collector := record_sent stg t (rn_collector r4), rn_jobs := rn_jobs r4 @ [j]\<rparr>)"
  note slot = take_slot_ok [OF settle_ok [OF assms(1) s(1)] assms(2) s(2)]
  have i1: "I n r1'" "rn_jobs r1' = rn_jobs r1" using s(3) slot(1) saturation_ok [OF _ assms(2)] by auto
  have i2: "I n r2" by (rule settle_ok [OF i1(1) s(4)])
  have len: "length (rn_jobs r2) < max_concurrency E"
    using settle_length [OF s(4)] slot(2) i1(2) by simp
  from x show ?thesis
  proof (elim disjE exE conjE)
    fix y assume "x = Inl y" "r' = r3"
    then show ?thesis using refuse_ok [OF i2] a by simp
  next
    fix seq t r4 j
    assume j: "x = Inr seq" "now_of E r3 = (t, r4)" "jb_seq j = seq" "jb_stage j = stg"
      "r' = r4\<lparr>rn_collector := record_sent stg t (rn_collector r4), rn_jobs := rn_jobs r4 @ [j]\<rparr>"
    have "H (jb_seq j) n (r4\<lparr>rn_collector := record_sent stg t (rn_collector r4)\<rparr>)"
      using issue_ok [OF i2 assms(2)] a j by simp
    then have "I n ((r4\<lparr>rn_collector := record_sent stg t (rn_collector r4)\<rparr>)
        \<lparr>rn_jobs := rn_jobs (r4\<lparr>rn_collector := record_sent stg t (rn_collector r4)\<rparr>) @ [j]\<rparr>)"
      using j(4) assms(2) len acquire_unit_jobs [of E _ r2 seq r3] now_of_jobs [OF j(2)] a j(1)
      by (intro enqueue_ok) auto
    then show ?thesis using j(5) by simp
  qed
qed

lemma run_sequential_ok: "I n r \<Longrightarrow> stg < n \<Longrightarrow> run_sequential E stg k r = Some (e, r') \<Longrightarrow> I n r'"
proof (induction k arbitrary: r)
  case (Suc k)
  show ?case
  proof (cases "ctx_of E r \<noteq> None \<or> rn_stopped r")
    case True
    then have "r' = r" using Suc.prems(3) by (cases "ctx_of E r") simp_all
    then show ?thesis using Suc.prems(1) by simp
  next
    case False
    obtain x r1 where a: "acquire_unit E (stage_name_of stg r) r = (x, r1)" by fastforce
    show ?thesis
    proof (cases x)
      case (Inl y)
      then show ?thesis using Suc.prems False a refuse_ok by auto
    next
      case (Inr seq)
      obtain t r2 where n: "now_of E r1 = (t, r2)" by fastforce
      define r3 where "r3 = r2\<lparr>rn_collector := record_sent stg t (rn_collector r2)\<rparr>"
      have h: "H seq n r3" using issue_ok [OF Suc.prems(1,2)] a Inr n by (simp add: r3_def)
      obtain trip r4 where p: "perform E seq stg t t 0 r3 = Some (trip, r4)"
        using Suc.prems(3) False a Inr n by (auto simp: r3_def split: option.splits)
      have "I n r4" by (rule perform_ok [OF h Suc.prems(2) p])
      then show ?thesis using Suc False a Inr n p by (cases trip) (auto simp: r3_def)
    qed
  qed
qed simp

text \<open>The scheduler keeps what its callbacks keep.\<close>

lemma run_stage_ok:
  assumes "I n r" "stg < n" "run_stage E s pl stg r = Some (e, r')"
  shows "I n r'"
proof (cases "pl \<le> 0 \<or> stg_mode s = ModeSequential")
  case True
  then show ?thesis using assms run_sequential_ok [OF assms(1,2)]
    by (auto simp: run_stage_def split: if_splits)
next
  case False
  define J where "J w = (case w of None \<Rightarrow> True | Some r \<Rightarrow> I n r)" for w
  let ?s = "\<lparr>Rate = stg_tps s, HasClock = True, LagThreshold = lc_lagThreshold (cf_load (re_cfg E))\<rparr>"
  obtain start r1 tks where r1: "now_of E r = (start, r1)"
    and run: "sched_run (run_now E) (run_sleep_until E) (run_ctx E) (run_emit E stg)
      (re_oob E) ?s start pl (Some r1) = (tks, e, Some r')"
    using assms(3) False by (auto simp: run_stage_def Let_def split: prod.splits option.splits)
  have "J (Some r')"
  proof (rule sched_run_inv [where J = J, OF _ _ _ _ run])
    show "J w'" if "J w" "run_now E w = (t, w')" for w t w'
      using that by (auto simp: J_def run_now_def dest: now_ok split: option.splits prod.splits)
    show "J w'" if "J w" "run_sleep_until E w d = (e, w')" for w d e w'
      using that by (auto simp: J_def run_sleep_until_def intro: clock_ok split: option.splits prod.splits)
    show "J w'" if "J w" "run_emit E stg tk w = (e, w')" for w tk e w'
      using that dispatch_ok [OF _ assms(2)] by (auto simp: J_def run_emit_def split: option.splits prod.splits)
    show "J (Some r1)" using now_ok [OF assms(1) r1] by (simp add: J_def)
  qed
  then show ?thesis by (simp add: J_def)
qed

lemma truncated_ok: "I n r \<Longrightarrow> I n (close_truncated E s pl tr r)"
  using guard_ok stop_ok [of n r StopQuota] by (simp add: close_truncated_def)

lemma run_one_ok:
  assumes "I n r" "run_one E s out r = Some (go, out', r')"
  shows "\<exists>m. I m r'"
proof (cases "rn_stopped r \<or> ctx_of E r \<noteq> None \<or> remaining (rn_quota r) \<le> 0")
  case True
  then have "r' = r \<or> (\<exists>d. r' = stop_run StopQuota d r)"
    using assms(2) by (auto simp: run_one_def Let_def split: if_splits)
  then show ?thesis using assms(1) stop_ok [of n r StopQuota] by blast
next
  case False
  define tr where "tr \<longleftrightarrow> planned (re_oob E) s > remaining (rn_quota r)"
  define pl where "pl = (if tr then remaining (rn_quota r) else planned (re_oob E) s)"
  note tr_pl = tr_def [symmetric] pl_def [symmetric]
  obtain stg c where reg: "register_stage (stg_name s) (stg_tps s) pl (rn_collector r) = (stg, c)" by fastforce
  obtain m where m: "stg < m" "I m (r\<lparr>rn_collector := c\<rparr>)" using register_ok [OF assms(1) reg] by blast
  obtain t0 r1 where n0: "now_of E (r\<lparr>rn_collector := c\<rparr>) = (t0, r1)" by fastforce
  let ?r1 = "stage_times stg (\<lambda>x. x\<lparr>ss_startedAt := t0\<rparr>) r1"
  obtain err r2 where st: "run_stage E s pl stg ?r1 = Some (err, r2)"
    using assms(2) False reg n0 by (auto simp: run_one_def Let_def tr_pl split: option.splits)
  obtain t1 r3 where n1: "now_of E r2 = (t1, r3)" by fastforce
  let ?r4 = "stage_times stg (\<lambda>x. x\<lparr>ss_endedAt := t1\<rparr>) r3"
  let ?r5 = "close_truncated E s pl (tr) ?r4"
  have "I m ?r5"
    by (rule truncated_ok, rule ended_ok [OF now_ok [OF run_stage_ok [OF started_ok [OF now_ok [OF m(2) n0] m(1)] m(1) st] n1] m(1)])
  moreover have "r' = ?r5 \<or> (\<exists>d. r' = stop_run StopError d ?r5)"
    using assms(2) False unfolding run_one_def
    by (auto simp: Let_def tr_pl reg n0 st n1 split: option.splits if_splits)
  ultimately show ?thesis using stop_ok by blast
qed

lemma run_stages_ok: "I n r \<Longrightarrow> run_stages E ss out r = Some (out', r') \<Longrightarrow> \<exists>m. I m r'"
proof (induction ss arbitrary: n r out)
  case (Cons s ss)
  obtain go o1 r1 where one: "run_one E s out r = Some (go, o1, r1)"
    using Cons.prems(2) by (auto split: option.splits)
  obtain m where m: "I m r1" using run_one_ok [OF Cons.prems(1) one] by blast
  show ?case
  proof (cases "\<not> go \<or> ss = []")
    case True
    then show ?thesis using Cons.prems(2) one m by auto
  next
    case False
    let ?p = "case stg_pauseAfter s of None \<Rightarrow> lc_stagePause (cf_load (re_cfg E)) | Some p \<Rightarrow> p"
    obtain e c where sl: "re_sleep E (rn_clock r1) ?p = (e, c)" by fastforce
    have "r' = r1\<lparr>rn_clock := c\<rparr> \<or> (\<exists>q. I m q \<and> run_stages E ss o1 q = Some (out', r'))"
      using Cons.prems(2) False one sl m clock_ok [OF m, of c] by (auto simp: Let_def split: if_splits option.splits)
    then show ?thesis using Cons.IH clock_ok [OF m] by blast
  qed
qed auto

lemma drain_ok: "I n r \<Longrightarrow> drain E r = Some (d, r') \<Longrightarrow> I n r'"
  by (auto simp: drain_def split: option.splits if_splits dest: settle_ok finish_jobs_ok)

end

subsection \<open>The phases of a run\<close>

lemma run_cases:
  assumes run: "run E r0 = Some (out, r)"
  obtains (unprimed) "core r = core r0" "oc_quotaUsed out = 0" "oc_partial out" "oc_reason out = StopError"
  | (ran) r1 why detail r2 d r3 t where "core r1 = core r0"
      "run_stages E (prf_stages (re_profile E)) (StopCompleted, []) r1 = Some ((why, detail), r2)"
      "drain E r2 = Some (d, r3)" "now_of E r3 = (t, r)" "oc_quotaUsed out = q_used (rn_quota r)"
      "oc_reason out = (let w = (if rn_stopped r \<and> rn_reason r \<noteq> [] then rn_reason r else why)
         in if ctx_of E r \<noteq> None \<and> w = StopCompleted then StopSignal else w)"
      "oc_partial out \<longleftrightarrow> oc_reason out \<noteq> StopCompleted \<or> \<not> d"
proof -
  obtain t0 ra where n0: "now_of E r0 = (t0, ra)" by fastforce
  obtain perr a n where pr: "prime (re_transport E) (rn_auth ra) (rn_net ra) = (perr, a, n)"
    by (metis prod_cases3)
  define r1 where "r1 = ra\<lparr>rn_auth := a, rn_net := n\<rparr>"
  have c1: "core r1 = core r0" using now_of_core [OF n0] by (simp add: r1_def core_def)
  show thesis
  proof (cases perr)
    case (Some e)
    obtain t1 r2 where n1: "now_of E r1 = (t1, r2)" by fastforce
    show ?thesis
    proof (rule unprimed)
      show "core r = core r0" using run n0 pr Some n1 now_of_core [OF n1] c1
        by (auto simp: run_def Let_def r1_def [symmetric])
    qed (use run n0 pr Some n1 in \<open>auto simp: run_def Let_def r1_def\<close>)
  next
    case None
    obtain why detail r2 where st: "run_stages E (prf_stages (re_profile E)) (StopCompleted, []) r1 = Some ((why, detail), r2)"
      using run n0 pr None by (auto simp: run_def Let_def r1_def split: option.splits)
    obtain d r3 where dr: "drain E r2 = Some (d, r3)"
      using run n0 pr None st by (auto simp: run_def Let_def r1_def split: option.splits)
    obtain t1 r4 where n1: "now_of E r3 = (t1, r4)" by fastforce
    have r: "r = r4" using run n0 pr None st dr n1 by (auto simp: run_def Let_def r1_def split: prod.splits)
    show ?thesis
      by (rule ran [OF c1 st dr n1 [folded r]];
        use run n0 pr None st dr n1 in \<open>auto simp: run_def Let_def r1_def [symmetric] r split: if_splits\<close>)
  qed
qed

end
