(* ===== verification/Run_Audit.thy ===== *)
theory Run_Audit
  imports Run_Invariants
begin

text \<open>
  The books of a run: what the quota, the collector, the audit sink, the workers and the circuit
  breaker say at any moment agree with each other.  \<open>books\<close> states it, the interpretation of
  \<open>run_preserves\<close> shows that every action of a run keeps it, and the properties read it off at the
  end of \<^verbatim>\<open>Run\<close>.
\<close>

subsection \<open>The books\<close>

text \<open>The outcomes the breaker is told of, and the rows that stand for a request.\<close>

definition breaker_feed :: "attempt list \<Rightarrow> bool list" where
  "breaker_feed rows = map (\<lambda>a. \<not> succeeded a) (filter (\<lambda>a. \<not> self_inflicted a) rows)"

definition numbered :: "attempt list \<Rightarrow> attempt list" where
  "numbered rows = filter (\<lambda>a. a_sequence a \<noteq> 0) rows"

definition has_tripped :: "breaker option \<Rightarrow> bool" where
  "has_tripped b = (case b of None \<Rightarrow> False | Some b \<Rightarrow> tripped b)"

definition breaker_of :: "breaker option \<Rightarrow> attempt list \<Rightarrow> breaker option" where
  "breaker_of b rows = map_option (\<lambda>b. Breaker.record_all b (breaker_feed rows)) b"

definition stop_sound :: "'c runner \<Rightarrow> bool" where
  "stop_sound r \<longleftrightarrow>
     (has_tripped (rn_breaker r) \<longrightarrow> rn_stopped r) \<and>
     (rn_stopped r \<longrightarrow> q_closed (rn_quota r) \<and> rn_reason r \<in> {StopQuota, StopBreaker, StopError} \<and>
        (rn_reason r = StopBreaker \<longrightarrow> has_tripped (rn_breaker r)))"

text \<open>\<open>P\<close>: the units of requests that are on the way.\<close>

definition books ::
  "time \<Rightarrow> breaker option \<Rightarrow> int \<Rightarrow> nat \<Rightarrow> int multiset \<Rightarrow> 'c runner \<Rightarrow> attempt list \<Rightarrow> coll_op list \<Rightarrow> bool" where
  "books t b L n P r rows h \<longleftrightarrow>
     rn_sink r = Some rows \<and>
     coll_rel t (rn_collector r) h \<and> length (c_stages (rn_collector r)) = n \<and>
     ran (c_byName (rn_collector r)) \<subseteq> {..<n} \<and>
     numbered rows = attempts h \<and>
     mset (map a_sequence (attempts h)) + P = mset [1..q_used (rn_quota r)] \<and>
     int (length (filter is_sent h)) = q_used (rn_quota r) \<and>
     q_used (rn_quota r) \<le> max 0 L \<and> limit (rn_quota r) = L \<and>
     rn_breaker r = breaker_of b rows \<and> stop_sound r"

definition ledger ::
  "'c runner_env \<Rightarrow> time \<Rightarrow> breaker option \<Rightarrow> int \<Rightarrow> int multiset \<Rightarrow> nat \<Rightarrow> 'c runner \<Rightarrow> bool" where
  "ledger E t b L P n r \<longleftrightarrow>
     length (rn_jobs r) \<le> max_concurrency E \<and> (\<forall>j \<in> set (rn_jobs r). jb_stage j < n) \<and>
     (\<exists>rows h. books t b L n (P + mset (map jb_seq (rn_jobs r))) r rows h)"

lemma breaker_feed_snoc [simp]:
  "breaker_feed (rows @ [a]) = breaker_feed rows @ (if self_inflicted a then [] else [\<not> succeeded a])"
  by (simp add: breaker_feed_def)

lemma numbered_snoc [simp]:
  "numbered (rows @ [a]) = numbered rows @ (if a_sequence a = 0 then [] else [a])"
  by (simp add: numbered_def)

lemma core_sel:
  assumes "core r' = core r"
  shows "rn_quota r' = rn_quota r" "rn_breaker r' = rn_breaker r" "rn_collector r' = rn_collector r"
    "rn_sink r' = rn_sink r" "rn_stopped r' = rn_stopped r" "rn_reason r' = rn_reason r"
    "rn_jobs r' = rn_jobs r"
  using assms by (simp_all add: core_def)

lemma books_core: "core r' = core r \<Longrightarrow> books t b L n P r' rows h = books t b L n P r rows h"
  unfolding books_def stop_sound_def using core_sel [of r' r] by simp

lemma ledger_core: "ledger E t b L P n r \<Longrightarrow> core r' = core r \<Longrightarrow> ledger E t b L P n r'"
  using core_sel(7) [of r' r] books_core [of r' r] by (simp add: ledger_def)

lemma books_used: "books t b L n P r rows h \<Longrightarrow> 0 \<le> q_used (rn_quota r)"
  by (simp add: books_def)

text \<open>Units are numbered from one.\<close>

lemma books_unit: "books t b L n P r rows h \<Longrightarrow> x \<in># P \<Longrightarrow> 1 \<le> x"
  unfolding books_def by (metis atLeastAtMost_iff set_mset_mset set_upto union_iff)

subsection \<open>Each action keeps the books\<close>

lemma stop_sound_frame [simp]:
  "stop_sound (r\<lparr>rn_collector := c\<rparr>) = stop_sound r" "stop_sound (r\<lparr>rn_sink := k\<rparr>) = stop_sound r"
  "stop_sound (r\<lparr>rn_jobs := js\<rparr>) = stop_sound r" "stop_sound (write_sink a r) = stop_sound r"
  "stop_sound (r\<lparr>rn_quota := (rn_quota r)\<lparr>q_used := u\<rparr>\<rparr>) = stop_sound r"
  by (simp_all add: stop_sound_def write_sink_def)

lemma stop_run_sel [simp]:
  "rn_sink (stop_run w d r) = rn_sink r" "rn_collector (stop_run w d r) = rn_collector r"
  "rn_breaker (stop_run w d r) = rn_breaker r" "rn_jobs (stop_run w d r) = rn_jobs r"
  "q_used (rn_quota (stop_run w d r)) = q_used (rn_quota r)"
  "limit (rn_quota (stop_run w d r)) = limit (rn_quota r)" "rn_stopped (stop_run w d r)"
  by (simp_all add: stop_run_def close_quota_def)

lemma stop_run_sound:
  assumes "stop_sound r" "w \<in> {StopQuota, StopError} \<or> w = StopBreaker \<and> has_tripped (rn_breaker r)"
  shows "stop_sound (stop_run w d r)"
  using assms by (auto simp: stop_sound_def stop_run_def close_quota_def stop_reasons)

lemma books_stop:
  "books t b L n P r rows h \<Longrightarrow> w = StopQuota \<or> w = StopError \<Longrightarrow> books t b L n P (stop_run w d r) rows h"
  using stop_run_sound [of r w d] by (auto simp: books_def)

lemma write_sink_sel [simp]:
  "rn_sink (write_sink a r) = map_option (\<lambda>rows. rows @ [a]) (rn_sink r)"
  "rn_collector (write_sink a r) = rn_collector r" "rn_breaker (write_sink a r) = rn_breaker r"
  "rn_jobs (write_sink a r) = rn_jobs r" "rn_quota (write_sink a r) = rn_quota r"
  "rn_stopped (write_sink a r) = rn_stopped r" "rn_reason (write_sink a r) = rn_reason r"
  by (simp_all add: write_sink_def)

lemma books_guard_row:
  "books t b L n P r rows h \<Longrightarrow> a_sequence a = 0 \<Longrightarrow> self_inflicted a \<Longrightarrow>
     books t b L n P (write_sink a r) (rows @ [a]) h"
  by (simp add: books_def breaker_of_def)

lemma books_op:
  assumes "books t b L n P r rows h" "case op_target x of None \<Rightarrow> True | Some q \<Rightarrow> q < n"
  shows "coll_rel t (apply_op x (rn_collector r)) (h @ [x])"
  using assms by (intro apply_op_rel) (auto simp: books_def)

lemma record_stages [simp]:
  "length (c_stages (record_saturation q c)) = length (c_stages c)"
  "length (c_stages (record_sent q ts c)) = length (c_stages c)"
  "length (c_stages (record_attempt q a c)) = length (c_stages c)"
  "c_byName (record_saturation q c) = c_byName c" "c_byName (record_sent q ts c) = c_byName c"
  "c_byName (record_attempt q a c) = c_byName c"
  by (simp_all add: record_saturation_def record_sent_def record_attempt_def update_stage_def
      update_overall_def update_second_def second_of_def Let_def)

lemma books_saturation:
  "books t b L n P r rows h \<Longrightarrow> stg < n \<Longrightarrow> books t b L n P (saturation stg r) rows (h @ [Saturated stg])"
  using books_op [of t b L n P r rows h "Saturated stg"]
  by (simp add: books_def saturation_def is_sent_def)

lemma books_issue:
  assumes "books t b L n P r rows h" "stg < n" "acquire (rn_quota r) = (Inr seq, q)"
  shows "books t b L n (add_mset seq P) (r\<lparr>rn_quota := q, rn_collector := record_sent stg ts (rn_collector r)\<rparr>)
    rows (h @ [Sent stg ts])"
proof -
  have q: "seq = q_used (rn_quota r) + 1" "q = (rn_quota r)\<lparr>q_used := seq\<rparr>" "q_used (rn_quota r) < L"
    using assms(1,3) by (auto simp: acquire_ok_iff books_def)
  have "0 \<le> q_used (rn_quota r)" by (rule books_used [OF assms(1)])
  then have "[1..seq] = [1..q_used (rn_quota r)] @ [seq]" by (simp add: q(1) upto_rec2)
  then show ?thesis using assms(1,2) books_op [of t b L n P r rows h "Sent stg ts"] q
    by (simp add: books_def is_sent_def)
qed

lemma stage_rel_times: "stage_rel (s\<lparr>ss_startedAt := x\<rparr>) g = stage_rel s g"
  "stage_rel (s\<lparr>ss_endedAt := x\<rparr>) g = stage_rel s g"
  by (simp_all add: stage_rel_def)

lemma coll_rel_times:
  assumes c: "coll_rel t c h" and stg: "stg < length (c_stages c)"
    and f: "\<And>s g. stage_rel (f s) g = stage_rel s g"
  shows "coll_rel t (update_stage stg f c) h"
proof -
  have b: "bucket_at (update_stage stg f c) i = bucket_at c i" for i by (simp add: bucket_at_def update_stage_def)
  have sel: "length (c_stages (update_stage stg f c)) = length (c_stages c)"
    "c_overall (update_stage stg f c) = c_overall c" "c_startedAt (update_stage stg f c) = c_startedAt c"
    by (simp_all add: update_stage_def)
  have st: "stage_rel (c_stages (update_stage stg f c) ! r) g = stage_rel (c_stages c ! r) g" for r g
    using stg f by (cases "r = stg") (simp_all add: update_stage_def)
  show ?thesis using c unfolding coll_rel_def b sel st .
qed

lemma books_times:
  assumes "books t b L n P r rows h" "stg < n" "\<And>s g. stage_rel (f s) g = stage_rel s g"
  shows "books t b L n P (stage_times stg f r) rows h"
proof -
  have "length (c_stages (update_stage stg f c)) = length (c_stages c)" "c_byName (update_stage stg f c) = c_byName c" for c
    by (simp_all add: update_stage_def)
  then show ?thesis using assms coll_rel_times [of t "rn_collector r" h stg f]
    by (simp add: books_def stage_times_def)
qed

lemma books_register:
  assumes b: "books t b L n P r rows h" and reg: "register_stage nm tps pl (rn_collector r) = (stg, c)"
  shows "\<exists>m. stg < m \<and> n \<le> m \<and> books t b L m P (r\<lparr>rn_collector := c\<rparr>) rows (h @ [Register nm tps pl])"
proof -
  have "coll_rel t c (h @ [Register nm tps pl])"
    using books_op [OF b, of "Register nm tps pl"] reg by simp
  moreover have "stg < length (c_stages c) \<and> n \<le> length (c_stages c) \<and> ran (c_byName c) \<subseteq> {..<length (c_stages c)}"
    using b reg unfolding books_def
    by (auto simp: register_stage_def Let_def ran_def less_Suc_eq split: option.splits if_splits) blast+
  ultimately show ?thesis using b by (intro exI [of _ "length (c_stages c)"]) (simp add: books_def is_sent_def)
qed

text \<open>Filing the attempt of a unit that is on the way.\<close>

lemma record_outcome_trip:
  "fst (record_outcome b x) \<longleftrightarrow> \<not> disabled b \<and> tripped (snd (record_outcome b x))"
  by (simp add: record_outcome_def Let_def)

lemma record_outcome_untripped:
  "disabled b \<Longrightarrow> snd (record_outcome b x) = b"
  by (simp add: record_outcome_def)

lemma file_breaker_books:
  assumes sound: "stop_sound r" and br: "rn_breaker r = breaker_of b rows"
    and f: "file_breaker a r = (trip, r')"
  shows "stop_sound r' \<and> rn_breaker r' = breaker_of b (rows @ [a]) \<and> rn_sink r' = rn_sink r \<and>
    rn_collector r' = rn_collector r \<and> q_used (rn_quota r') = q_used (rn_quota r) \<and>
    limit (rn_quota r') = limit (rn_quota r) \<and> rn_jobs r' = rn_jobs r"
proof (cases "b = None \<or> self_inflicted a")
  case True
  then have "r' = r" "breaker_of b (rows @ [a]) = breaker_of b rows"
    using f br by (auto simp: file_breaker_def breaker_of_def split: option.splits)
  then show ?thesis using assms by simp
next
  case False
  then obtain b0 where b0: "b = Some b0" by auto
  let ?b = "Breaker.record_all b0 (breaker_feed rows)"
  obtain tr b' where o: "record_outcome ?b (\<not> succeeded a) = (tr, b')" by fastforce
  have b': "breaker_of b (rows @ [a]) = Some b'" using o False b0 by (simp add: breaker_of_def)
  have r': "r' = (if tr then stop_run StopBreaker (reason b') (r\<lparr>rn_breaker := Some b'\<rparr>) else r\<lparr>rn_breaker := Some b'\<rparr>)"
    using f br b0 o False by (auto simp: file_breaker_def breaker_of_def split: if_splits)
  have keep: "tripped ?b \<Longrightarrow> tripped b'"
    using o by (auto simp: record_outcome_def Let_def split: if_splits)
  have new: "tripped b' \<Longrightarrow> tr \<or> tripped ?b"
    using o by (auto simp: record_outcome_def Let_def split: if_splits)
  have tr: "tr \<Longrightarrow> tripped b'" using record_outcome_trip [of ?b "\<not> succeeded a"] o by simp
  have s1: "rn_stopped r \<longrightarrow> stop_sound (r\<lparr>rn_breaker := Some b'\<rparr>)" "\<not> tripped b' \<longrightarrow> stop_sound (r\<lparr>rn_breaker := Some b'\<rparr>)"
    using sound br b0 keep by (auto simp: stop_sound_def has_tripped_def breaker_of_def)
  show ?thesis
  proof (cases tr)
    case True
    have "stop_sound (stop_run StopBreaker (reason b') (r\<lparr>rn_breaker := Some b'\<rparr>))"
      using s1 tr True sound by (auto simp: stop_sound_def has_tripped_def stop_run_def close_quota_def stop_reasons)
    then show ?thesis using True r' b' by simp
  next
    case no: False
    have "tripped ?b \<longrightarrow> rn_stopped r" using sound br b0 by (simp add: stop_sound_def has_tripped_def breaker_of_def)
    then show ?thesis using no r' b' s1 new by auto
  qed
qed

lemma books_file:
  assumes b: "books t b L n (add_mset (a_sequence a) P) r rows h" and stg: "stg < n"
    and f: "file_attempt stg a r = (trip, r')"
  shows "books t b L n P r' (rows @ [a]) (h @ [Recorded stg a])" "rn_jobs r' = rn_jobs r"
proof -
  let ?r = "write_sink a (r\<lparr>rn_collector := record_attempt stg a (rn_collector r)\<rparr>)"
  have unit: "a_sequence a \<noteq> 0" using books_unit [OF b, of "a_sequence a"] by simp
  have sound: "stop_sound ?r" using b by (simp add: books_def)
  have br: "rn_breaker ?r = breaker_of b rows" using b by (simp add: books_def)
  note fb = file_breaker_books [OF sound br f [unfolded file_attempt_def]]
  have "coll_rel t (record_attempt stg a (rn_collector r)) (h @ [Recorded stg a])"
    using books_op [OF b, of "Recorded stg a"] stg by simp
  then show "books t b L n P r' (rows @ [a]) (h @ [Recorded stg a])"
    using b unit fb by (simp add: books_def is_sent_def)
  show "rn_jobs r' = rn_jobs r" using fb by simp
qed

subsection \<open>A run keeps its books\<close>

lemma ledgerI:
  "books t b L n (P + mset (map jb_seq (rn_jobs r))) r rows h \<Longrightarrow> length (rn_jobs r) \<le> max_concurrency E \<Longrightarrow>
    \<forall>j \<in> set (rn_jobs r). jb_stage j < n \<Longrightarrow> ledger E t b L P n r"
  by (auto simp: ledger_def)

lemma books_jobs [simp]: "books t b L n P (r\<lparr>rn_jobs := js\<rparr>) rows h = books t b L n P r rows h"
  by (simp add: books_def)

lemma ledger_guard: "ledger E t b L P n r \<Longrightarrow> ledger E t b L P n (record_quota_guard E nm r)"
proof -
  assume l: "ledger E t b L P n r"
  obtain r1 row where g: "core r1 = core r" "record_quota_guard E nm r = write_sink row r1"
    "a_sequence row = 0" "self_inflicted row"
    using record_quota_guard_core by blast
  obtain rows h where "books t b L n (P + mset (map jb_seq (rn_jobs r1))) r1 rows h"
    "length (rn_jobs r1) \<le> max_concurrency E" "\<forall>j \<in> set (rn_jobs r1). jb_stage j < n"
    using ledger_core [OF l g(1)] by (auto simp: ledger_def)
  then show "ledger E t b L P n (record_quota_guard E nm r)"
    using books_guard_row [OF _ g(3,4)] by (intro ledgerI) (auto simp: g(2))
qed

lemma ledger_stop:
  "ledger E t b L P n r \<Longrightarrow> w = StopQuota \<or> w = StopError \<Longrightarrow> ledger E t b L P n (stop_run w d r)"
  unfolding ledger_def stop_run_sel using books_stop by blast

lemma ledger_refuse:
  assumes l: "ledger E t b L P n r" and a: "acquire_unit E nm r = (Inl e, r')"
  shows "ledger E t b L P n r'"
proof -
  have "\<exists>d. r' = record_quota_guard E nm (stop_run StopQuota d r)"
    using a by (cases rule: acquire_unit_cases [of r E nm]) auto
  then show ?thesis using ledger_guard [OF ledger_stop [OF l]] by blast
qed

lemma ledger_issue:
  assumes l: "ledger E t b L {#} n r" and stg: "stg < n" and a: "acquire_unit E nm r = (Inr seq, r1)"
    and now: "now_of E r1 = (ts, r2)"
  shows "ledger E t b L {#seq#} n (r2\<lparr>rn_collector := record_sent stg ts (rn_collector r2)\<rparr>)"
proof -
  obtain q where q: "acquire (rn_quota r) = (Inr seq, q)" "r1 = r\<lparr>rn_quota := q\<rparr>"
    using a by (cases rule: acquire_unit_cases [of r E nm]) auto
  obtain rows h where "books t b L n ({#} + mset (map jb_seq (rn_jobs r))) r rows h"
    and js: "length (rn_jobs r) \<le> max_concurrency E" "\<forall>j \<in> set (rn_jobs r). jb_stage j < n"
    using l by (auto simp: ledger_def)
  from books_issue [OF this(1) stg q(1), of ts]
  have "ledger E t b L {#seq#} n (r1\<lparr>rn_collector := record_sent stg ts (rn_collector r1)\<rparr>)"
    using js by (intro ledgerI) (auto simp: q(2))
  moreover have "core (r2\<lparr>rn_collector := record_sent stg ts (rn_collector r2)\<rparr>) =
      core (r1\<lparr>rn_collector := record_sent stg ts (rn_collector r1)\<rparr>)"
    using core_sel [OF now_of_core [OF now]] now_of_core [OF now] by (simp add: core_def)
  ultimately show ?thesis by (rule ledger_core)
qed

lemma ledger_perform:
  assumes l: "ledger E t b L (add_mset seq P) n r" and stg: "stg < n"
    and p: "perform E seq stg s ts lg r = Some (trip, r')"
  shows "ledger E t b L P n r'"
proof (rule perform_cases [OF p])
  fix a r1 assume c: "core r1 = core r" and a: "a_sequence a = seq" and f: "file_attempt stg a r1 = (trip, r')"
  obtain rows h where "books t b L n (add_mset (a_sequence a) (P + mset (map jb_seq (rn_jobs r1)))) r1 rows h"
    and js: "length (rn_jobs r1) \<le> max_concurrency E" "\<forall>j \<in> set (rn_jobs r1). jb_stage j < n"
    using ledger_core [OF l c] a by (auto simp: ledger_def)
  from books_file [OF this(1) stg f] show ?thesis using js by (intro ledgerI) simp_all
qed

lemma mset_remove_nth:
  assumes "k < length xs"
  shows "mset xs = add_mset (xs ! k) (mset (take k xs @ drop (Suc k) xs))"
proof -
  have "mset xs = mset (take k xs @ xs ! k # drop (Suc k) xs)" using id_take_nth_drop [OF assms] by simp
  then show ?thesis by simp
qed

lemma ledger_finish:
  assumes l: "ledger E t b L {#} n r" and k: "k < length (rn_jobs r)" and f: "finish_job E k r = Some r'"
  shows "ledger E t b L {#} n r'"
proof -
  let ?j = "rn_jobs r ! k" and ?js = "take k (rn_jobs r) @ drop (Suc k) (rn_jobs r)"
  obtain trip r1 where p: "perform E (jb_seq ?j) (jb_stage ?j) (jb_scheduled ?j) (jb_startedAt ?j) (jb_lag ?j) r = Some (trip, r1)"
    and r': "r' = r1\<lparr>rn_jobs := take k (rn_jobs r1) @ drop (Suc k) (rn_jobs r1)\<rparr>"
    using f k by (auto simp: finish_job_def Let_def)
  have jobs: "rn_jobs r1 = rn_jobs r" by (rule perform_jobs [OF p])
  have stg: "jb_stage ?j < n" using l k by (auto simp: ledger_def)
  show ?thesis
  proof (rule perform_cases [OF p])
    fix a r2 assume c: "core r2 = core r" and a: "a_sequence a = jb_seq ?j"
      and fa: "file_attempt (jb_stage ?j) a r2 = (trip, r1)"
    have ms: "{#} + mset (map jb_seq (rn_jobs r2)) = add_mset (a_sequence a) (mset (map jb_seq ?js))"
      using mset_remove_nth [OF k] core_sel(7) [OF c] a by simp
    obtain rows h where "books t b L n ({#} + mset (map jb_seq (rn_jobs r2))) r2 rows h"
      using ledger_core [OF l c] by (auto simp: ledger_def)
    from books_file(1) [OF this [unfolded ms] stg fa]
    show ?thesis using l k unfolding r' jobs
      by (intro ledgerI) (auto simp: ledger_def dest: in_set_takeD in_set_dropD)
  qed
qed

lemma ledger_saturation: "ledger E t b L P n r \<Longrightarrow> stg < n \<Longrightarrow> ledger E t b L P n (saturation stg r)"
  unfolding ledger_def saturation_jobs using books_saturation by blast

lemma ledger_times:
  assumes "ledger E t b L P n r" "stg < n" "\<And>s g. stage_rel (f s) g = stage_rel s g"
  shows "ledger E t b L P n (stage_times stg f r)"
proof -
  have "rn_jobs (stage_times stg f r) = rn_jobs r" by (simp add: stage_times_def)
  then show ?thesis using assms(1) books_times [OF _ assms(2,3)] unfolding ledger_def by fastforce
qed

lemma ledger_register:
  assumes "ledger E t b L P n r" "register_stage nm tps pl (rn_collector r) = (stg, c)"
  shows "\<exists>m. stg < m \<and> ledger E t b L P m (r\<lparr>rn_collector := c\<rparr>)"
proof -
  obtain rows h where "books t b L n (P + mset (map jb_seq (rn_jobs r))) r rows h"
    and js: "length (rn_jobs r) \<le> max_concurrency E" "\<forall>j \<in> set (rn_jobs r). jb_stage j < n"
    using assms(1) by (auto simp: ledger_def)
  from books_register [OF this(1) assms(2)] obtain m h' where "stg < m" "n \<le> m"
    "books t b L m (P + mset (map jb_seq (rn_jobs r))) (r\<lparr>rn_collector := c\<rparr>) rows h'" by blast
  then show ?thesis using js by (intro exI [of _ m]) (force intro: ledgerI)
qed

lemma ledger_enqueue:
  assumes "ledger E t b L {#jb_seq j#} n r" "jb_stage j < n" "length (rn_jobs r) < max_concurrency E"
  shows "ledger E t b L {#} n (r\<lparr>rn_jobs := rn_jobs r @ [j]\<rparr>)"
proof -
  obtain rows h where "books t b L n (add_mset (jb_seq j) (mset (map jb_seq (rn_jobs r)))) r rows h"
    using assms(1) by (auto simp: ledger_def)
  then show ?thesis using assms by (intro ledgerI) (auto simp: ledger_def)
qed

lemma ledger_bounded: "ledger E t b L P n r \<Longrightarrow> length (rn_jobs r) \<le> max_concurrency E"
  by (simp add: ledger_def)

interpretation audited: run_preserves E "\<lambda>n r. ledger E t b L {#} n r" "\<lambda>seq n r. ledger E t b L {#seq#} n r"
  for E t b L
  by unfold_locales
    (erule (2) ledger_enqueue | erule (2) ledger_perform | erule (2) ledger_finish | erule (3) ledger_issue
     | erule (1) ledger_core ledger_refuse ledger_saturation ledger_register ledger_stop
     | erule ledger_bounded ledger_guard
     | erule (1) ledger_times, simp add: stage_rel_times)+

subsection \<open>The end of a run\<close>

lemma finish_jobs_all: "finish_jobs E (replicate (length (rn_jobs r)) 0) r = Some r' \<Longrightarrow> rn_jobs r' = []"
proof (induction "length (rn_jobs r)" arbitrary: r)
  case (Suc k)
  obtain r1 where r1: "finish_job E 0 r = Some r1" "finish_jobs E (replicate k 0) r1 = Some r'"
    using Suc.prems by (auto simp flip: Suc.hyps(2) split: option.splits)
  have "length (rn_jobs r1) = k" using finish_job_length [OF r1(1)] Suc.hyps(2) by (cases "rn_jobs r") auto
  then show ?case using Suc.hyps(1) [of r1] r1(2) by simp
qed simp

lemma drain_empties: "drain E r = Some (d, r') \<Longrightarrow> d \<Longrightarrow> rn_jobs r' = []"
  by (auto simp: drain_def split: option.splits if_splits dest: finish_jobs_all)

lemma run_one_out: "run_one E s out r = Some (go, out', r') \<Longrightarrow> fst out' = fst out \<or> fst out' = StopError"
  by (auto simp: run_one_def Let_def split: option.splits prod.splits if_splits)

lemma run_stages_out: "run_stages E ss out r = Some (out', r') \<Longrightarrow> fst out' = fst out \<or> fst out' = StopError"
proof (induction ss arbitrary: out r)
  case (Cons s ss)
  obtain go o1 r1 where one: "run_one E s out r = Some (go, o1, r1)"
    using Cons.prems by (auto split: option.splits)
  then have "out' = o1 \<or> (\<exists>q. run_stages E ss o1 q = Some (out', r'))"
    using Cons.prems by (auto simp: Let_def split: if_splits option.splits prod.splits)
  then show ?case using Cons.IH run_one_out [OF one] by metis
qed auto

text \<open>What a run starts from.\<close>

definition fresh_runner :: "'c runner \<Rightarrow> bool" where
  "fresh_runner r \<longleftrightarrow>
     rn_sink r = Some [] \<and> rn_jobs r = [] \<and> \<not> rn_stopped r \<and> q_used (rn_quota r) = 0 \<and>
     rn_collector r = new_collector (c_startedAt (rn_collector r)) \<and> \<not> has_tripped (rn_breaker r)"

lemma fresh_ledger:
  assumes "fresh_runner r"
  shows "ledger E (c_startedAt (rn_collector r)) (rn_breaker r) (limit (rn_quota r)) {#} 0 r"
proof (rule ledgerI)
  let ?t = "c_startedAt (rn_collector r)"
  have c: "rn_collector r = new_collector ?t" using assms by (simp add: fresh_runner_def)
  have "coll_rel ?t (rn_collector r) []" using collected_rel [OF collected.start] c by metis
  moreover have "c_stages (rn_collector r) = []" "c_byName (rn_collector r) = Map.empty"
    by (subst c, simp add: new_collector_def)+
  moreover have "breaker_of (rn_breaker r) [] = rn_breaker r"
    by (cases "rn_breaker r") (simp_all add: breaker_of_def breaker_feed_def)
  ultimately show "books ?t (rn_breaker r) (limit (rn_quota r)) 0 ({#} + mset (map jb_seq (rn_jobs r))) r [] []"
    using assms by (simp add: books_def fresh_runner_def numbered_def stop_sound_def)
qed (use assms in \<open>simp_all add: fresh_runner_def\<close>)

lemma run_end:
  assumes fresh: "fresh_runner r0" and run: "run E r0 = Some (out, r)"
  obtains n rows h where
    "books (c_startedAt (rn_collector r0)) (rn_breaker r0) (limit (rn_quota r0)) n (mset (map jb_seq (rn_jobs r))) r rows h"
    "length (rn_jobs r) \<le> max_concurrency E"
    "oc_quotaUsed out = q_used (rn_quota r)" "oc_partial out \<or> rn_jobs r = []"
    "oc_partial out \<or> oc_reason out = StopCompleted"
    "rn_stopped r \<Longrightarrow> oc_reason out = rn_reason r"
    "\<not> rn_stopped r \<Longrightarrow> oc_reason out \<in> {StopCompleted, StopError, StopSignal}"
proof -
  let ?t = "c_startedAt (rn_collector r0)" and ?b = "rn_breaker r0" and ?L = "limit (rn_quota r0)"
  let ?led = "\<lambda>n r. ledger E ?t ?b ?L {#} n r"
  note led0 = fresh_ledger [OF fresh, of E]
  from run show thesis
  proof (cases rule: run_cases)
    case unprimed
    obtain rows h where "books ?t ?b ?L 0 ({#} + mset (map jb_seq (rn_jobs r))) r rows h"
      using ledger_core [OF led0 unprimed(1)] by (auto simp: ledger_def)
    moreover have "q_used (rn_quota r) = 0" "\<not> rn_stopped r" "rn_jobs r = []"
      using core_sel [OF unprimed(1)] fresh by (simp_all add: fresh_runner_def)
    ultimately show ?thesis using that [of 0 rows h] unprimed by simp
  next
    case (ran r1 why detail r2 d r3 t)
    obtain m where "?led m r2" using audited.run_stages_ok [OF ledger_core [OF led0 ran(1)] ran(2)] by blast
    then have led: "?led m r" using audited.drain_ok [OF _ ran(3)] audited.now_ok [OF _ ran(4)] by blast
    then obtain rows h where b: "books ?t ?b ?L m (mset (map jb_seq (rn_jobs r))) r rows h"
      and len: "length (rn_jobs r) \<le> max_concurrency E" by (auto simp: ledger_def)
    have sound: "rn_stopped r \<Longrightarrow> rn_reason r \<in> {StopQuota, StopBreaker, StopError}"
      using b by (simp add: books_def stop_sound_def)
    have why: "why = StopCompleted \<or> why = StopError" using run_stages_out [OF ran(2)] by simp
    have empty: "d \<longrightarrow> rn_jobs r = []"
      using drain_empties [OF ran(3)] core_sel(7) [OF now_of_core [OF ran(4)]] by simp
    show ?thesis
    proof (rule that [OF b len ran(5)])
      show "rn_stopped r \<Longrightarrow> oc_reason out = rn_reason r"
        using sound by (auto simp: ran(6) stop_reasons)
      show "\<not> rn_stopped r \<Longrightarrow> oc_reason out \<in> {StopCompleted, StopError, StopSignal}"
        using why by (auto simp: ran(6))
    qed (use ran(7) empty in auto)
  qed
qed

end
