(* ===== verification/Run_Progress.thy ===== *)
theory Run_Progress
  imports Run_Audit
begin

text \<open>
  That a run comes to its end, and that one which reports completion has issued what was planned.
\<close>

subsection \<open>Every run returns\<close>

text \<open>The pool has a slot, the random number generator delivers a nonce or an error, and a server
  answers with a status of at most three digits.\<close>

definition responsive :: "'c runner_env \<Rightarrow> bool" where
  "responsive E \<longleftrightarrow> 0 < max_concurrency E \<and> (\<forall>seq. \<exists>d \<in> set (re_draws E seq). d \<noteq> Inr 0) \<and>
     (\<forall>log resp. ex_result (te_server (re_transport E) log) = Inr resp \<longrightarrow> 0 \<le> hp_status resp \<and> hp_status resp < 1000)"

lemma new_nonce_total: "\<exists>d \<in> set ds. d \<noteq> Inr 0 \<Longrightarrow> new_nonce ds \<noteq> None"
  by (induction ds rule: new_nonce.induct) auto

lemma build_request_total: "\<exists>d \<in> set ds. d \<noteq> Inr 0 \<Longrightarrow> build_request hash create b payload ds \<noteq> None"
  using new_nonce_total [of ds] by (auto simp: build_request_def Let_def split: sum.splits)

lemma from_http_status_total:
  assumes "0 \<le> code" "code < 1000"
  shows "from_http_status code \<noteq> None"
proof (cases "code = 0")
  case False
  then have "nat code < 10 ^ 8" "0 < code" using assms by auto
  from itoa_loop_digits [OF this, of "[]"] show ?thesis using False
    by (simp add: from_http_status_def itoa_def)
qed (simp add: from_http_status_def itoa_def)

lemma verify_total: "0 \<le> hr_statusCode resp \<Longrightarrow> hr_statusCode resp < 1000 \<Longrightarrow> verify lib v req resp \<noteq> None"
  using from_http_status_total [of "hr_statusCode resp"] by (auto simp: verify_def split: option.splits)

lemma client_do_server: "client_do T traced req n = (Inr resp, n') \<Longrightarrow> \<exists>log. ex_result (te_server T log) = Inr resp"
  by (auto simp: client_do_def Let_def)

lemma post_timestamp_server:
  "post_timestamp T ep der a n = (Inr resp, a', n') \<Longrightarrow> \<exists>log. ex_result (te_server T log) = Inr resp"
  by (auto simp: post_timestamp_def dest: client_do_server
      split: prod.splits sum.splits bool.splits option.splits)

lemma send_status:
  assumes "responsive E" "send E seq der r = ((status, ct, body, he), r')"
  shows "0 \<le> status \<and> status < 1000"
proof -
  obtain res a n where p: "post_timestamp (re_transport E) (pv_endpoint (cf_provider (re_cfg E))) der
      (rn_auth (in_flight 1 r)) ((rn_net (in_flight 1 r))\<lparr>net_wrote := False\<rparr>) = (res, a, n)"
    by (metis prod_cases3)
  show ?thesis
  proof (cases res)
    case (Inl e)
    then show ?thesis using assms(2) p by (auto simp: send_def Let_def)
  next
    case (Inr resp)
    then have "0 \<le> hp_status resp \<and> hp_status resp < 1000"
      using post_timestamp_server p assms(1) unfolding responsive_def by blast
    moreover have "status = hp_status resp" using assms(2) p Inr by (auto simp: send_def Let_def split: option.splits)
    ultimately show ?thesis by simp
  qed
qed

lemma run_attempt_total:
  assumes resp: "responsive E"
  shows "run_attempt E seq nm s t l r \<noteq> None"
proof -
  have "build_request (re_hash E) (re_create E) (re_builder E) (re_payload E seq) (re_draws E seq) \<noteq> None"
    using resp by (intro build_request_total) (simp add: responsive_def)
  then obtain x where x: "build_request (re_hash E) (re_create E) (re_builder E) (re_payload E seq) (re_draws E seq) = Some x"
    by auto
  show ?thesis
  proof (cases x)
    case (Inl e)
    then show ?thesis using x by (simp add: run_attempt_def Let_def split: prod.split)
  next
    case (Inr req)
    obtain status ct body he r1 where s: "send E seq (rq_der req) r = ((status, ct, body, he), r1)"
      by (metis prod_cases4 surj_pair)
    show ?thesis using x Inr s send_status [OF resp s]
      by (auto simp: run_attempt_def Let_def verify_total split: option.split prod.split)
  qed
qed

lemma perform_total: "responsive E \<Longrightarrow> perform E seq stg s t l r \<noteq> None"
  by (simp add: perform_def run_attempt_total)

lemma finish_job_total: "responsive E \<Longrightarrow> finish_job E k r \<noteq> None"
  by (simp add: finish_job_def Let_def perform_total del: not_None_eq)

lemma finish_jobs_total: "responsive E \<Longrightarrow> finish_jobs E ks r \<noteq> None"
  by (induction ks arbitrary: r) (auto simp: finish_job_total split: option.split)

lemma settle_total: "responsive E \<Longrightarrow> settle E r \<noteq> None"
  by (simp add: settle_def finish_jobs_total)

lemma take_slot_total: "responsive E \<Longrightarrow> take_slot E stg r \<noteq> None"
  by (auto simp: take_slot_def settle_total finish_job_total simp del: not_None_eq split: option.split)
    (simp add: responsive_def)

lemma dispatch_total: "responsive E \<Longrightarrow> dispatch E stg tk r \<noteq> None"
  by (auto simp: dispatch_def settle_total take_slot_total split: option.split prod.split sum.split)

lemma run_sequential_total: "responsive E \<Longrightarrow> run_sequential E stg k r \<noteq> None"
  by (induction k arbitrary: r) (auto simp: perform_total split: option.split prod.split sum.split bool.split)

lemma run_stage_total:
  assumes "responsive E"
  shows "run_stage E s pl stg r \<noteq> None"
proof (cases "pl \<le> 0 \<or> stg_mode s = ModeSequential")
  case True
  then show ?thesis by (auto simp: run_stage_def run_sequential_total [OF assms] simp del: not_None_eq)
next
  case False
  let ?s = "\<lparr>Rate = stg_tps s, HasClock = True, LagThreshold = lc_lagThreshold (cf_load (re_cfg E))\<rparr>"
  obtain start r1 where r1: "now_of E r = (start, r1)" by fastforce
  obtain tks e w where run: "sched_run (run_now E) (run_sleep_until E) (run_ctx E) (run_emit E stg)
      (re_oob E) ?s start pl (Some r1) = (tks, e, w)" by (metis prod_cases3)
  have "w \<noteq> None"
  proof (rule sched_run_inv [where J = "\<lambda>w. w \<noteq> None", OF _ _ _ _ run])
    show "w' \<noteq> None" if "w \<noteq> None" "run_now E w = (t, w')" for w t w'
      using that by (auto simp: run_now_def split: prod.splits)
    show "w' \<noteq> None" if "w \<noteq> None" "run_sleep_until E w d = (e, w')" for w d e w'
      using that by (auto simp: run_sleep_until_def split: prod.splits)
    show "w' \<noteq> None" if "w \<noteq> None" "run_emit E stg tk w = (e, w')" for w tk e w'
      using that by (auto simp: run_emit_def dispatch_total [OF assms] split: prod.splits option.splits)
  qed simp
  then show ?thesis using False r1 run by (auto simp: run_stage_def Let_def)
qed

lemma run_one_total: "responsive E \<Longrightarrow> run_one E s out r \<noteq> None"
  by (auto simp: run_one_def Let_def run_stage_total split: option.split prod.split)

lemma run_stages_total: "responsive E \<Longrightarrow> run_stages E ss out r \<noteq> None"
  by (induction ss arbitrary: out r) (auto simp: Let_def run_one_total split: option.split prod.split)

lemma drain_total: "responsive E \<Longrightarrow> drain E r \<noteq> None"
  by (auto simp: drain_def settle_total finish_jobs_total simp del: not_None_eq split: option.split)

lemma run_total: "responsive E \<Longrightarrow> run E r \<noteq> None"
  by (auto simp: run_def Let_def run_stages_total drain_total split: option.split prod.split)

subsection \<open>What completion means\<close>

text \<open>What the context and the clock promise: a context that is done stays done, a sleep is only cut
  short by it, and no error of theirs is the runner's own \<^verbatim>\<open>errStopped\<close>.\<close>

definition cancellation_ok :: "'c runner_env \<Rightarrow> bool" where
  "cancellation_ok E \<longleftrightarrow>
     (\<forall>c t c'. re_now E c = (t, c') \<longrightarrow> re_ctx E c \<noteq> None \<longrightarrow> re_ctx E c' \<noteq> None) \<and>
     (\<forall>c d e c'. re_sleep E c d = (Some e, c') \<longrightarrow> re_ctx E c' \<noteq> None) \<and>
     (\<forall>c e. re_ctx E c = Some e \<longrightarrow> \<not> is_kind KStopped e) \<and>
     (\<forall>c d e c'. re_sleep_until E c d = (Some e, c') \<longrightarrow> \<not> is_kind KStopped e)"

lemma cancellation_okD:
  assumes "cancellation_ok E"
  shows "ctx_of E r = Some e \<Longrightarrow> \<not> is_kind KStopped e"
    "re_sleep_until E c d = (Some e, c') \<Longrightarrow> \<not> is_kind KStopped e"
    "re_sleep E c d = (Some e, c') \<Longrightarrow> re_ctx E c' \<noteq> None"
    "now_of E r = (t, r') \<Longrightarrow> ctx_of E r \<noteq> None \<Longrightarrow> ctx_of E r' \<noteq> None"
proof -
  show "re_sleep_until E c d = (Some e, c') \<Longrightarrow> \<not> is_kind KStopped e"
    using assms unfolding cancellation_ok_def by blast
  show "re_sleep E c d = (Some e, c') \<Longrightarrow> re_ctx E c' \<noteq> None"
    using assms unfolding cancellation_ok_def by blast
  show "ctx_of E r = Some e \<Longrightarrow> \<not> is_kind KStopped e"
    using assms by (simp add: cancellation_ok_def ctx_of_def)
  show "now_of E r = (t, r') \<Longrightarrow> ctx_of E r \<noteq> None \<Longrightarrow> ctx_of E r' \<noteq> None"
  proof -
    assume n: "now_of E r = (t, r')" and c: "ctx_of E r \<noteq> None"
    obtain t' c' where p: "re_now E (rn_clock r) = (t', c')" by fastforce
    then have "re_ctx E c' \<noteq> None" using assms c unfolding cancellation_ok_def ctx_of_def by blast
    then show "ctx_of E r' \<noteq> None" using n p by (auto simp: now_of_def ctx_of_def)
  qed
qed

definition used :: "'c runner \<Rightarrow> int" where
  "used r = q_used (rn_quota r)"

definition ended :: "'c runner_env \<Rightarrow> 'c runner \<Rightarrow> bool" where
  "ended E r \<longleftrightarrow> rn_stopped r \<or> ctx_of E r \<noteq> None"

lemma used_simps [simp]:
  "used (saturation stg r) = used r" "used (stop_run w d r) = used r" "used (write_sink a r) = used r"
  "used (stage_times stg f r) = used r" "used (r\<lparr>rn_collector := c\<rparr>) = used r"
  "used (r\<lparr>rn_clock := k\<rparr>) = used r" "used (r\<lparr>rn_jobs := js\<rparr>) = used r"
  "used (r\<lparr>rn_choices := cs\<rparr>) = used r" "used (in_flight n r) = used r"
  by (simp_all add: used_def saturation_def stop_run_def close_quota_def write_sink_def stage_times_def in_flight_def)

lemma core_used: "core r' = core r \<Longrightarrow> used r' = used r"
  by (simp add: core_def used_def)

lemma file_attempt_frame:
  "file_attempt stg a r = (trip, r') \<Longrightarrow> used r' = used r \<and> rn_clock r' = rn_clock r \<and>
     (rn_stopped r \<or> trip \<longrightarrow> rn_stopped r')"
  by (auto simp: file_attempt_def file_breaker_def used_def stop_run_def close_quota_def write_sink_def
      split: option.splits if_splits prod.splits)

lemma perform_used: "perform E seq stg s t l r = Some (trip, r') \<Longrightarrow> used r' = used r \<and> (trip \<longrightarrow> rn_stopped r')"
  by (erule perform_cases) (auto dest!: file_attempt_frame core_used)

lemma finish_job_used: "finish_job E k r = Some r' \<Longrightarrow> used r' = used r"
  by (auto simp: finish_job_def Let_def dest: perform_used split: if_splits)

lemma finish_jobs_used: "finish_jobs E ks r = Some r' \<Longrightarrow> used r' = used r"
  by (induction ks arbitrary: r) (auto dest: finish_job_used split: option.splits)

lemma settle_used: "settle E r = Some r' \<Longrightarrow> used r' = used r"
  by (auto simp: settle_def dest: finish_jobs_used)

lemma take_slot_used: "take_slot E stg r = Some (e, r') \<Longrightarrow> used r' = used r"
  by (auto simp: take_slot_def dest!: settle_used finish_job_used split: option.splits if_splits)

lemma take_slot_error:
  "cancellation_ok E \<Longrightarrow> take_slot E stg r = Some (Some e, r') \<Longrightarrow> \<not> is_kind KStopped e"
  by (auto simp: take_slot_def cancellation_ok_def ctx_of_def split: option.splits if_splits)

lemma now_of_used: "now_of E r = (t, r') \<Longrightarrow> used r' = used r \<and> rn_stopped r' = rn_stopped r"
  by (auto simp: now_of_def used_def split: prod.splits)

lemma acquire_unit_used:
  "acquire_unit E nm r = (x, r') \<Longrightarrow> (case x of Inl e \<Rightarrow> used r' = used r \<and> rn_stopped r' | Inr seq \<Rightarrow> used r' = used r + 1)"
proof (cases rule: acquire_unit_cases [of r E nm])
  case (taken seq q)
  moreover assume "acquire_unit E nm r = (x, r')"
  ultimately show ?thesis by (auto simp: acquire_ok_iff used_def)
next
  case (refused e)
  moreover assume "acquire_unit E nm r = (x, r')"
  ultimately show ?thesis
    by (auto simp: record_quota_guard_def dest: now_of_used split: prod.splits)
qed

text \<open>A dispatch issues one request or fails, with the runner's own error only when it is stopped.\<close>

lemma dispatch_used:
  assumes ok: "cancellation_ok E" and d: "dispatch E stg tk r0 = Some (e, r')"
  shows "e = None \<Longrightarrow> used r' = used r0 + 1" "e = Some x \<Longrightarrow> is_kind KStopped x \<Longrightarrow> rn_stopped r'"
proof -
  have "(e = None \<longrightarrow> used r' = used r0 + 1) \<and> (\<forall>x. e = Some x \<longrightarrow> is_kind KStopped x \<longrightarrow> rn_stopped r')"
    using ok d
    by (auto simp: dispatch_def cancellation_ok_def ctx_of_def
        dest!: settle_used take_slot_used take_slot_error [OF ok] acquire_unit_used now_of_used
        split: option.splits prod.splits sum.splits if_splits)
  then show "e = None \<Longrightarrow> used r' = used r0 + 1" "e = Some x \<Longrightarrow> is_kind KStopped x \<Longrightarrow> rn_stopped r'" by auto
qed

lemma run_sequential_used:
  assumes ok: "cancellation_ok E"
  shows "run_sequential E stg k r = Some (e, r') \<Longrightarrow>
     (e = None \<longrightarrow> used r' = used r + int k) \<and> (\<forall>x. e = Some x \<longrightarrow> is_kind KStopped x \<longrightarrow> rn_stopped r')"
proof (induction k arbitrary: r)
  case (Suc k)
  show ?case
  proof (cases "ctx_of E r \<noteq> None \<or> rn_stopped r")
    case True
    then have "r' = r" "e = ctx_of E r \<and> e \<noteq> None \<or> e = Some err_stopped \<and> rn_stopped r"
      using Suc.prems by (cases "ctx_of E r"; simp)+
    then show ?thesis using cancellation_okD(1) [OF ok, of r] by auto
  next
    case False
    obtain x r1 where a: "acquire_unit E (stage_name_of stg r) r = (x, r1)" by fastforce
    note au = acquire_unit_used [OF a]
    show ?thesis
    proof (cases x)
      case (Inl y)
      then show ?thesis using Suc.prems False a au by auto
    next
      case (Inr seq)
      obtain t r2 where n: "now_of E r1 = (t, r2)" by fastforce
      let ?r3 = "r2\<lparr>rn_collector := record_sent stg t (rn_collector r2)\<rparr>"
      obtain trip r4 where p: "perform E seq stg t t 0 ?r3 = Some (trip, r4)"
        using Suc.prems False a Inr n by (auto split: option.splits)
      have u4: "used r4 = used r + 1" "trip \<longrightarrow> rn_stopped r4"
        using perform_used [OF p] now_of_used [OF n] au Inr by auto
      show ?thesis
      proof (cases trip)
        case True
        then show ?thesis using Suc.prems False a Inr n p u4 by auto
      next
        case no: False
        then have "run_sequential E stg k r4 = Some (e, r')" using Suc.prems False a Inr n p by simp
        then show ?thesis using Suc.IH u4(1) by fastforce
      qed
    qed
  qed
qed simp

lemma sched_loop_count:
  assumes now: "\<And>w t w'. now w = (t, w') \<Longrightarrow> f w' = f w"
    and slp: "\<And>w d e w'. slp w d = (e, w') \<Longrightarrow> f w' = f w"
    and emit: "\<And>w tk w'. emit tk w = (None, w') \<Longrightarrow> f w' = f w + 1"
  shows "sched_loop now slp ctx emit oob s start cnt i l w = (tks, None, w') \<Longrightarrow> f w' = f w + max 0 (cnt - i :: int)"
proof (induction "nat (cnt - i)" arbitrary: i l w tks rule: less_induct)
  case less
  from less.prems show ?case
  proof (cases rule: sched_loop_cases)
    case (released t w1 d w2 ac w3 tk w4 tks')
    have "f w2 = f w" using released(2,3) now slp by metis
    then have "f w4 = f w + 1" using released(4,5) now emit by metis
    then show ?thesis using less.hyps [OF _ released(6)] released(1) by simp
  qed auto
qed

lemma sched_loop_error:
  assumes ctx: "\<And>w x. ctx w = Some x \<Longrightarrow> Q x w"
    and slp: "\<And>w d x w'. slp w d = (Some x, w') \<Longrightarrow> Q x w'"
    and emit: "\<And>w tk x w'. emit tk w = (Some x, w') \<Longrightarrow> Q x w'"
  shows "sched_loop now slp ctx emit oob s start cnt i l w = (tks, Some x, w') \<Longrightarrow> Q x w'"
proof (induction "nat (cnt - i)" arbitrary: i l w tks rule: less_induct)
  case less
  from less.prems show ?case
  proof (cases rule: sched_loop_cases)
    case (released t w1 d w2 ac w3 tk w4 tks')
    then show ?thesis using less.hyps [OF _ released(6)] by simp
  qed (use ctx slp emit in auto)
qed

lemma run_stage_used:
  assumes ok: "cancellation_ok E" and st: "run_stage E s pl stg r = Some (e, r')"
  shows "(e = None \<longrightarrow> used r' = used r + max 0 pl) \<and> (\<forall>x. e = Some x \<longrightarrow> is_kind KStopped x \<longrightarrow> rn_stopped r')"
proof (cases "pl \<le> 0 \<or> stg_mode s = ModeSequential")
  case True
  then show ?thesis using st run_sequential_used [OF ok, of stg "nat pl" r e r']
    by (auto simp: run_stage_def split: if_splits)
next
  case False
  let ?s = "\<lparr>Rate = stg_tps s, HasClock = True, LagThreshold = lc_lagThreshold (cf_load (re_cfg E))\<rparr>"
  define f where "f w = (case w of None \<Rightarrow> 0 | Some r \<Rightarrow> used r)" for w :: "'a runner option"
  define Q where "Q x w = (is_kind KStopped x \<longrightarrow> (case w of None \<Rightarrow> True | Some r \<Rightarrow> rn_stopped r))" for x and w :: "'a runner option"
  obtain start r1 tks where r1: "now_of E r = (start, r1)"
    and run: "sched_run (run_now E) (run_sleep_until E) (run_ctx E) (run_emit E stg)
      (re_oob E) ?s start pl (Some r1) = (tks, e, Some r')"
    using st False by (auto simp: run_stage_def Let_def split: prod.splits option.splits)
  show ?thesis
  proof (cases "stg_tps s \<le> Fin 0")
    case True
    then show ?thesis using run by (auto simp: sched_run_def plain_error_def)
  next
    case pos: False
    then have loop: "sched_loop (run_now E) (run_sleep_until E) (run_ctx E) (run_emit E stg)
      (re_oob E) ?s start pl 0 0 (Some r1) = (tks, e, Some r')" using run by (simp add: sched_run_def)
    have "e = None \<Longrightarrow> f (Some r') = f (Some r1) + max 0 (pl - 0)"
    proof (rule sched_loop_count [where f = f])
      show "f w' = f w" if "run_now E w = (t, w')" for w t w'
        using that by (auto simp: f_def run_now_def dest: now_of_used split: option.splits prod.splits)
      show "f w' = f w" if "run_sleep_until E w d = (e, w')" for w d e w'
        using that by (auto simp: f_def run_sleep_until_def split: option.splits prod.splits)
      show "f w' = f w + 1" if "run_emit E stg tk w = (None, w')" for w tk w'
        using that dispatch_used(1) [OF ok] by (auto simp: f_def run_emit_def split: option.splits)
    qed (use loop in simp)
    moreover have "Q x (Some r')" if "e = Some x" for x
    proof (rule sched_loop_error [where Q = Q])
      show "Q x w" if "run_ctx E w = Some x" for w x
        using that cancellation_okD(1) [OF ok] by (auto simp: Q_def run_ctx_def split: option.splits)
      show "Q x w'" if "run_sleep_until E w d = (Some x, w')" for w d x w'
        using that cancellation_okD(2) [OF ok] by (fastforce simp: Q_def run_sleep_until_def split: option.splits prod.splits)
      show "Q x w'" if "run_emit E stg tk w = (Some x, w')" for w tk x w'
        using that dispatch_used(2) [OF ok] by (auto simp: Q_def run_emit_def split: option.splits)
    qed (use loop that in simp)
    ultimately show ?thesis using now_of_used [OF r1] by (auto simp: f_def Q_def)
  qed
qed

text \<open>A stage of a run that goes on was issued in full.\<close>

lemma close_truncated_used:
  "used (close_truncated E s pl tr r) = used r" "rn_stopped r \<or> tr \<Longrightarrow> rn_stopped (close_truncated E s pl tr r)"
  by (auto simp: close_truncated_def record_quota_guard_def dest: now_of_used split: prod.split)

lemma stage_times_stopped [simp]: "rn_stopped (stage_times stg f r) = rn_stopped r"
  by (simp add: stage_times_def)

lemma run_one_used:
  assumes ok: "cancellation_ok E" and one: "run_one E s out r = Some (go, out', r')"
  shows "ended E r' \<or> used r' = used r + max 0 (planned (re_oob E) s)" "go \<longleftrightarrow> \<not> ended E r'"
proof -
  have "(ended E r' \<or> used r' = used r + max 0 (planned (re_oob E) s)) \<and> (go \<longleftrightarrow> \<not> ended E r')"
  proof (cases "rn_stopped r \<or> ctx_of E r \<noteq> None \<or> remaining (rn_quota r) \<le> 0")
    case True
    then show ?thesis using one by (auto simp: run_one_def Let_def ended_def split: if_splits)
  next
    case False
    define tr where "tr \<longleftrightarrow> planned (re_oob E) s > remaining (rn_quota r)"
    define pl where "pl = (if tr then remaining (rn_quota r) else planned (re_oob E) s)"
    note tr_pl = tr_def [symmetric] pl_def [symmetric]
    obtain stg c where reg: "register_stage (stg_name s) (stg_tps s) pl (rn_collector r) = (stg, c)" by fastforce
    obtain t0 r1 where n0: "now_of E (r\<lparr>rn_collector := c\<rparr>) = (t0, r1)" by fastforce
    let ?r1 = "stage_times stg (\<lambda>x. x\<lparr>ss_startedAt := t0\<rparr>) r1"
    obtain err r2 where st: "run_stage E s pl stg ?r1 = Some (err, r2)"
      using one False reg n0 by (auto simp: run_one_def Let_def tr_pl split: option.splits)
    obtain t1 r3 where n1: "now_of E r2 = (t1, r3)" by fastforce
    define r5 where "r5 = close_truncated E s pl tr (stage_times stg (\<lambda>x. x\<lparr>ss_endedAt := t1\<rparr>) r3)"
    note su = run_stage_used [OF ok st]
    have u: "err = None \<longrightarrow> used r5 = used r + max 0 pl"
      using su now_of_used [OF n0] now_of_used [OF n1] by (auto simp: r5_def close_truncated_used)
    have stop: "tr \<or> (\<exists>x. err = Some x \<and> is_kind KStopped x) \<longrightarrow> rn_stopped r5"
      using su now_of_used [OF n1] by (auto simp: r5_def intro!: close_truncated_used)
    have "r' = r5 \<and> (go \<longleftrightarrow> \<not> ended E r5) \<and> (\<forall>x. err = Some x \<longrightarrow> is_kind KStopped x \<or> ctx_of E r5 \<noteq> None)
        \<or> \<not> go \<and> (\<exists>d. r' = stop_run StopError d r5)"
      using one False unfolding run_one_def
      by (auto simp: Let_def tr_pl reg n0 st n1 r5_def [symmetric] ended_def split: option.splits if_splits)
    then show ?thesis
    proof (elim disjE exE conjE)
      assume r': "r' = r5" and go: "go \<longleftrightarrow> \<not> ended E r5"
        and e: "\<forall>x. err = Some x \<longrightarrow> is_kind KStopped x \<or> ctx_of E r5 \<noteq> None"
      show ?thesis
      proof (cases "ended E r5")
        case no: False
        then have "err = None" "\<not> tr" using e stop by (cases err, auto simp: ended_def)
        then show ?thesis using u r' go no by (simp add: pl_def)
      qed (use r' go in simp)
    qed (simp add: ended_def)
  qed
  then show "ended E r' \<or> used r' = used r + max 0 (planned (re_oob E) s)" "go \<longleftrightarrow> \<not> ended E r'" by auto
qed

lemma run_stages_used:
  assumes ok: "cancellation_ok E"
  shows "run_stages E ss out r = Some (out', r') \<Longrightarrow>
    ended E r' \<or> used r' = used r + (\<Sum>s\<leftarrow>ss. max 0 (planned (re_oob E) s))"
proof (induction ss arbitrary: out r)
  case (Cons s ss)
  obtain go o1 r1 where one: "run_one E s out r = Some (go, o1, r1)"
    using Cons.prems by (auto split: option.splits)
  note u = run_one_used [OF ok one]
  show ?case
  proof (cases "\<not> go \<or> ss = []")
    case True
    then have "r' = r1" using Cons.prems one by auto
    then show ?thesis using u True by auto
  next
    case False
    let ?p = "case stg_pauseAfter s of None \<Rightarrow> lc_stagePause (cf_load (re_cfg E)) | Some p \<Rightarrow> p"
    obtain e c where sl: "re_sleep E (rn_clock r1) ?p = (e, c)" by fastforce
    have "e \<noteq> None \<and> r' = r1\<lparr>rn_clock := c\<rparr> \<or> (\<exists>q. used q = used r1 \<and> run_stages E ss o1 q = Some (out', r'))"
    proof (cases "?p > 0")
      case True
      then show ?thesis using Cons.prems False one sl
        by (cases e) (auto simp: Let_def intro!: exI [of _ "r1\<lparr>rn_clock := c\<rparr>"])
    qed (use Cons.prems False one in \<open>auto simp: Let_def\<close>)
    then show ?thesis
    proof (elim disjE exE conjE)
      assume "e \<noteq> None" "r' = r1\<lparr>rn_clock := c\<rparr>"
      then show ?thesis using cancellation_okD(3) [OF ok] sl by (auto simp: ended_def ctx_of_def)
    next
      fix q assume q: "used q = used r1" "run_stages E ss o1 q = Some (out', r')"
      show ?thesis using Cons.IH [OF q(2)] q(1) u False by auto
    qed
  qed
qed simp

text \<open>What has ended stays ended until the outcome is written.\<close>

lemma send_clock: "send E seq der r = (x, r') \<Longrightarrow> rn_clock r' = rn_clock r"
  by (auto simp: send_def Let_def in_flight_def split: prod.splits sum.splits option.splits)

lemma ctx_of_clock: "rn_clock r' = rn_clock r \<Longrightarrow> ctx_of E r' = ctx_of E r"
  by (simp add: ctx_of_def)

lemma run_attempt_ctx:
  assumes ok: "cancellation_ok E" and c: "ctx_of E r \<noteq> None"
    and a: "run_attempt E seq nm s t l r = Some (x, r')"
  shows "ctx_of E r' \<noteq> None"
proof -
  have "\<exists>q t q'. rn_clock q = rn_clock r \<and> now_of E q = (t, q') \<and> rn_clock r' = rn_clock q'"
    using a by (auto simp: run_attempt_def Let_def dest!: send_clock split: option.splits sum.splits prod.splits)
  then show ?thesis using cancellation_okD(4) [OF ok] c ctx_of_clock by metis
qed

lemma finish_job_ended:
  assumes ok: "cancellation_ok E" and e: "ended E r" and f: "finish_job E k r = Some r'"
  shows "ended E r'"
proof (cases "k < length (rn_jobs r)")
  case True
  let ?j = "rn_jobs r ! k"
  obtain a r1 trip r2 where a: "run_attempt E (jb_seq ?j) (stage_name_of (jb_stage ?j) r) (jb_scheduled ?j)
      (jb_startedAt ?j) (jb_lag ?j) r = Some (a, r1)"
    and fa: "file_attempt (jb_stage ?j) a r1 = (trip, r2)"
    and r': "r' = r2\<lparr>rn_jobs := take k (rn_jobs r2) @ drop (Suc k) (rn_jobs r2)\<rparr>"
    using f True by (auto simp: finish_job_def perform_def Let_def)
  have "rn_stopped r1 = rn_stopped r" using run_attempt_core [OF a] core_sel(5) by blast
  then show ?thesis using e run_attempt_ctx [OF ok _ a] file_attempt_frame [OF fa]
    by (auto simp: r' ended_def ctx_of_def)
qed (use assms in \<open>auto simp: finish_job_def\<close>)

lemma finish_jobs_ended: "cancellation_ok E \<Longrightarrow> ended E r \<Longrightarrow> finish_jobs E ks r = Some r' \<Longrightarrow> ended E r'"
  by (induction ks arbitrary: r) (auto dest: finish_job_ended split: option.splits)

lemma settle_ended: "cancellation_ok E \<Longrightarrow> ended E r \<Longrightarrow> settle E r = Some r' \<Longrightarrow> ended E r'"
  unfolding settle_def by (erule finish_jobs_ended [rotated 2]) (auto simp: ended_def ctx_of_def)

lemma drain_ended: "cancellation_ok E \<Longrightarrow> ended E r \<Longrightarrow> drain E r = Some (d, r') \<Longrightarrow> ended E r'"
  by (auto simp: drain_def dest: settle_ended finish_jobs_ended split: option.splits if_splits)

lemma drain_used: "drain E r = Some (d, r') \<Longrightarrow> used r' = used r"
  by (auto simp: drain_def dest!: settle_used finish_jobs_used split: option.splits if_splits)

lemma run_plan:
  assumes fresh: "fresh_runner r0" and ok: "cancellation_ok E" and run: "run E r0 = Some (out, r)"
    and c: "oc_reason out = StopCompleted"
  shows "used r = (\<Sum>s\<leftarrow>prf_stages (re_profile E). max 0 (planned (re_oob E) s))"
proof -
  have stopped: "\<not> rn_stopped r"
  proof
    assume s: "rn_stopped r"
    then have "rn_reason r = StopCompleted" using run_end [OF fresh run] c by metis
    moreover have "rn_reason r \<in> {StopQuota, StopBreaker, StopError}"
      using s run_end [OF fresh run] unfolding books_def stop_sound_def by metis
    ultimately show False by (auto simp: stop_reasons)
  qed
  from run show ?thesis
  proof (cases rule: run_cases)
    case unprimed
    then show ?thesis using c by (simp add: stop_reasons)
  next
    case (ran r1 why detail r2 d r3 t)
    have "ctx_of E r = None"
      using c stopped by (auto simp: ran(6) Let_def stop_reasons split: if_splits)
    moreover have "ctx_of E r3 \<noteq> None \<Longrightarrow> ctx_of E r \<noteq> None" by (rule cancellation_okD(4) [OF ok ran(4)])
    ultimately have "\<not> ended E r3" using now_of_used [OF ran(4)] stopped unfolding ended_def by blast
    then have "\<not> ended E r2" using drain_ended [OF ok _ ran(3)] by blast
    moreover have "used r = used r2" using drain_used [OF ran(3)] now_of_used [OF ran(4)] by simp
    moreover have "used r1 = 0" using core_used [OF ran(1)] fresh by (simp add: fresh_runner_def used_def)
    ultimately show ?thesis using run_stages_used [OF ok ran(2)] by simp
  qed
qed

end
