(* ===== verification/Run_Properties.thy ===== *)
theory Run_Properties
  imports Run_Progress
begin

text \<open>
  What a run promises, over the books of \<open>Run_Audit\<close> and the progress of \<open>Run_Progress\<close>, with a
  small run to apply each promise to, and three corners where the runner says something else than its
  comments.
\<close>

subsection \<open>A small run\<close>

text \<open>Three requests one after the other against a service that answers 200 with a body that is no
  timestamp reply; the clock is an integer that ticks when it is read.\<close>

definition demo_stage :: "int \<Rightarrow> stage" where
  "demo_stage k = \<lparr>stg_name = ''warmup'', stg_mode = ModeSequential, stg_count = k, stg_tps = Fin 0,
     stg_duration = 0, stg_pauseAfter = None\<rparr>"

definition demo_run_env :: "stage list \<Rightarrow> int runner_env" where
  "demo_run_env ss = \<lparr>re_cfg = demo_config,
     re_profile = \<lparr>prf_name = ''demo'', prf_note = [], prf_stages = ss, prf_reserve = 0\<rparr>,
     re_now = (\<lambda>c. (c, c + 1)), re_sleep = (\<lambda>c d. (None, c + d)), re_sleep_until = (\<lambda>c t. (None, t)),
     re_ctx = (\<lambda>c. None), re_oob = (\<lambda>x. 0),
     re_builder = \<lparr>bd_hashAlg = SHA256, bd_payloadSize = 16, bd_certReq = True, bd_policyOID = None\<rparr>,
     re_hash = (\<lambda>_ b. b), re_create = (\<lambda>_ b _ _ _. Inr b), re_payload = (\<lambda>seq. Inr ''q''),
     re_draws = (\<lambda>seq. [Inr 7]), re_transport = demo_transport, re_tsp = demo_tsp_lib,
     re_verifier = demo_verifier, re_netStart = (\<lambda>seq. 0), re_network = (\<lambda>seq. 0),
     re_verify = (\<lambda>seq. 0), re_reused = (\<lambda>seq. False), re_drained = True\<rparr>"

definition demo_runner :: "breaker option \<Rightarrow> int \<Rightarrow> int runner" where
  "demo_runner b k = \<lparr>rn_clock = 0, rn_quota = new_quota k 0, rn_breaker = b, rn_collector = new_collector 0,
     rn_sink = Some [], rn_artifacts = None, rn_auth = demo_authenticator,
     rn_net = \<lparr>net_log = [], net_wrote = False\<rparr>, rn_conns = None, rn_stopped = False, rn_reason = [],
     rn_detail = [], rn_jobs = [], rn_choices = []\<rparr>"

lemma demo_responsive: "responsive (demo_run_env ss)"
  by (auto simp: responsive_def demo_run_env_def max_concurrency_def demo_config_def apply_defaults_def
      default_config_def DefaultHardCap_def demo_transport_def)

lemma demo_cancellation_ok: "cancellation_ok (demo_run_env ss)"
  by (simp add: cancellation_ok_def demo_run_env_def)

lemma demo_fresh: "\<not> has_tripped b \<Longrightarrow> fresh_runner (demo_runner b k)"
  by (simp add: fresh_runner_def demo_runner_def new_collector_def)

lemma new_breaker_untripped: "\<not> has_tripped None" "\<not> has_tripped (Some (new_breaker rate w c))"
  by (simp_all add: has_tripped_def)

lemma demo_perform:
  assumes "rn_breaker r = None"
  shows "\<exists>a r1. perform (demo_run_env ss) seq stg s t l r = Some (False, r1) \<and> rn_stopped r1 = rn_stopped r
    \<and> rn_jobs r1 = rn_jobs r \<and> used r1 = used r"
proof -
  obtain trip r1 where p: "perform (demo_run_env ss) seq stg s t l r = Some (trip, r1)"
    using perform_total [OF demo_responsive] by (metis not_None_eq surj_pair)
  from p show ?thesis
  proof (rule perform_cases)
    fix a r2 assume c: "core r2 = core r" and f: "file_attempt stg a r2 = (trip, r1)"
    have "\<not> trip \<and> rn_stopped r1 = rn_stopped r"
      using f core_sel [OF c] assms by (auto simp: file_attempt_def file_breaker_def)
    then show ?thesis using p perform_jobs [OF p] perform_used [OF p] by auto
  qed
qed

lemma demo_now: "now_of (demo_run_env ss) r = (rn_clock r, r\<lparr>rn_clock := rn_clock r + 1\<rparr>)"
  "ctx_of (demo_run_env ss) r = None"
  by (simp_all add: now_of_def ctx_of_def demo_run_env_def)

lemma demo_sequential:
  assumes "rn_quota r = new_quota 5 0" "rn_breaker r = None" "\<not> rn_stopped r" "rn_jobs r = []"
  shows "\<exists>r1. run_sequential (demo_run_env ss) stg 1 r = Some (None, r1) \<and> \<not> rn_stopped r1 \<and> rn_jobs r1 = []"
proof -
  define r0 where "r0 = (r\<lparr>rn_quota := (new_quota 5 0)\<lparr>q_used := 1\<rparr>\<rparr>)\<lparr>rn_clock := rn_clock r + 1,
    rn_collector := record_sent stg (rn_clock r) (rn_collector r)\<rparr>"
  have a: "acquire_unit (demo_run_env ss) nm r = (Inr 1, r\<lparr>rn_quota := (new_quota 5 0)\<lparr>q_used := 1\<rparr>\<rparr>)" for nm
    using assms(1) by (simp add: acquire_unit_def acquire_def exhausted_def new_quota_def Let_def)
  obtain r1 where p: "perform (demo_run_env ss) 1 stg (rn_clock r) (rn_clock r) 0 r0 = Some (False, r1)"
    "\<not> rn_stopped r1" "rn_jobs r1 = []"
    using demo_perform [of r0 ss 1 stg "rn_clock r" "rn_clock r" 0] assms by (auto simp: r0_def)
  have "run_sequential (demo_run_env ss) stg (Suc 0) r = Some (None, r1)"
    using a assms(3) p(1) by (simp add: demo_now r0_def)
  then show ?thesis using p by auto
qed

lemma demo_one:
  assumes "rn_quota r = new_quota 5 0" "rn_breaker r = None" "\<not> rn_stopped r" "rn_jobs r = []"
  shows "\<exists>r1. run_one (demo_run_env ss) (demo_stage 1) out r = Some (True, out, r1) \<and> \<not> rn_stopped r1 \<and> rn_jobs r1 = []"
proof -
  obtain stg c where reg: "register_stage ''warmup'' (Fin 0) 1 (rn_collector r) = (stg, c)" by fastforce
  define ra where "ra = stage_times stg (\<lambda>x. x\<lparr>ss_startedAt := rn_clock r\<rparr>) (r\<lparr>rn_collector := c, rn_clock := rn_clock r + 1\<rparr>)"
  have "rn_quota ra = new_quota 5 0" "rn_breaker ra = None" "\<not> rn_stopped ra" "rn_jobs ra = []"
    using assms by (simp_all add: ra_def stage_times_def)
  then obtain r1 where r1: "run_sequential (demo_run_env ss) stg 1 ra = Some (None, r1)" "\<not> rn_stopped r1" "rn_jobs r1 = []"
    using demo_sequential by blast
  have "run_stage (demo_run_env ss) (demo_stage 1) 1 stg ra = Some (None, r1)"
    using r1(1) by (simp add: run_stage_def demo_stage_def)
  moreover have "planned (re_oob (demo_run_env ss)) (demo_stage 1) = 1" by (simp add: planned_def demo_stage_def)
  moreover have "remaining (rn_quota r) = 5" using assms(1) by (simp add: remaining_def new_quota_def Let_def)
  ultimately show ?thesis using assms reg r1(2,3)
    by (simp add: run_one_def demo_now demo_stage_def ra_def close_truncated_def stage_times_def)
qed

lemma run_undisturbed:
  assumes "now_of E r0 = (t0, r)" "prime (re_transport E) (rn_auth r) (rn_net r) = (None, a, n)"
    "run_stages E (prf_stages (re_profile E)) (StopCompleted, []) (r\<lparr>rn_auth := a, rn_net := n\<rparr>) = Some ((StopCompleted, []), r2)"
    "drain E r2 = Some (True, r3)" "now_of E r3 = (t1, r4)" "\<not> rn_stopped r4" "ctx_of E r4 = None"
  shows "\<exists>out. run E r0 = Some (out, r4) \<and> \<not> oc_partial out"
  using assms by (simp add: run_def)

lemma demo_run: "\<exists>out r. run (demo_run_env [demo_stage 1]) (demo_runner None 5) = Some (out, r) \<and> \<not> oc_partial out"
proof -
  let ?E = "demo_run_env [demo_stage 1]"
  have prime: "prime T demo_authenticator n = (None, demo_authenticator, n)" for n T
    by (simp add: prime_def demo_authenticator_def new_authenticator_def demo_config_def apply_defaults_def
      default_config_def DefaultHardCap_def auth_types demo_provider_def)
  define r1 where "r1 = (demo_runner None 5)\<lparr>rn_clock := 1\<rparr>"
  obtain r2 where one: "run_one ?E (demo_stage 1) (StopCompleted, []) r1 = Some (True, (StopCompleted, []), r2)"
    and r2: "\<not> rn_stopped r2" "rn_jobs r2 = []"
    using demo_one [of r1 "[demo_stage 1]" "(StopCompleted, [])"] by (auto simp: r1_def demo_runner_def)
  have st: "run_stages ?E [demo_stage 1] (StopCompleted, []) r1 = Some ((StopCompleted, []), r2)"
    using one by simp
  obtain r3 where s: "settle ?E r2 = Some r3" using settle_total [OF demo_responsive] by (metis not_None_eq)
  have j: "finish_jobs E ks q = Some q" if "rn_jobs q = []" for E :: "int runner_env" and ks q
    using that by (induction ks) (simp_all add: finish_job_def)
  have "rn_jobs r3 = [] \<and> rn_stopped r3 = rn_stopped r2" using s r2 j by (auto simp: settle_def)
  then have dr: "drain ?E r2 = Some (True, r3)" "\<not> rn_stopped r3"
    using s r2 by (simp_all add: drain_def)
  have "\<exists>out. run ?E (demo_runner None 5) = Some (out, r3\<lparr>rn_clock := rn_clock r3 + 1\<rparr>) \<and> \<not> oc_partial out"
  proof (rule run_undisturbed)
    show "now_of ?E (demo_runner None 5) = (0, r1)" by (simp add: demo_now r1_def demo_runner_def)
    show "prime (re_transport ?E) (rn_auth r1) (rn_net r1) = (None, demo_authenticator, rn_net r1)"
      using prime by (simp add: r1_def demo_runner_def)
    have "r1\<lparr>rn_auth := demo_authenticator, rn_net := rn_net r1\<rparr> = r1" by (simp add: r1_def demo_runner_def)
    moreover have "prf_stages (re_profile ?E) = [demo_stage 1]" by (simp add: demo_run_env_def)
    ultimately show "run_stages ?E (prf_stages (re_profile ?E)) (StopCompleted, [])
        (r1\<lparr>rn_auth := demo_authenticator, rn_net := rn_net r1\<rparr>) = Some ((StopCompleted, []), r2)" using st by simp
  qed (use dr in \<open>simp_all add: demo_now\<close>)
  then show ?thesis by blast
qed
subsection \<open>Properties\<close>



text \<open>C1: every unit of quota is accounted for.  When a run ends, every number from 1 to the reported
  quota use stands in exactly one row of the audit sink or one request still in flight, the quota use
  keeps within the limit, the sent counter equals it, the completed, success and failure counters are
  those of the rows, at most \<^verbatim>\<open>MaxConcurrency\<close> requests are in flight, and none is unless the
  outcome is marked partial.\<close>

theorem run_accounts:
  assumes "fresh_runner r0" "run E r0 = Some (out, r)"
  shows "\<exists>rows. rn_sink r = Some rows \<and>
    mset (map a_sequence (numbered rows)) + mset (map jb_seq (rn_jobs r)) = mset [1..oc_quotaUsed out] \<and>
    oc_quotaUsed out \<le> max 0 (limit (rn_quota r0)) \<and>
    ss_sent (c_overall (rn_collector r)) = s64 (oc_quotaUsed out) \<and>
    ss_completed (c_overall (rn_collector r)) = s64 (int (length (numbered rows))) \<and>
    ss_success (c_overall (rn_collector r)) = wrapped_count succeeded (numbered rows) \<and>
    ss_failure (c_overall (rn_collector r)) = wrapped_count (\<lambda>a. \<not> succeeded a) (numbered rows) \<and>
    length (rn_jobs r) \<le> max_concurrency E \<and> (oc_partial out \<or> rn_jobs r = [])"
proof (rule run_end [OF assms])
  fix n rows h
  assume b: "books (c_startedAt (rn_collector r0)) (rn_breaker r0) (limit (rn_quota r0)) n (mset (map jb_seq (rn_jobs r))) r rows h"
    and rest: "length (rn_jobs r) \<le> max_concurrency E" "oc_quotaUsed out = q_used (rn_quota r)"
      "oc_partial out \<or> rn_jobs r = []"
  have "stage_rel (c_overall (rn_collector r)) h" using b by (simp add: books_def coll_rel_def)
  then show ?thesis using b rest
    by (intro exI [of _ rows]) (simp add: books_def stage_rel_def wrapped_count_def)
qed

theorem run_accounts_witness:
  "\<exists>out r rows. run (demo_run_env [demo_stage 3]) (demo_runner None 2) = Some (out, r) \<and> rn_sink r = Some rows \<and>
     mset (map a_sequence (numbered rows)) + mset (map jb_seq (rn_jobs r)) = mset [1..oc_quotaUsed out] \<and>
     oc_quotaUsed out \<le> 2"
proof -
  obtain out r where run: "run (demo_run_env [demo_stage 3]) (demo_runner None 2) = Some (out, r)"
    using run_total [OF demo_responsive] by (metis not_None_eq surj_pair)
  have "max 0 (limit (rn_quota (demo_runner None 2))) = 2"
    by (simp add: demo_runner_def limit_new_quota)
  then show ?thesis using run_accounts [OF demo_fresh [OF new_breaker_untripped(1)] run] run by metis
qed

text \<open>C3: a run that is not marked partial measured all that was planned.  The rows of its audit sink
  are numbered 1 to the sum of the planned requests of all stages, each number once: no request is
  dropped by saturation, truncation, the breaker or a cancelled context without the outcome saying so.\<close>

theorem run_complete:
  assumes "fresh_runner r0" "cancellation_ok E" "run E r0 = Some (out, r)" "\<not> oc_partial out"
  shows "\<exists>rows. rn_sink r = Some rows \<and>
    mset (map a_sequence (numbered rows)) = mset [1..(\<Sum>s\<leftarrow>prf_stages (re_profile E). max 0 (planned (re_oob E) s))]"
proof (rule run_end [OF assms(1,3)])
  fix n rows h
  assume b: "books (c_startedAt (rn_collector r0)) (rn_breaker r0) (limit (rn_quota r0)) n (mset (map jb_seq (rn_jobs r))) r rows h"
    and p: "oc_partial out \<or> rn_jobs r = []" "oc_partial out \<or> oc_reason out = StopCompleted"
  have "used r = (\<Sum>s\<leftarrow>prf_stages (re_profile E). max 0 (planned (re_oob E) s))"
    using run_plan [OF assms(1-3)] p(2) assms(4) by blast
  then show ?thesis using b p(1) assms(4)
    by (intro exI [of _ rows]) (simp add: books_def used_def)
qed

theorem run_complete_witness:
  "\<exists>out r rows. run (demo_run_env [demo_stage 1]) (demo_runner None 5) = Some (out, r) \<and> rn_sink r = Some rows \<and>
     mset (map a_sequence (numbered rows)) = {#1#}"
proof -
  obtain out r where run: "run (demo_run_env [demo_stage 1]) (demo_runner None 5) = Some (out, r)" "\<not> oc_partial out"
    using demo_run by blast
  have "(\<Sum>s\<leftarrow>prf_stages (re_profile (demo_run_env [demo_stage 1])). max 0 (planned (re_oob (demo_run_env [demo_stage 1])) s)) = 1"
    by (simp add: demo_run_env_def planned_def demo_stage_def)
  then show ?thesis
    using run_complete [OF demo_fresh [OF new_breaker_untripped(1)] demo_cancellation_ok run] run(1) by auto
qed



subsection \<open>Corners\<close>

text \<open>A worker that trips the breaker after the dispatcher has checked for a stop closes the quota, so
  the acquisition is refused although units remain.  The runner then writes a row that says the request
  budget is exhausted; the outcome keeps the breaker as its reason and no unit is spent.\<close>

theorem guard_row_without_exhaustion:
  assumes "rn_stopped r" "rn_reason r = StopBreaker" "q_closed (rn_quota r)" "rn_sink r = Some rows"
    and "0 < remaining (rn_quota r)"
  shows "\<exists>r' row. acquire_unit E nm r = (Inl err_stopped, r') \<and> rn_sink r' = Some (rows @ [row]) \<and>
    map_option e_class (a_err row) = Some QuotaGuard \<and> rn_quota r' = rn_quota r \<and>
    0 < remaining (rn_quota r') \<and> rn_reason r' = StopBreaker"
proof -
  have "acquire (rn_quota r) = (Inl ErrQuotaExhausted, rn_quota r)" using assms(3) by (simp add: acquire_def)
  moreover have "stop_run w d r = r" for w d using assms(1) by (simp add: stop_run_def)
  moreover obtain t c where "re_now E (rn_clock r) = (t, c)" by fastforce
  ultimately show ?thesis using assms
    by (simp add: acquire_unit_def record_quota_guard_def now_of_def quota_guard_row_def write_sink_def new_error_def)
qed

theorem guard_row_without_exhaustion_witness:
  "\<exists>r' row. acquire_unit (demo_run_env []) ''warmup'' (stop_run StopBreaker ''2 consecutive failures'' (demo_runner None 5)) = (Inl err_stopped, r') \<and>
     rn_sink r' = Some [row] \<and> map_option e_class (a_err row) = Some QuotaGuard \<and> 0 < remaining (rn_quota r')"
proof -
  let ?r = "stop_run StopBreaker ''2 consecutive failures'' (demo_runner None 5)"
  have "rn_stopped ?r" "rn_reason ?r = StopBreaker" "q_closed (rn_quota ?r)" "rn_sink ?r = Some []"
    "0 < remaining (rn_quota ?r)"
    by (simp_all add: stop_run_def demo_runner_def close_quota_def remaining_def new_quota_def Let_def)
  from guard_row_without_exhaustion [OF this] show ?thesis by fastforce
qed

text \<open>With a challenge per request, the request that draws the challenge carries the trace of the
  timestamp request: once the challenge request has been written, the timestamp request counts as written
  whether it ever is, and a deadline that expires before it is becomes a response timeout.\<close>

theorem challenge_counts_as_written:
  assumes "per_request a" "te_new_request E (at_endpoint a) = Inr uri" "te_new_request E endpoint = Inr u"
    and "post_timestamp E endpoint der a n = (res, a', n')"
  shows "\<exists>q. hq_body q = [] \<and> (ex_written (te_server E (net_log n @ [q])) \<longrightarrow> net_wrote n')"
proof -
  let ?q = "header_set ''Content-Type'' content_type_request (new_request uri [])"
  have mono: "client_do E tr req m = (x, m') \<Longrightarrow> net_wrote m \<Longrightarrow> net_wrote m'" for tr req m x m'
    by (auto simp: client_do_def Let_def)
  obtain d m where d: "client_do E True ?q n = (d, m)" by fastforce
  have w: "ex_written (te_server E (net_log n @ [?q])) \<Longrightarrow> net_wrote m"
    using d by (auto simp: client_do_def Let_def)
  obtain b a1 n1 where b: "build_post E endpoint der a n = (b, a1, n1)" by (metis prod_cases3)
  have n1: "n1 = m"
    using b d assms(1-3)
    by (auto simp: build_post_def authorize_def draw_def draw_digest_challenge_def per_request_def Let_def
        split: sum.splits prod.splits if_splits)
  have pr: "per_request a1" using build_post_effect [OF b assms(2)] assms(1) by simp
  have "net_wrote n1 \<Longrightarrow> net_wrote n'"
  proof (cases b)
    case (Inr req)
    assume nw: "net_wrote n1"
    obtain r2 n2 where c: "client_do E True req n1 = (r2, n2)" by fastforce
    have "retry_stale E resp a1 = ((False, None), a1)" for resp
      using pr by (simp add: retry_stale_def per_request_def)
    then have "n' = n2" using assms(4) b Inr c by (cases r2) (simp_all add: post_timestamp_def)
    then show ?thesis using mono [OF c nw] by simp
  qed (use assms(4) b in \<open>simp add: post_timestamp_def\<close>)
  moreover have "hq_body ?q = []" by (simp add: header_set_def new_request_def)
  ultimately show ?thesis using w n1 by blast
qed

theorem challenge_counts_as_written_witness:
  "\<exists>q. hq_body q = [] \<and> (ex_written (te_server demo_transport [q]) \<longrightarrow>
     net_wrote (snd (snd (post_timestamp demo_transport ''/'' ''q''
       (demo_authenticator\<lparr>at_authType := AuthDigest, at_perRequest := True\<rparr>) \<lparr>net_log = [], net_wrote = False\<rparr>))))"
  using challenge_counts_as_written [of "demo_authenticator\<lparr>at_authType := AuthDigest, at_perRequest := True\<rparr>" demo_transport
      _ "''/''" _ "''q''" "\<lparr>net_log = [], net_wrote = False\<rparr>"]
  by (simp add: per_request_def demo_transport_def prod_eq_iff)

text \<open>When drawing the first challenge fails, the outcome reports no authentication request although one
  was sent and counted.\<close>

theorem prime_failure_unreported:
  assumes "prime (re_transport E) (rn_auth r0) (rn_net r0) = (Some e, a, n)" "run E r0 = Some (out, r)"
  shows "oc_reason out = StopError \<and> oc_authRequests out = 0 \<and>
    at_requests (rn_auth r) = s64 (at_requests (rn_auth r0) + 1)"
proof -
  obtain t0 ra where n0: "now_of E r0 = (t0, ra)" by fastforce
  have ra: "rn_auth ra = rn_auth r0" "rn_net ra = rn_net r0"
    using n0 by (auto simp: now_of_def split: prod.splits)
  obtain t1 r2 where n1: "now_of E (ra\<lparr>rn_auth := a, rn_net := n\<rparr>) = (t1, r2)" by fastforce
  have "rn_auth r2 = a" using n1 by (auto simp: now_of_def split: prod.splits)
  moreover have "at_requests a = s64 (at_requests (rn_auth r0) + 1)"
    using assms(1) by (auto simp: prime_def draw_def count_request_def split: prod.splits sum.splits if_splits)
  ultimately show ?thesis using assms n0 n1 ra by (auto simp: run_def Let_def)
qed

theorem prime_failure_unreported_witness:
  "\<exists>out r. run (demo_run_env []) ((demo_runner None 5)\<lparr>rn_auth := demo_authenticator\<lparr>at_authType := AuthDigest\<rparr>\<rparr>) = Some (out, r) \<and>
     oc_authRequests out = 0 \<and> at_requests (rn_auth r) = 1"
proof -
  let ?a = "demo_authenticator\<lparr>at_authType := AuthDigest\<rparr>"
  let ?r = "(demo_runner None 5)\<lparr>rn_auth := ?a\<rparr>"
  obtain out r where run: "run (demo_run_env []) ?r = Some (out, r)"
    using run_total [OF demo_responsive] by (metis not_None_eq surj_pair)
  have "\<exists>e a n. prime (re_transport (demo_run_env [])) (rn_auth ?r) (rn_net ?r) = (Some e, a, n)"
    by (simp add: demo_run_env_def demo_runner_def prime_def demo_authenticator_def new_authenticator_def
      has_challenge_def draw_def draw_digest_challenge_def client_do_def demo_transport_def demo_config_def
      apply_defaults_def default_config_def DefaultHardCap_def demo_provider_def Let_def)
  moreover have "at_requests (rn_auth ?r) = 0" by (simp add: demo_authenticator_def new_authenticator_def)
  ultimately show ?thesis using prime_failure_unreported [OF _ run] run by fastforce
qed

end
