(* ===== verification/Csv.thy ===== *)
theory Csv
  imports Utf8
begin

text \<open>
  The writer of \<^verbatim>\<open>encoding/csv\<close> with its default settings (comma, line feed), and a reader
  of the same language (RFC 4180).  Every file a run leaves behind in CSV goes through
  \<open>csv_row\<close>, and reading the text back gives the rows it was written from, whatever bytes
  the fields hold.
\<close>

subsection \<open>The writer\<close>

text \<open>\<^verbatim>\<open>unicode.IsSpace\<close> on the rune that starts a field.\<close>

definition space_rune :: "bytes \<Rightarrow> bool" where
  "space_rune r \<longleftrightarrow> map byte r \<in> set
     ([[9], [10], [11], [12], [13], [32], [194, 133], [194, 160], [225, 154, 128],
       [226, 128, 168], [226, 128, 169], [226, 128, 175], [226, 129, 159], [227, 128, 128]]
      @ map (\<lambda>i. [226, 128, 128 + i]) [0..10])"

definition starts_with_space :: "string \<Rightarrow> bool" where
  "starts_with_space s \<longleftrightarrow> (case runes s of [] \<Rightarrow> False | r # _ \<Rightarrow> space_rune r)"

definition csv_special :: "char \<Rightarrow> bool" where
  "csv_special c \<longleftrightarrow> c = CHR '','' \<or> c = CHR 0x22 \<or> c = CHR 0x0A \<or> c = CHR 0x0D"

definition csv_needs_quotes :: "string \<Rightarrow> bool" where
  "csv_needs_quotes s \<longleftrightarrow>
     s \<noteq> [] \<and> (s = [CHR 0x5C, CHR ''.''] \<or> list_ex csv_special s \<or> starts_with_space s)"

fun csv_double :: "string \<Rightarrow> string" where
  "csv_double [] = []"
| "csv_double (c # s) = (if c = CHR 0x22 then c # c # csv_double s else c # csv_double s)"

definition csv_field :: "string \<Rightarrow> string" where
  "csv_field s = (if csv_needs_quotes s then [CHR 0x22] @ csv_double s @ [CHR 0x22] else s)"

definition csv_row :: "string list \<Rightarrow> string" where
  "csv_row fs = join '','' (map csv_field fs) @ [CHR 0x0A]"

definition csv_text :: "string list list \<Rightarrow> string" where
  "csv_text rows = concat (map csv_row rows)"

subsection \<open>The reader\<close>

text \<open>
  Inside a field the reader is in the plain mode, in the quoted mode, or has just seen a quote
  that ends the quoted part or starts an escape.
\<close>

datatype csv_mode = Fresh | Plain | Quoted | Closing

fun csv_scan :: "csv_mode \<Rightarrow> string \<Rightarrow> string list \<Rightarrow> string list list \<Rightarrow> string \<Rightarrow>
    string list list option" where
  "csv_scan m f fs rows [] = (if m = Fresh \<and> fs = [] then Some rows else None)"
| "csv_scan m f fs rows (c # s) =
     (if m = Quoted
      then (if c = CHR 0x22 then csv_scan Closing f fs rows s else csv_scan Quoted (f @ [c]) fs rows s)
      else if m = Closing \<and> c = CHR 0x22 then csv_scan Quoted (f @ [c]) fs rows s
      else if c = CHR '','' then csv_scan Fresh [] (fs @ [f]) rows s
      else if c = CHR 0x0A then csv_scan Fresh [] [] (rows @ [fs @ [f]]) s
      else if m = Closing then None
      else if c = CHR 0x22 then (if m = Fresh then csv_scan Quoted f fs rows s else None)
      else csv_scan Plain (f @ [c]) fs rows s)"

definition csv_read :: "string \<Rightarrow> string list list option" where
  "csv_read s = csv_scan Fresh [] [] [] s"

subsection \<open>Reading back what was written\<close>

lemma scan_quoted:
  "csv_scan Quoted f fs rows (csv_double s @ rest) = csv_scan Quoted (f @ s) fs rows rest"
proof (induction s arbitrary: f)
  case (Cons c s)
  then show ?case by (cases "c = CHR 0x22") auto
qed simp

lemma scan_plain:
  "list_all (\<lambda>c. \<not> csv_special c) s \<Longrightarrow> m = Fresh \<or> m = Plain \<Longrightarrow>
     csv_scan m f fs rows (s @ rest) = csv_scan (if s = [] then m else Plain) (f @ s) fs rows rest"
proof (induction s arbitrary: f m)
  case (Cons c s)
  then show ?case by (auto simp: csv_special_def)
qed simp

lemma scan_field:
  assumes "sep = CHR '','' \<or> sep = CHR 0x0A"
  shows "\<exists>m. m \<noteq> Quoted \<and> csv_scan Fresh [] fs rows (csv_field s @ sep # rest) =
      csv_scan m s fs rows (sep # rest)"
proof (cases "csv_needs_quotes s")
  case True
  have "csv_scan Quoted s fs rows (CHR 0x22 # sep # rest) = csv_scan Closing s fs rows (sep # rest)"
    by simp
  moreover have "csv_scan Fresh [] fs rows (csv_field s @ sep # rest) =
      csv_scan Quoted s fs rows (CHR 0x22 # sep # rest)"
    using True scan_quoted [of "[]" fs rows s "CHR 0x22 # sep # rest"] by (simp add: csv_field_def)
  ultimately show ?thesis by (intro exI [of _ Closing]) simp
next
  case False
  then have "list_all (\<lambda>c. \<not> csv_special c) s"
    by (cases "s = []") (auto simp: csv_needs_quotes_def list_all_iff list_ex_iff)
  with False show ?thesis
    using scan_plain [of s Fresh "[]" fs rows "sep # rest"] by (intro exI [of _ "if s = [] then Fresh else Plain"]) (simp add: csv_field_def del: csv_scan.simps)
qed

lemma scan_comma: "m \<noteq> Quoted \<Longrightarrow> csv_scan m f fs rows (CHR '','' # s) = csv_scan Fresh [] (fs @ [f]) rows s"
  by simp

lemma scan_newline: "m \<noteq> Quoted \<Longrightarrow>
    csv_scan m f fs rows (CHR 0x0A # s) = csv_scan Fresh [] [] (rows @ [fs @ [f]]) s"
  by simp

lemma scan_row:
  "row \<noteq> [] \<Longrightarrow> csv_scan Fresh [] fs rows (csv_row row @ rest) =
     csv_scan Fresh [] [] (rows @ [fs @ row]) rest"
proof (induction row arbitrary: fs)
  case (Cons f row)
  show ?case
  proof (cases "row = []")
    case True
    obtain m where "m \<noteq> Quoted" "csv_scan Fresh [] fs rows (csv_field f @ CHR 0x0A # rest) =
        csv_scan m f fs rows (CHR 0x0A # rest)"
      using scan_field [of "CHR 0x0A"] by blast
    with True show ?thesis by (simp add: csv_row_def del: csv_scan.simps add: scan_newline)
  next
    case False
    have split: "csv_row (f # row) = csv_field f @ CHR '','' # csv_row row"
      using False by (cases row) (simp_all add: csv_row_def)
    obtain m where "m \<noteq> Quoted" "csv_scan Fresh [] fs rows (csv_field f @ CHR '','' # csv_row row @ rest) =
        csv_scan m f fs rows (CHR '','' # csv_row row @ rest)"
      using scan_field [of "CHR '',''"] by blast
    with Cons.IH [OF False] show ?thesis
      by (simp add: split scan_comma del: csv_scan.simps)
  qed
qed simp

lemma scan_text:
  "[] \<notin> set rows \<Longrightarrow> csv_scan Fresh [] [] acc (csv_text rows) = Some (acc @ rows)"
proof (induction rows arbitrary: acc)
  case (Cons r rows)
  then show ?case using scan_row [of r "[]" acc "csv_text rows"] by (auto simp: csv_text_def)
qed (simp add: csv_text_def)

lemma csv_read_text: "[] \<notin> set rows \<Longrightarrow> csv_read (csv_text rows) = Some rows"
  using scan_text [of rows "[]"] by (simp add: csv_read_def)

subsection \<open>Line feeds\<close>

abbreviation newlines :: "string \<Rightarrow> nat" where
  "newlines s \<equiv> count_list s (CHR 0x0A)"

lemma newlines_double: "newlines (csv_double s) = newlines s"
  by (induction s) auto

lemma newlines_field [simp]: "newlines (csv_field s) = newlines s"
  by (simp add: csv_field_def newlines_double)

lemma newlines_join: "newlines (join '','' ss) = sum_list (map newlines ss)"
  by (induction "'',''" ss rule: join.induct) auto

lemma newlines_row: "newlines (csv_row fs) = Suc (sum_list (map newlines fs))"
  by (simp add: csv_row_def newlines_join comp_def)

lemma newlines_text: "newlines (csv_text rows) = length rows + (\<Sum>r\<leftarrow>rows. sum_list (map newlines r))"
  by (induction rows) (simp_all add: csv_text_def newlines_row)

lemma csv_text_append [simp]: "csv_text (xs @ ys) = csv_text xs @ csv_text ys"
  by (simp add: csv_text_def)

lemma csv_text_single [simp]: "csv_text [r] = csv_row r"
  by (simp add: csv_text_def)

end
