(* ===== verification/Go_Files.thy ===== *)
theory Go_Files
  imports Csv
begin

text \<open>
  Buffered output files: an \<^verbatim>\<open>os.File\<close> under a \<^verbatim>\<open>bufio.Writer\<close>, and the parts of
  \<^verbatim>\<open>path/filepath\<close> the program calls.  The operating system is the parameter \<open>os_env\<close>:
  what creating a directory, opening and closing a file answer, and for the n-th write to a file
  how many bytes reach the disk when it fails.  An error is its text.
\<close>

type_synonym io_error = string

record os_env =
  os_mkdir :: "string \<Rightarrow> io_error option"
  os_open :: "string \<Rightarrow> io_error option"
  os_write :: "string \<Rightarrow> nat \<Rightarrow> string \<Rightarrow> (nat \<times> io_error) option"
  os_close :: "string \<Rightarrow> io_error option"

record out_file =
  of_path :: string
  of_disk :: string
  of_writes :: nat
  of_open :: bool
  of_buf :: string
  of_size :: nat
  of_err :: "io_error option"

definition open_file :: "nat \<Rightarrow> string \<Rightarrow> out_file" where
  "open_file cap p = \<lparr>of_path = p, of_disk = [], of_writes = 0, of_open = True, of_buf = [],
     of_size = cap, of_err = None\<rparr>"

definition err_closed :: "string \<Rightarrow> io_error" where
  "err_closed p = ''write '' @ p @ '': file already closed''"

text \<open>A disk that accepts everything.\<close>

definition good_disk :: os_env where
  "good_disk = \<lparr>os_mkdir = (\<lambda>_. None), os_open = (\<lambda>_. None), os_write = (\<lambda>_ _ _. None), os_close = (\<lambda>_. None)\<rparr>"

subsection \<open>Writing\<close>

text \<open>\<^verbatim>\<open>f.Write\<close>: the bytes that were accepted are on the disk; a short write is an error.\<close>

definition file_write :: "os_env \<Rightarrow> string \<Rightarrow> out_file \<Rightarrow> (nat \<times> io_error) option \<times> out_file" where
  "file_write E s f =
     (if \<not> of_open f then (Some (0, err_closed (of_path f)), f)
      else (case os_write E (of_path f) (of_writes f) s of
              None \<Rightarrow> (None, f\<lparr>of_disk := of_disk f @ s, of_writes := of_writes f + 1\<rparr>)
            | Some (n, e) \<Rightarrow>
                (Some (n, e), f\<lparr>of_disk := of_disk f @ take n s, of_writes := of_writes f + 1\<rparr>)))"

definition buf_flush :: "os_env \<Rightarrow> out_file \<Rightarrow> io_error option \<times> out_file" where
  "buf_flush E f =
     (if of_err f \<noteq> None then (of_err f, f)
      else if of_buf f = [] then (None, f)
      else (case file_write E (of_buf f) f of
              (None, f1) \<Rightarrow> (None, f1\<lparr>of_buf := []\<rparr>)
            | (Some (n, e), f1) \<Rightarrow> (Some e, f1\<lparr>of_buf := drop n (of_buf f1), of_err := Some e\<rparr>)))"

text \<open>What does not fit: with an empty buffer the text goes straight to the file.\<close>

definition buf_direct :: "os_env \<Rightarrow> string \<Rightarrow> out_file \<Rightarrow> io_error option \<times> out_file" where
  "buf_direct E s f =
     (if length s \<le> of_size f then (None, f\<lparr>of_buf := s\<rparr>)
      else (case file_write E s f of
              (None, f1) \<Rightarrow> (None, f1)
            | (Some (n, e), f1) \<Rightarrow> (Some e, f1\<lparr>of_err := Some e\<rparr>)))"

definition buf_write :: "os_env \<Rightarrow> string \<Rightarrow> out_file \<Rightarrow> io_error option \<times> out_file" where
  "buf_write E s f =
     (if of_err f \<noteq> None then (of_err f, f)
      else if length s \<le> of_size f - length (of_buf f) then (None, f\<lparr>of_buf := of_buf f @ s\<rparr>)
      else if of_buf f = [] then buf_direct E s f
      else (let k = of_size f - length (of_buf f) in
        (case buf_flush E (f\<lparr>of_buf := of_buf f @ take k s\<rparr>) of
           (Some e, f1) \<Rightarrow> (Some e, f1)
         | (None, f1) \<Rightarrow> buf_direct E (drop k s) f1)))"

definition file_close :: "os_env \<Rightarrow> out_file \<Rightarrow> io_error option \<times> out_file" where
  "file_close E f =
     (if of_open f then (os_close E (of_path f), f\<lparr>of_open := False\<rparr>)
      else (Some (err_closed (of_path f)), f))"

text \<open>
  A file is sound for a text when, as long as no error is pending, the disk followed by the buffer
  is that text.  An error stays pending for ever.
\<close>

definition holds :: "string \<Rightarrow> out_file \<Rightarrow> bool" where
  "holds t f \<longleftrightarrow> (of_err f = None \<longrightarrow> of_disk f @ of_buf f = t)"

lemma holds_open [simp]: "holds [] (open_file n p)"
  by (simp add: holds_def open_file_def)

lemma file_write_holds:
  "file_write E s f = (r, f') \<Longrightarrow>
     of_err f' = of_err f \<and> of_buf f' = of_buf f \<and> (r = None \<longrightarrow> of_disk f' = of_disk f @ s)"
  by (auto simp: file_write_def split: if_splits option.splits prod.splits)

lemma buf_flush_holds:
  "buf_flush E f = (r, f') \<Longrightarrow> holds t f \<Longrightarrow>
     holds t f' \<and> r = of_err f' \<and> (r = None \<longrightarrow> of_buf f' = [] \<and> of_disk f' = t)"
  by (auto simp: buf_flush_def holds_def split: if_splits option.splits prod.splits
      dest: file_write_holds)

lemma buf_direct_holds:
  "buf_direct E s f = (r, f') \<Longrightarrow> of_err f = None \<Longrightarrow> of_buf f = [] \<Longrightarrow> of_disk f = t \<Longrightarrow>
     holds (t @ s) f' \<and> r = of_err f'"
  by (auto simp: buf_direct_def holds_def split: if_splits option.splits prod.splits
      dest: file_write_holds)

lemma buf_write_holds:
  assumes "buf_write E s f = (r, f')" "holds t f"
  shows "holds (t @ s) f' \<and> r = of_err f'"
proof -
  consider "of_err f \<noteq> None" | "of_err f = None" "length s \<le> of_size f - length (of_buf f)"
    | "of_err f = None" "\<not> length s \<le> of_size f - length (of_buf f)" "of_buf f = []"
    | "of_err f = None" "\<not> length s \<le> of_size f - length (of_buf f)" "of_buf f \<noteq> []" by blast
  then show ?thesis
  proof cases
    case 4
    let ?k = "of_size f - length (of_buf f)"
    obtain r1 f1 where fl: "buf_flush E (f\<lparr>of_buf := of_buf f @ take ?k s\<rparr>) = (r1, f1)" by force
    have "holds (t @ take ?k s) (f\<lparr>of_buf := of_buf f @ take ?k s\<rparr>)"
      using assms(2) 4 by (simp add: holds_def)
    note h = buf_flush_holds [OF fl this]
    show ?thesis
    proof (cases r1)
      case None
      then show ?thesis using h 4 fl assms(1) buf_direct_holds [of E "drop ?k s" f1 r f' "t @ take ?k s"]
        by (simp add: buf_write_def Let_def)
    next
      case (Some e)
      have "of_err f1 = Some e" using h Some by simp
      then show ?thesis using Some 4 fl assms(1) by (auto simp: buf_write_def Let_def holds_def)
    qed
  qed (use assms buf_direct_holds in \<open>auto simp: buf_write_def holds_def\<close>)
qed

lemma file_close_holds:
  "file_close E f = (r, f') \<Longrightarrow> of_disk f' = of_disk f \<and> of_err f' = of_err f \<and> \<not> of_open f'"
  by (auto simp: file_close_def split: if_splits)

subsection \<open>Package filepath\<close>

text \<open>\<^verbatim>\<open>filepath.Clean\<close> on the components of a slash-separated path.\<close>

fun clean_parts :: "bool \<Rightarrow> string list \<Rightarrow> string list \<Rightarrow> string list" where
  "clean_parts rooted st [] = rev st"
| "clean_parts rooted st (c # cs) =
     (if c = [] \<or> c = ''.'' then clean_parts rooted st cs
      else if c = ''..'' then
        (if st \<noteq> [] \<and> hd st \<noteq> ''..'' then clean_parts rooted (tl st) cs
         else if rooted then clean_parts rooted st cs
         else clean_parts rooted (c # st) cs)
      else clean_parts rooted (c # st) cs)"

definition path_clean :: "string \<Rightarrow> string" where
  "path_clean p =
     (let rooted = (p \<noteq> [] \<and> hd p = CHR ''/'');
          s = join ''/'' (clean_parts rooted [] (split_on (CHR ''/'') p))
      in if rooted then ''/'' @ s else if s = [] then ''.'' else s)"

definition path_join :: "string list \<Rightarrow> string" where
  "path_join es =
     (let ps = dropWhile (\<lambda>e. e = []) es in if ps = [] then [] else path_clean (join ''/'' ps))"

text \<open>\<^verbatim>\<open>filepath.Base\<close>\<close>

definition path_base :: "string \<Rightarrow> string" where
  "path_base p =
     (if p = [] then ''.''
      else (let s = rev (dropWhile (\<lambda>c. c = CHR ''/'') (rev p)) in
        if s = [] then ''/'' else last (split_on (CHR ''/'') s)))"

end
