(* ===== verification/Timestamps.thy ===== *)
theory Timestamps
  imports Gentime
begin

text \<open>
  The instants in the files of a run are formatted as RFC 3339 with the trailing zeros of the
  fraction removed.  The reader below states what such a text denotes; it gives back the instant
  to the nanosecond for every year up to 9999.
\<close>

lemma parse_fmt_frac:
  "parse_fraction (fmt_frac n 9 @ ''Z'') = (int (n mod 1000000000), ''Z'')"
proof -
  define ds where "ds = rev (dropWhile (\<lambda>c. c = CHR ''0'') (rev (pad_dec 9 (n mod 1000000000))))"
  have f: "fmt_frac n 9 = (if ds = [] then [] else CHR ''.'' # ds)"
    by (simp add: fmt_frac_def ds_def)
  have len: "length (pad_dec 9 (n mod 1000000000)) = 9" by (rule length_pad_dec) auto
  have "length ds \<le> 9" using len length_dropWhile_le [of _ "rev (pad_dec 9 (n mod 1000000000))"]
    by (simp add: ds_def)
  moreover have "list_all is_digit ds"
    using digits_pad_dec [of 9 "n mod 1000000000"] by (auto simp: ds_def list_all_iff dest: set_dropWhileD)
  moreover have "num ds * 10 ^ (9 - length ds) = int (n mod 1000000000)"
    using num_trim [of "pad_dec 9 (n mod 1000000000)"] len by (simp add: ds_def)
  moreover have "takeWhile is_digit (ds @ ''Z'') = ds"
    using \<open>list_all is_digit ds\<close> by (simp add: list_all_iff is_digit_def byte_def)
  ultimately show ?thesis
    by (cases ds) (auto simp: f parse_fraction_def Let_def min_absorb1)
qed

text \<open>The reader of an RFC 3339 instant in UTC, for the years 0 to 9999.\<close>

definition read_rfc3339 :: "string \<Rightarrow> time" where
  "read_rfc3339 s = date_nanos (num (take 4 s)) (num (take 2 (drop 5 s))) (num (take 2 (drop 8 s)))
     (num (take 2 (drop 11 s))) (num (take 2 (drop 14 s))) (num (take 2 (drop 17 s)))
     (fst (parse_fraction (drop 19 s)))"

definition year_10000 :: time where
  "year_10000 = 3652059 * nanos_per_day"

lemma read_fields:
  assumes "length y = 4" "length m = 2" "length d = 2" "length h = 2" "length mi = 2" "length s = 2"
  shows "read_rfc3339 (y @ ''-'' @ m @ ''-'' @ d @ ''T'' @ h @ '':'' @ mi @ '':'' @ s @ f) =
     date_nanos (num y) (num m) (num d) (num h) (num mi) (num s) (fst (parse_fraction f))"
  using assms by (auto simp: read_rfc3339_def length_Suc_conv eval_nat_numeral)

lemma clock_parts: "s div 3600 * 3600 + s div 60 mod 60 * 60 + s mod 60 = (s :: nat)"
proof -
  have "s div 3600 = s div 60 div 60" by (simp add: div_mult2_eq [symmetric])
  then show ?thesis using div_mult_mod_eq [of "s div 60" 60] div_mult_mod_eq [of s 60] by linarith
qed

lemma read_format_rfc3339: "0 \<le> t \<Longrightarrow> t < year_10000 \<Longrightarrow> read_rfc3339 (format_rfc3339_nano t) = t"
proof -
  assume t: "0 \<le> t" "t < year_10000"
  define n where "n = t div nanos_per_day"
  define r where "r = nat (t mod nanos_per_day)"
  obtain y m d where c: "civil_of_day n = (y, m, d)" by (cases "civil_of_day n") auto
  have p: "0 < nanos_per_day" by (simp add: nanos_per_day_def)
  have "n * nanos_per_day + int r = t" using p by (simp add: n_def r_def)
  moreover have "0 \<le> n" using t p by (simp add: n_def pos_imp_zdiv_nonneg_iff)
  moreover have "n < 3652059" using t by (simp add: n_def year_10000_def nanos_per_day_def)
  moreover have r: "r < 86400 * 1000000000"
    using pos_mod_bound [OF p, of t] by (simp add: r_def nanos_per_day_def nat_less_iff)
  ultimately have t_eq: "t = day_number y m d * nanos_per_day + int r"
    and y: "1 \<le> y" "y < 10000"
    using civil_of_day(1) [OF c] civil_year_range [OF _ _ c] by auto
  have md: "1 \<le> m" "m \<le> 12" "1 \<le> d" "d \<le> 31"
    using civil_of_day [OF c] days_in_bound [of m y] by auto
  define s where "s = r div 1000000000"
  have s: "s < 86400" using r by (simp add: s_def less_mult_imp_div_less)
  have rs: "int r = int s * 1000000000 + int (r mod 1000000000)"
    unfolding s_def by (metis div_mult_mod_eq of_nat_add of_nat_mult of_nat_numeral)
  have "format_rfc3339_nano t = pad_dec 4 (nat y) @ ''-'' @ pad_dec 2 (nat m) @ ''-'' @ pad_dec 2 (nat d)
      @ ''T'' @ pad_dec 2 (s div 3600) @ '':'' @ pad_dec 2 (s div 60 mod 60) @ '':'' @
      pad_dec 2 (s mod 60) @ (fmt_frac r 9 @ ''Z'')"
    using c y by (simp add: format_rfc3339_nano_def n_def r_def s_def go_year_def Let_def)
  also have "read_rfc3339 \<dots> = date_nanos y m d (int (s div 3600)) (int (s div 60 mod 60)) (int (s mod 60))
      (int (r mod 1000000000))"
    using y md s by (subst read_fields) (auto simp: length_pad_dec parse_fmt_frac less_mult_imp_div_less)
  also have "\<dots> = (day_number y m d * 86400 + int (s div 3600 * 3600 + s div 60 mod 60 * 60 + s mod 60))
      * 1000000000 + int (r mod 1000000000)"
    by (simp add: date_nanos_def)
  also have "\<dots> = t" unfolding clock_parts t_eq rs nanos_per_day_def by (simp add: algebra_simps)
  finally show ?thesis .
qed

end
