(* ===== verification/Resources.thy ===== *)
theory Resources
  imports Transport
begin

text \<open>
  The resource sampler, \<^verbatim>\<open>internal/metrics/runtime.go\<close>.  What the runtime, the operating
  system and the clock answer at a sample is one \<open>reading\<close>; the sampling goroutine takes one
  sample per tick of its ticker and a last one when it is stopped.
\<close>

record resource_sample =
  r_second :: int
  r_goroutines :: int
  r_heapMB :: f64
  r_rssPeakMB :: f64
  r_cpuPercent :: f64
  r_inFlight :: int
  r_connsOpen :: int
  r_connsReused :: int
  r_gcPauseTotalMS :: f64

definition zero_sample :: resource_sample where
  "zero_sample = \<lparr>r_second = 0, r_goroutines = 0, r_heapMB = Fin 0, r_rssPeakMB = Fin 0,
     r_cpuPercent = Fin 0, r_inFlight = 0, r_connsOpen = 0, r_connsReused = 0,
     r_gcPauseTotalMS = Fin 0\<rparr>"

text \<open>A value of package \<^verbatim>\<open>runtime/metrics\<close>: the counts and the edges of a histogram.\<close>

datatype metric_value = KindBad | KindUint64 int | KindFloat64Histogram "int list" "f64 list"

record reading =
  rd_heap :: metric_value
  rd_pauses :: metric_value
  rd_now :: time
  rd_cpuTime :: duration
  rd_goroutines :: int
  rd_rssMB :: f64

record sampler =
  sm_startedAt :: time
  sm_conns :: "conn_stats option"
  sm_samples :: "resource_sample list"
  sm_lastCPU :: duration
  sm_lastWall :: time
  sm_stopped :: bool

definition new_resource_sampler :: "time \<Rightarrow> conn_stats option \<Rightarrow> sampler" where
  "new_resource_sampler startedAt conns = \<lparr>sm_startedAt = startedAt, sm_conns = conns,
     sm_samples = [], sm_lastCPU = 0, sm_lastWall = 0, sm_stopped = False\<rparr>"

definition start_sampler :: "time \<Rightarrow> duration \<Rightarrow> sampler \<Rightarrow> sampler" where
  "start_sampler now cpu s = s\<lparr>sm_lastWall := now, sm_lastCPU := cpu\<rparr>"

text \<open>
  The sum of the observations of a histogram, every bucket charged its midpoint; an infinite edge
  is folded onto its finite neighbour.
\<close>

definition midpoint_sum :: "int \<Rightarrow> f64 \<Rightarrow> f64 \<Rightarrow> f64" where
  "midpoint_sum n lo hi = fdiv (fmul (f64_of_int n) (fadd lo hi)) (Fin 2)"

fun histogram_loop :: "f64 \<Rightarrow> int list \<Rightarrow> f64 list \<Rightarrow> f64" where
  "histogram_loop tot (n # ns) (lo # hi # bs) =
     (if n = 0 then histogram_loop tot ns (hi # bs)
      else if lo = FInf True \<and> hi = FInf False then histogram_loop tot ns (hi # bs)
      else if lo = FInf True then histogram_loop (fadd tot (midpoint_sum n hi hi)) ns (hi # bs)
      else if hi = FInf False then histogram_loop (fadd tot (midpoint_sum n lo lo)) ns (hi # bs)
      else histogram_loop (fadd tot (midpoint_sum n lo hi)) ns (hi # bs))"
| "histogram_loop tot ns bs = tot"

definition histogram_total :: "(f64 \<Rightarrow> int) \<Rightarrow> int list \<Rightarrow> f64 list \<Rightarrow> duration" where
  "histogram_total oob ns bs =
     f64_to_i64 oob (fmul (histogram_loop (Fin 0) ns bs) (f64_of_int second))"

definition read_runtime_metrics :: "(f64 \<Rightarrow> int) \<Rightarrow> metric_value \<Rightarrow> metric_value \<Rightarrow> int \<times> duration" where
  "read_runtime_metrics oob heap pauses =
     ((case heap of KindUint64 n \<Rightarrow> n | _ \<Rightarrow> 0),
      (case pauses of KindFloat64Histogram ns bs \<Rightarrow> histogram_total oob ns bs | _ \<Rightarrow> 0))"

text \<open>\<^verbatim>\<open>getrusage\<close>: user and system time as seconds and microseconds, and the resident
  high-water mark in the unit of the platform.  The answer is \<open>None\<close> when the call fails.\<close>

record rusage =
  ru_utime :: "int \<times> int"
  ru_stime :: "int \<times> int"
  ru_maxrss :: int

datatype platform = Darwin | Linux | Other_OS

definition timeval_to_duration :: "int \<times> int \<Rightarrow> duration" where
  "timeval_to_duration tv = s64 (s64 (fst tv * second) + s64 (snd tv * microsecond))"

definition process_cpu_time :: "platform \<Rightarrow> rusage option \<Rightarrow> duration" where
  "process_cpu_time os u =
     (if os = Other_OS then 0
      else (case u of None \<Rightarrow> 0
            | Some r \<Rightarrow> s64 (timeval_to_duration (ru_utime r) + timeval_to_duration (ru_stime r))))"

definition max_rss_unit_bytes :: "platform \<Rightarrow> int" where
  "max_rss_unit_bytes os = (if os = Linux then 1024 else 1)"

definition peak_resident_memory_mb :: "platform \<Rightarrow> rusage option \<Rightarrow> f64" where
  "peak_resident_memory_mb os u =
     (if os = Other_OS then Fin 0
      else (case u of None \<Rightarrow> Fin 0
            | Some r \<Rightarrow> fdiv (fmul (f64_of_int (ru_maxrss r)) (f64_of_int (max_rss_unit_bytes os)))
                          (Fin 1048576)))"

definition cpu_percent :: "duration \<Rightarrow> duration \<Rightarrow> f64" where
  "cpu_percent cpu wall =
     (if wall > 0 then fmul (fdiv (f64_of_int cpu) (f64_of_int wall)) (Fin 100) else Fin 0)"

definition take_sample :: "(f64 \<Rightarrow> int) \<Rightarrow> reading \<Rightarrow> sampler \<Rightarrow> sampler" where
  "take_sample oob d s =
     (let (heapBytes, gcPause) = read_runtime_metrics oob (rd_heap d) (rd_pauses d);
          now = rd_now d; cpu = rd_cpuTime d;
          pct = cpu_percent (s64 (cpu - sm_lastCPU s)) (time_sub now (sm_lastWall s));
          smp = \<lparr>r_second = time_sub now (sm_startedAt s) sdiv second,
             r_goroutines = rd_goroutines d,
             r_heapMB = fdiv (f64_of_int heapBytes) (Fin 1048576),
             r_rssPeakMB = rd_rssMB d, r_cpuPercent = pct,
             r_inFlight = (case sm_conns s of None \<Rightarrow> 0 | Some c \<Rightarrow> cs_inFlight c),
             r_connsOpen = (case sm_conns s of None \<Rightarrow> 0 | Some c \<Rightarrow> conns_open c),
             r_connsReused = (case sm_conns s of None \<Rightarrow> 0 | Some c \<Rightarrow> cs_reused c),
             r_gcPauseTotalMS = fdiv (f64_of_int gcPause) (f64_of_int millisecond)\<rparr>
      in s\<lparr>sm_lastWall := now, sm_lastCPU := cpu, sm_samples := sm_samples s @ [smp]\<rparr>)"

text \<open>\<^verbatim>\<open>Stop\<close> closes the channel once and waits for the final sample.\<close>

definition stop_sampler :: "(f64 \<Rightarrow> int) \<Rightarrow> reading \<Rightarrow> sampler \<Rightarrow> sampler" where
  "stop_sampler oob d s =
     (if sm_stopped s then s else (take_sample oob d s)\<lparr>sm_stopped := True\<rparr>)"

text \<open>The goroutine of \<^verbatim>\<open>Start\<close>: a sample for every tick, and one more when it sees the stop channel
  closed, after which it returns.\<close>

datatype sampler_event = Ticked reading | Stop_Seen reading

fun sampler_loop :: "(f64 \<Rightarrow> int) \<Rightarrow> sampler_event list \<Rightarrow> sampler \<Rightarrow> sampler" where
  "sampler_loop oob [] s = s"
| "sampler_loop oob (Ticked d # es) s = sampler_loop oob es (take_sample oob d s)"
| "sampler_loop oob (Stop_Seen d # es) s = take_sample oob d s"

record peak =
  p_maxGoroutines :: int
  p_maxRSSMB :: f64
  p_maxCPUPercent :: f64
  p_maxInFlight :: int
  p_maxConnsOpen :: int

definition zero_peak :: peak where
  "zero_peak = \<lparr>p_maxGoroutines = 0, p_maxRSSMB = Fin 0, p_maxCPUPercent = Fin 0,
     p_maxInFlight = 0, p_maxConnsOpen = 0\<rparr>"

text \<open>\<^verbatim>\<open>if x > m { m = x }\<close>\<close>

definition raise :: "'a :: ord \<Rightarrow> 'a \<Rightarrow> 'a" where
  "raise x m = (if m < x then x else m)"

definition raise_peak :: "resource_sample \<Rightarrow> peak \<Rightarrow> peak" where
  "raise_peak s p = \<lparr>p_maxGoroutines = raise (r_goroutines s) (p_maxGoroutines p),
     p_maxRSSMB = raise (r_rssPeakMB s) (p_maxRSSMB p),
     p_maxCPUPercent = raise (r_cpuPercent s) (p_maxCPUPercent p),
     p_maxInFlight = raise (r_inFlight s) (p_maxInFlight p),
     p_maxConnsOpen = raise (r_connsOpen s) (p_maxConnsOpen p)\<rparr>"

definition peak_of :: "resource_sample list \<Rightarrow> peak" where
  "peak_of ss = fold raise_peak ss zero_peak"

subsection \<open>The peak is the maximum\<close>

lemma f64_less_irrefl [simp]: "\<not> (x :: f64) < x"
  by (cases x) auto

lemma f64_less_trans: "(x :: f64) < y \<Longrightarrow> y < z \<Longrightarrow> x < z"
  by (cases x; cases y; cases z) auto

lemma f64_not_less_trans: "x \<noteq> FNaN \<Longrightarrow> y \<noteq> FNaN \<Longrightarrow> \<not> (x :: f64) < y \<Longrightarrow> x < z \<Longrightarrow> y < z"
  by (cases x; cases y; cases z) auto

lemma fold_raise_int: "m \<le> fold raise xs (m :: int) \<and> (\<forall>x \<in> set xs. x \<le> fold raise xs m)"
proof (induction xs arbitrary: m)
  case (Cons x xs)
  have "x \<le> raise x m" "m \<le> raise x m" by (auto simp: raise_def)
  with Cons.IH [of "raise x m"] show ?case by (auto intro: order_trans)
qed simp

lemma fold_raise_attained: "fold raise xs m = m \<or> fold raise xs m \<in> set xs"
proof (induction xs arbitrary: m)
  case (Cons x xs)
  from Cons.IH [of "raise x m"] show ?case by (auto simp: raise_def split: if_splits)
qed simp

lemma fold_raise_f64:
  "m \<noteq> FNaN \<Longrightarrow> fold raise xs m \<noteq> FNaN \<and> \<not> fold raise xs m < m \<and> (\<forall>x \<in> set xs. \<not> fold raise xs m < (x :: f64))"
proof (induction xs arbitrary: m)
  case (Cons x xs)
  let ?m = "raise x m"
  have m: "?m \<noteq> FNaN" "\<not> ?m < m" "\<not> ?m < x"
    using Cons.prems by (cases x; cases m; auto simp: raise_def)+
  note ih = Cons.IH [OF m(1)]
  have "\<not> fold raise xs ?m < y" if "\<not> ?m < y" for y
    using ih that f64_not_less_trans [of ?m "fold raise xs ?m" y] m(1)
    by (meson f64_not_less_trans)
  with ih m show ?case by auto
qed simp

lemma peak_fields:
  "p_maxGoroutines (fold raise_peak ss p) = fold raise (map r_goroutines ss) (p_maxGoroutines p)"
  "p_maxRSSMB (fold raise_peak ss p) = fold raise (map r_rssPeakMB ss) (p_maxRSSMB p)"
  "p_maxCPUPercent (fold raise_peak ss p) = fold raise (map r_cpuPercent ss) (p_maxCPUPercent p)"
  "p_maxInFlight (fold raise_peak ss p) = fold raise (map r_inFlight ss) (p_maxInFlight p)"
  "p_maxConnsOpen (fold raise_peak ss p) = fold raise (map r_connsOpen ss) (p_maxConnsOpen p)"
  by (induction ss arbitrary: p) (simp_all add: raise_peak_def)

text \<open>The samples of a run are one per tick and the last one, as \<^verbatim>\<open>Stop\<close> takes it.\<close>

lemma sampler_loop_samples:
  "\<exists>new. sm_samples (sampler_loop oob (map Ticked ds @ [Stop_Seen d]) s) = sm_samples s @ new \<and>
     length new = length ds + 1"
proof (induction ds arbitrary: s)
  case Nil
  then show ?case by (simp add: take_sample_def Let_def case_prod_beta)
next
  case (Cons x ds)
  obtain new where "sm_samples (sampler_loop oob (map Ticked ds @ [Stop_Seen d]) (take_sample oob x s)) =
      sm_samples (take_sample oob x s) @ new" "length new = length ds + 1"
    using Cons.IH [of "take_sample oob x s"] by blast
  then show ?case by (auto simp: take_sample_def Let_def case_prod_beta)
qed

lemma sampler_loop_stops:
  "sampler_loop oob (map Ticked ds @ Stop_Seen d # es) s =
     take_sample oob d (fold (take_sample oob) ds s)"
  by (induction ds arbitrary: s) simp_all

end
