(* ===== verification/Report_Writer.thy ===== *)
theory Report_Writer
  imports Go_Files Timestamps Collector Resources
begin

text \<open>
  The files of a run, \<^verbatim>\<open>internal/report/writer.go\<close>.  A row of
  requests.csv is handed to the buffered file in one piece; \<^verbatim>\<open>csv.NewWriter\<close> on a
  \<^verbatim>\<open>bufio.Writer\<close> uses that same buffer, so the two flushes the code stacks act on one
  buffer.  The mutex makes every operation one step.
\<close>

subsection \<open>Paths and numbers\<close>

definition path_safe :: "char \<Rightarrow> bool" where
  "path_safe c \<longleftrightarrow>
     (let b = byte c in 97 \<le> b \<and> b \<le> 122 \<or> 65 \<le> b \<and> b \<le> 90 \<or> 48 \<le> b \<and> b \<le> 57)
     \<or> c = CHR ''-'' \<or> c = CHR ''_'' \<or> c = CHR ''.''"

definition path_rune :: "bytes \<Rightarrow> bytes" where
  "path_rune r = (case r of [c] \<Rightarrow> if path_safe c then [c] else ''-'' | _ \<Rightarrow> ''-'')"

definition sanitize_path :: "string \<Rightarrow> string" where
  "sanitize_path s =
     (let out = concat (map path_rune (runes s)) in if out = [] then ''unknown'' else out)"

definition run_dir :: "string \<Rightarrow> string \<Rightarrow> time \<Rightarrow> string \<Rightarrow> string" where
  "run_dir outputDir provider startedAt runID =
     path_join [outputDir, sanitize_path provider, format_compact startedAt @ ''-'' @ runID]"

definition ts :: "time \<Rightarrow> string" where
  "ts t = (if is_zero_time t then [] else format_rfc3339_nano t)"

definition ms_float :: "duration \<Rightarrow> f64" where
  "ms_float d = fdiv (f64_of_int d) (f64_of_int millisecond)"

definition ms :: "duration \<Rightarrow> string" where
  "ms d = fmt_fixed 3 (ms_float d)"

subsection \<open>The writer\<close>

record writer =
  wr_dir :: string
  wr_requests :: out_file
  wr_errors :: out_file
  wr_log :: out_file
  wr_rows :: int
  wr_closed :: bool

definition request_header :: "string list" where
  "request_header = [''sequence'', ''stage'', ''scheduled_at'', ''started_at'', ''completed_at'',
     ''schedule_lag_ms'', ''total_ms'', ''network_ms'', ''verify_ms'', ''http_status'', ''outcome'',
     ''error_class'', ''clock_skew_ms'']"

definition error_header :: "string list" where
  "error_header = [''sequence'', ''stage'', ''started_at'', ''error_class'', ''http_status'', ''detail'']"

definition open_or :: "os_env \<Rightarrow> string \<Rightarrow> nat \<Rightarrow> string \<Rightarrow> string + out_file" where
  "open_or E dir cap name =
     (let p = path_join [dir, name] in
      (case os_open E p of
         Some e \<Rightarrow> Inl (''create '' @ name @ '': '' @ e)
       | None \<Rightarrow> Inr (open_file cap p)))"

definition start_csv :: "os_env \<Rightarrow> string list \<Rightarrow> out_file \<Rightarrow> string + out_file" where
  "start_csv E hdr f =
     (case buf_write E (csv_row hdr) f of (Some e, _) \<Rightarrow> Inl e | (None, f1) \<Rightarrow> Inr f1)"

text \<open>\<^verbatim>\<open>NewWriter\<close>.  The handles that a failure closes again are not part of its result.\<close>

definition new_writer :: "os_env \<Rightarrow> string \<Rightarrow> string + writer" where
  "new_writer E dir =
     (case os_mkdir E dir of
        Some e \<Rightarrow> Inl (''create run directory: '' @ e)
      | None \<Rightarrow>
     (case open_or E dir 262144 ''requests.csv'' of
        Inl e \<Rightarrow> Inl e
      | Inr rf0 \<Rightarrow>
     (case start_csv E request_header rf0 of
        Inl e \<Rightarrow> Inl e
      | Inr rf \<Rightarrow>
     (case open_or E dir 65536 ''errors.csv'' of
        Inl e \<Rightarrow> Inl e
      | Inr ef0 \<Rightarrow>
     (case start_csv E error_header ef0 of
        Inl e \<Rightarrow> Inl e
      | Inr ef \<Rightarrow>
     (case open_or E dir 0 ''run.log'' of
        Inl e \<Rightarrow> Inl e
      | Inr lf \<Rightarrow>
          Inr \<lparr>wr_dir = dir, wr_requests = rf, wr_errors = ef, wr_log = lf, wr_rows = 0,
                wr_closed = False\<rparr>))))))"

definition error_class_field :: "attempt \<Rightarrow> string" where
  "error_class_field a = (if succeeded a then [] else attempt_error_key a)"

definition request_row :: "attempt \<Rightarrow> string list" where
  "request_row a = [int_dec (a_sequence a), a_stage a, ts (a_scheduledAt a), ts (a_startedAt a),
     ts (a_completedAt a), ms (a_scheduleLag a), ms (a_total a), ms (a_network a), ms (a_verify a),
     int_dec (a_httpStatus a), (if succeeded a then ''verified'' else ''failed''),
     error_class_field a, ms (a_clockSkew a)]"

definition error_row :: "attempt \<Rightarrow> class_error \<Rightarrow> string list" where
  "error_row a e = [int_dec (a_sequence a), a_stage a, ts (a_startedAt a), error_key e,
     int_dec (a_httpStatus a), e_detail e]"

definition write_attempt :: "os_env \<Rightarrow> attempt \<Rightarrow> writer \<Rightarrow> io_error option \<times> writer" where
  "write_attempt E a w =
     (if wr_closed w then (None, w)
      else (case buf_write E (csv_row (request_row a)) (wr_requests w) of
        (Some e, f) \<Rightarrow> (Some e, w\<lparr>wr_requests := f\<rparr>)
      | (None, f) \<Rightarrow>
          (let w1 = w\<lparr>wr_requests := f, wr_rows := inc (wr_rows w)\<rparr> in
           (case a_err a of
              None \<Rightarrow> (None, w1)
            | Some e \<Rightarrow>
                (let (r, g) = buf_write E (csv_row (error_row a e)) (wr_errors w1)
                 in (r, w1\<lparr>wr_errors := g\<rparr>))))))"

definition rows_of :: "writer \<Rightarrow> int" where
  "rows_of w = wr_rows w"

definition flush_locked :: "os_env \<Rightarrow> writer \<Rightarrow> io_error option \<times> writer" where
  "flush_locked E w =
     (case buf_flush E (wr_requests w) of
        (Some e, f) \<Rightarrow> (Some e, w\<lparr>wr_requests := f\<rparr>)
      | (None, f) \<Rightarrow>
     (case buf_flush E (wr_errors w) of
        (Some e, g) \<Rightarrow> (Some e, w\<lparr>wr_requests := f, wr_errors := g\<rparr>)
      | (None, g) \<Rightarrow>
     (case buf_flush E f of
        (Some e, f1) \<Rightarrow> (Some e, w\<lparr>wr_requests := f1, wr_errors := g\<rparr>)
      | (None, f1) \<Rightarrow>
          (let (r, g1) = buf_flush E g in (r, w\<lparr>wr_requests := f1, wr_errors := g1\<rparr>)))))"

fun first_error :: "io_error option list \<Rightarrow> io_error option" where
  "first_error [] = None"
| "first_error (None # es) = first_error es"
| "first_error (Some e # es) = Some e"

definition close_writer :: "os_env \<Rightarrow> writer \<Rightarrow> io_error option \<times> writer" where
  "close_writer E w =
     (if wr_closed w then (None, w)
      else (let (e0, w1) = flush_locked E (w\<lparr>wr_closed := True\<rparr>);
                (e1, f) = file_close E (wr_requests w1);
                (e2, g) = file_close E (wr_errors w1);
                (e3, h) = file_close E (wr_log w1)
            in (first_error [e0, e1, e2, e3], w1\<lparr>wr_requests := f, wr_errors := g, wr_log := h\<rparr>)))"

text \<open>\<^verbatim>\<open>CountDataRows\<close>: a file that can be read holds one line per row, the header first.\<close>

definition count_data_rows :: "string + string \<Rightarrow> string + int" where
  "count_data_rows content =
     (case content of
        Inl e \<Rightarrow> Inl e
      | Inr s \<Rightarrow> (let lines = int (newlines s) in Inr (if lines = 0 then 0 else lines - 1)))"

subsection \<open>The other files\<close>

definition time_series_header :: "string list" where
  "time_series_header = [''second'', ''sent'', ''completed'', ''success'', ''failure'', ''timeouts'',
     ''error_rate'', ''mean_latency_ms'', ''goroutines'', ''rss_peak_mb'', ''cpu_percent'',
     ''in_flight'', ''conns_open'']"

text \<open>The map from second to sample keeps the last sample of a second; a missing one is zero.\<close>

definition by_second :: "resource_sample list \<Rightarrow> int \<Rightarrow> resource_sample" where
  "by_second res sec = (case find (\<lambda>r. r_second r = sec) (rev res) of Some r \<Rightarrow> r | None \<Rightarrow> zero_sample)"

definition error_rate_of :: "second_row \<Rightarrow> f64" where
  "error_rate_of row =
     (if row_completed row > 0 then fdiv (f64_of_int (row_failure row)) (f64_of_int (row_completed row))
      else Fin 0)"

definition time_series_fields :: "resource_sample list \<Rightarrow> second_row \<Rightarrow> string list" where
  "time_series_fields res row =
     (let r = by_second res (row_second row) in
      [int_dec (row_second row), int_dec (row_sent row), int_dec (row_completed row),
       int_dec (row_success row), int_dec (row_failure row), int_dec (row_timeouts row),
       fmt_fixed 4 (error_rate_of row), fmt_fixed 3 (row_meanMS row), int_dec (r_goroutines r),
       fmt_fixed 1 (r_rssPeakMB r), fmt_fixed 1 (r_cpuPercent r), int_dec (r_inFlight r),
       int_dec (r_connsOpen r)])"

text \<open>\<^verbatim>\<open>closeCSV\<close>: flush the rows, flush the buffer under them if there is one of its own, close; the
  first failure after the one already there.\<close>

definition close_csv :: "os_env \<Rightarrow> bool \<Rightarrow> io_error option \<Rightarrow> out_file \<Rightarrow> io_error option \<times> out_file" where
  "close_csv E stacked err f =
     (let (e1, f1) = buf_flush E f;
          (e2, f2) = (if stacked then buf_flush E f1 else (None, f1));
          (e3, f3) = file_close E f2
      in (first_error [err, e1, e2, e3], f3))"

fun write_rows :: "os_env \<Rightarrow> string list list \<Rightarrow> out_file \<Rightarrow> io_error option \<times> out_file" where
  "write_rows E [] f = (None, f)"
| "write_rows E (r # rs) f =
     (case buf_write E (csv_row r) f of (Some e, f1) \<Rightarrow> (Some e, f1) | (None, f1) \<Rightarrow> write_rows E rs f1)"

text \<open>A whole file of rows behind a 4096-byte buffer, as \<^verbatim>\<open>WriteTimeSeries\<close> and the
  comparison table write one.\<close>

definition write_csv_file :: "os_env \<Rightarrow> bool \<Rightarrow> string \<Rightarrow> string list list \<Rightarrow> io_error option \<times> out_file option" where
  "write_csv_file E stacked path rows =
     (case os_open E path of
        Some e \<Rightarrow> (Some e, None)
      | None \<Rightarrow> (let (err, f) = write_rows E rows (open_file 4096 path);
                    (e, f1) = close_csv E stacked err f
                in (e, Some f1)))"

definition write_time_series ::
    "os_env \<Rightarrow> writer \<Rightarrow> second_row list \<Rightarrow> resource_sample list \<Rightarrow> io_error option \<times> out_file option" where
  "write_time_series E w rows res =
     write_csv_file E True (path_join [wr_dir w, ''timeseries.csv''])
       (time_series_header # map (time_series_fields res) rows)"

text \<open>\<^verbatim>\<open>WriteJSONFile\<close>: the encoder, a parameter, hands the document to the file in one write.\<close>

definition write_json_file ::
    "os_env \<Rightarrow> ('v \<Rightarrow> string + bytes) \<Rightarrow> string \<Rightarrow> 'v \<Rightarrow> io_error option \<times> out_file option" where
  "write_json_file E encode path v =
     (case os_open E path of
        Some e \<Rightarrow> (Some e, None)
      | None \<Rightarrow>
          (let (err, f) = (case encode v of Inl e \<Rightarrow> (Some e, open_file 0 path)
             | Inr b \<Rightarrow> map_prod (map_option snd) id (file_write E b (open_file 0 path)));
               (e, f1) = file_close E f
           in (first_error [err, e], Some f1)))"

definition write_json ::
    "os_env \<Rightarrow> ('v \<Rightarrow> string + bytes) \<Rightarrow> writer \<Rightarrow> string \<Rightarrow> 'v \<Rightarrow> io_error option \<times> out_file option" where
  "write_json E encode w name v = write_json_file E encode (path_join [wr_dir w, name]) v"

text \<open>A sample attempt.\<close>

definition demo_attempt :: "class_error option \<Rightarrow> attempt" where
  "demo_attempt err = \<lparr>a_stage = ''warm, up'', a_sequence = 1, a_scheduledAt = unix_epoch,
     a_startedAt = unix_epoch + 5000000, a_completedAt = unix_epoch + 125000000, a_scheduleLag = 5000000,
     a_total = 120000000, a_network = 110000000, a_verify = 10000000, a_httpStatus = 200, a_err = err,
     a_clockSkew = 0, a_warnings = []\<rparr>"

end
