(* ===== verification/Report_Summary.thy ===== *)
theory Report_Summary
  imports Report_Writer Runner "HOL-Library.List_Lexorder" "HOL-Library.Char_ord"
begin

text \<open>
  The result document, \<^verbatim>\<open>internal/report/summary.go\<close>.  Ranging over a Go map visits its
  entries in an unspecified order; the order is an argument, a list without repeated keys that
  denotes the map.  Strings compare bytewise.
\<close>

definition schema_version :: string where
  "schema_version = ''tsa-bench/v1''"

definition histogram_precision_note :: string where
  "histogram_precision_note =
     ''Percentiles come from a fixed-size HDR-style histogram with 3 significant '' @
     ''figures: each reported value is the upper bound of a bucket at most 1/2048 (about 0.05%) wide. '' @
     ''Minimum, maximum and mean are exact.''"

definition coordinated_omission_note :: string where
  "coordinated_omission_note =
     ''Requests are issued on an open-loop constant-arrival-rate schedule: request n is '' @
     ''due at start + n/rate regardless of when request n-1 finished. This avoids coordinated omission, '' @
     ''where a closed-loop client stops issuing requests while the server is slow and so never measures '' @
     ''the latency its own backlog would have seen. Any inability to hold the schedule is reported as '' @
     ''schedule lag and client saturation rather than being absorbed into a quietly lower rate.''"

subsection \<open>The document\<close>

record provider_info =
  pi_name :: string
  pi_endpoint :: string
  pi_environment :: string
  pi_authType :: string

record request_info =
  ri_hashAlgorithm :: string
  ri_payloadSize :: int
  ri_certReq :: bool
  ri_timeoutMS :: int
  ri_maxClockSkewS :: int
  ri_requireESS :: bool

record load_info =
  li_maxConcurrency :: int
  li_stagePauseS :: int
  li_lagThresholdMS :: int
  li_gracePeriodS :: int

record quota_info =
  qi_maxRequests :: int
  qi_hardCap :: int
  qi_profilePlanned :: int
  qi_profileReserve :: int
  qi_retries :: int

record tls_info =
  ti_minVersion :: string
  ti_insecureSkipVerify :: bool
  ti_caFile :: string
  ti_tsaTrustSource :: string
  ti_serverName :: string

record metadata =
  md_schema :: string
  md_runID :: string
  md_tool :: string
  md_version :: string
  md_goVersion :: string
  md_os :: string
  md_arch :: string
  md_hostname :: string
  md_startedAt :: time
  md_endedAt :: time
  md_commandLine :: string
  md_provider :: provider_info
  md_profileName :: string
  md_profileNote :: string
  md_request :: request_info
  md_load :: load_info
  md_quota :: quota_info
  md_tls :: tls_info
  md_warnings :: "string list"

record latency_stats =
  ls_count :: int
  ls_minMS :: f64
  ls_meanMS :: f64
  ls_p50MS :: f64
  ls_p90MS :: f64
  ls_p95MS :: f64
  ls_p99MS :: f64
  ls_maxMS :: f64
  ls_overflows :: int

definition latency_from :: "snapshot \<Rightarrow> latency_stats" where
  "latency_from s = \<lparr>ls_count = snap_Count s, ls_minMS = ms_float (snap_Min s),
     ls_meanMS = ms_float (snap_Mean s), ls_p50MS = ms_float (snap_P50 s),
     ls_p90MS = ms_float (snap_P90 s), ls_p95MS = ms_float (snap_P95 s),
     ls_p99MS = ms_float (snap_P99 s), ls_maxMS = ms_float (snap_Max s),
     ls_overflows = snap_Overflows s\<rparr>"

record error_count =
  ec_class :: string
  ec_count :: int
  ec_share :: f64

record warning_count =
  wc_message :: string
  wc_count :: int

record stage_summary =
  sy_name :: string
  sy_targetTPS :: f64
  sy_planned :: int
  sy_sent :: int
  sy_completed :: int
  sy_verified :: int
  sy_failed :: int
  sy_timeouts :: int
  sy_successRate :: f64
  sy_timeoutRate :: f64
  sy_durationS :: f64
  sy_actualSendTPS :: f64
  sy_completedTPS :: f64
  sy_latency :: latency_stats
  sy_networkLatency :: latency_stats
  sy_verifyLatency :: latency_stats
  sy_scheduleLag :: latency_stats
  sy_saturationEvents :: int
  sy_errors :: "error_count list"
  sy_warnings :: "warning_count list"

record summary =
  su_schema :: string
  su_metadata :: metadata
  su_stopReason :: string
  su_stopDetail :: string
  su_partial :: bool
  su_durationS :: f64
  su_quotaUsed :: int
  su_authRequests :: int
  su_quotaBudget :: int
  su_quotaRemaining :: int
  su_stages :: "stage_summary list"
  su_overall :: stage_summary
  su_resources :: peak
  su_resourceRows :: "resource_sample list"
  su_clientBottleneck :: bool
  su_clientBottleneckWhy :: string
  su_notes :: "string list"
  su_limitations :: "string list"

subsection \<open>Sorting\<close>

text \<open>\<^verbatim>\<open>sort.Slice\<close> on short slices is insertion sort.  Where the keys are distinct the
  result does not depend on the algorithm (\<open>sorted_unique\<close> below).\<close>

fun insert_by :: "('a \<Rightarrow> 'a \<Rightarrow> bool) \<Rightarrow> 'a \<Rightarrow> 'a list \<Rightarrow> 'a list" where
  "insert_by lt x [] = [x]"
| "insert_by lt x (y # ys) = (if lt y x then y # insert_by lt x ys else x # y # ys)"

definition sort_slice :: "('a \<Rightarrow> 'a \<Rightarrow> bool) \<Rightarrow> 'a list \<Rightarrow> 'a list" where
  "sort_slice lt xs = foldr (insert_by lt) xs []"

definition error_before :: "error_count \<Rightarrow> error_count \<Rightarrow> bool" where
  "error_before a b =
     (if ec_count a \<noteq> ec_count b then ec_count a > ec_count b else ec_class a < ec_class b)"

definition warning_before :: "warning_count \<Rightarrow> warning_count \<Rightarrow> bool" where
  "warning_before a b =
     (if wc_count a \<noteq> wc_count b then wc_count a > wc_count b else wc_message a < wc_message b)"

subsection \<open>A stage\<close>

definition ratio :: "int \<Rightarrow> int \<Rightarrow> f64" where
  "ratio n completed = (if completed > 0 then fdiv (f64_of_int n) (f64_of_int completed) else Fin 0)"

text \<open>The seconds of the send window, and the wall clock of the stage where there is none.\<close>

definition send_span :: "stage_stats \<Rightarrow> f64 option" where
  "send_span st =
     (case send_window st of (firstAt, lastAt, n) \<Rightarrow>
        if n \<ge> 2 then (let spn = duration_seconds (time_sub lastAt firstAt)
                       in if spn > Fin 0 then Some spn else None)
        else None)"

definition stage_duration :: "stage_stats \<Rightarrow> f64" where
  "stage_duration st =
     (let d = (case send_span st of Some spn \<Rightarrow> spn | None \<Rightarrow> Fin 0)
      in if feq d (Fin 0) \<and> \<not> is_zero_time (ss_startedAt st) \<and> ss_endedAt st > ss_startedAt st
         then duration_seconds (time_sub (ss_endedAt st) (ss_startedAt st)) else d)"

definition error_counts :: "int \<Rightarrow> (string \<times> int) list \<Rightarrow> error_count list" where
  "error_counts completed errs = sort_slice error_before
     (map (\<lambda>(k, n). \<lparr>ec_class = k, ec_count = n, ec_share = ratio n completed\<rparr>) errs)"

definition warning_counts :: "(string \<times> int) list \<Rightarrow> warning_count list" where
  "warning_counts ws = sort_slice warning_before (map (\<lambda>(k, n). \<lparr>wc_message = k, wc_count = n\<rparr>) ws)"

definition stage_summary_of ::
    "(string \<times> int) list \<Rightarrow> (string \<times> int) list \<Rightarrow> stage_stats \<Rightarrow> stage_summary" where
  "stage_summary_of errs ws st =
     (let completed = ss_completed st in
      \<lparr>sy_name = ss_name st, sy_targetTPS = ss_targetTPS st, sy_planned = ss_planned st,
       sy_sent = ss_sent st, sy_completed = completed, sy_verified = ss_success st,
       sy_failed = ss_failure st, sy_timeouts = ss_timeouts st,
       sy_successRate = ratio (ss_success st) completed,
       sy_timeoutRate = ratio (ss_timeouts st) completed,
       sy_durationS = stage_duration st, sy_actualSendTPS = achieved_tps st,
       sy_completedTPS =
         (case send_span st of Some spn \<Rightarrow> fdiv (f64_of_int completed) spn | None \<Rightarrow> Fin 0),
       sy_latency = latency_from (snapshot_of (ss_total st)),
       sy_networkLatency = latency_from (snapshot_of (ss_network st)),
       sy_verifyLatency = latency_from (snapshot_of (ss_verify st)),
       sy_scheduleLag = latency_from (snapshot_of (ss_lag st)),
       sy_saturationEvents = ss_saturated st,
       sy_errors = error_counts completed errs, sy_warnings = warning_counts ws\<rparr>)"

subsection \<open>The whole run\<close>

definition detect_bottleneck :: "int \<Rightarrow> config \<Rightarrow> summary \<Rightarrow> bool \<times> string" where
  "detect_bottleneck cpus cfg s =
     (let reasons =
        (if sy_saturationEvents (su_overall s) > 0
         then [''the scheduler could not release requests on time''] else []) @
        (if ls_p99MS (sy_scheduleLag (su_overall s)) > ms_float (lc_lagThreshold (cf_load cfg))
         then [''p99 schedule lag exceeded the configured threshold''] else []) @
        (if p_maxCPUPercent (su_resources s) \<ge> fmul (f64_of_int cpus) (Fin 90)
         then [''the client process approached full CPU saturation''] else []) @
        (if list_ex (\<lambda>st. sy_targetTPS st > Fin 0 \<and> sy_actualSendTPS st > Fin 0 \<and>
               sy_actualSendTPS st < fmul (sy_targetTPS st) (rnd (95 / 100))) (su_stages s)
         then [''at least one stage sent more than 5% below its target rate''] else [])
      in if reasons = [] then (False, []) else (True, join ''; '' reasons))"

definition limitations :: "world \<Rightarrow> config \<Rightarrow> string list" where
  "limitations w cfg =
     [''Results describe the service during this test window only. A live TSA is shared with real '' @
      ''customer traffic, so the same test at another time may produce different numbers.'',
      ''The highest sustained rate exercised is bounded by the profile; a stage that was not run '' @
      ''says nothing about behaviour at that rate.'',
      ''Certificate revocation (CRL/OCSP) is not checked during the run; doing so would add network '' @
      ''traffic that would distort the latency measurement.''] @
     map wn_limitation (filter (\<lambda>x. wn_limitation x \<noteq> []) (warnings w cfg))"

text \<open>The entries of the maps of an accumulator, in the order the two loops visit them.\<close>

type_synonym map_visit = "stage_stats \<Rightarrow> (string \<times> int) list \<times> (string \<times> int) list"

definition summarise :: "map_visit \<Rightarrow> stage_stats \<Rightarrow> stage_summary" where
  "summarise visit st = stage_summary_of (fst (visit st)) (snd (visit st)) st"

definition build_summary ::
    "map_visit \<Rightarrow> int \<Rightarrow> world \<Rightarrow> metadata \<Rightarrow> collector \<Rightarrow> outcome \<Rightarrow> resource_sample list option \<Rightarrow>
     config \<Rightarrow> summary" where
  "build_summary visit cpus w meta c out samples cfg =
     (let s0 = \<lparr>su_schema = schema_version, su_metadata = meta, su_stopReason = oc_reason out,
            su_stopDetail = oc_reasonDetail out, su_partial = oc_partial out,
            su_durationS = duration_seconds (time_sub (oc_endedAt out) (oc_startedAt out)),
            su_quotaUsed = oc_quotaUsed out, su_authRequests = oc_authRequests out,
            su_quotaBudget = oc_quotaBudget out,
            su_quotaRemaining = s64 (oc_quotaBudget out - oc_quotaUsed out),
            su_stages = map (summarise visit) (c_stages c),
            su_overall = (summarise visit (c_overall c))\<lparr>sy_name := ''overall''\<rparr>,
            su_resources = (case samples of None \<Rightarrow> zero_peak | Some ss \<Rightarrow> peak_of ss),
            su_resourceRows = (case samples of None \<Rightarrow> [] | Some ss \<Rightarrow> ss),
            su_clientBottleneck = False, su_clientBottleneckWhy = [], su_notes = [],
            su_limitations = []\<rparr>;
          (b, why) = detect_bottleneck cpus cfg s0
      in s0\<lparr>su_clientBottleneck := b, su_clientBottleneckWhy := why,
            su_notes := [histogram_precision_note, coordinated_omission_note],
            su_limitations := limitations w cfg\<rparr>)"

lemma build_summary_sel:
  "su_quotaUsed (build_summary v cpus w meta c out samples cfg) = oc_quotaUsed out"
  "su_quotaBudget (build_summary v cpus w meta c out samples cfg) = oc_quotaBudget out"
  "su_quotaRemaining (build_summary v cpus w meta c out samples cfg) = s64 (oc_quotaBudget out - oc_quotaUsed out)"
  "su_overall (build_summary v cpus w meta c out samples cfg) = (summarise v (c_overall c))\<lparr>sy_name := ''overall''\<rparr>"
  "su_stages (build_summary v cpus w meta c out samples cfg) = map (summarise v) (c_stages c)"
  by (simp_all add: build_summary_def Let_def split: prod.split)

lemma summarise_sent: "sy_sent (summarise v st) = ss_sent st"
  by (simp add: summarise_def stage_summary_of_def Let_def)

end
