(* ===== verification/Summary_Properties.thy ===== *)
theory Summary_Properties
  imports Report_Summary
begin

text \<open>
  The summary of a run is a function of the counters: it does not depend on the order in which Go
  visits a map, its error distribution accounts for every completed attempt, and its rates are
  proportions.
\<close>

subsection \<open>Sorting by a strict order\<close>

text \<open>The orders of the two tables are strict and total only on rows of one distribution, the set
  \<open>ok\<close>.\<close>

locale strict_order =
  fixes lt :: "'a \<Rightarrow> 'a \<Rightarrow> bool" and ok :: "'a set"
  assumes irrefl: "\<not> lt x x"
    and trans: "lt x y \<Longrightarrow> lt y z \<Longrightarrow> lt x z"
    and total: "x \<in> ok \<Longrightarrow> y \<in> ok \<Longrightarrow> x \<noteq> y \<Longrightarrow> lt x y \<or> lt y x"
begin

lemma set_insert_by [simp]: "set (insert_by lt x ys) = insert x (set ys)"
  by (induction ys) auto

lemma distinct_insert_by: "distinct ys \<Longrightarrow> x \<notin> set ys \<Longrightarrow> distinct (insert_by lt x ys)"
  by (induction ys) auto

lemma sorted_insert_by:
  "sorted_wrt lt ys \<Longrightarrow> insert x (set ys) \<subseteq> ok \<Longrightarrow> x \<notin> set ys \<Longrightarrow> sorted_wrt lt (insert_by lt x ys)"
proof (induction ys)
  case (Cons y ys)
  have "lt x y" if "\<not> lt y x" using total [of x y] Cons.prems that by auto
  with Cons show ?case by (auto intro: trans)
qed simp

lemma sort_slice_spec:
  "distinct xs \<Longrightarrow> set xs \<subseteq> ok \<Longrightarrow>
     sorted_wrt lt (sort_slice lt xs) \<and> set (sort_slice lt xs) = set xs \<and> distinct (sort_slice lt xs)"
proof (induction xs)
  case (Cons x xs)
  then have "sorted_wrt lt (sort_slice lt xs)" "set (sort_slice lt xs) = set xs" "distinct (sort_slice lt xs)"
    by auto
  with Cons.prems show ?case
    using sorted_insert_by [of "sort_slice lt xs" x] distinct_insert_by [of "sort_slice lt xs" x]
    by (auto simp: sort_slice_def)
qed (simp add: sort_slice_def)

lemma sorted_unique:
  "sorted_wrt lt xs \<Longrightarrow> sorted_wrt lt ys \<Longrightarrow> distinct xs \<Longrightarrow> distinct ys \<Longrightarrow> set xs = set ys \<Longrightarrow> xs = ys"
proof (induction xs arbitrary: ys)
  case (Cons x xs)
  then obtain y zs where ys: "ys = y # zs" by (cases ys) auto
  have "x = y"
  proof (rule ccontr)
    assume ne: "x \<noteq> y"
    have "y \<in> set xs" using Cons.prems(5) ys ne by (metis list.set_intros(1) set_ConsD)
    then have "lt x y" using Cons.prems(1) by simp
    moreover have "x \<in> set zs" using Cons.prems(5) ys ne by (metis list.set_intros(1) set_ConsD)
    then have "lt y x" using Cons.prems(2) ys by simp
    ultimately show False using trans irrefl by blast
  qed
  moreover have "set xs = set zs" using Cons.prems(3,4,5) ys \<open>x = y\<close> by (metis Diff_insert_absorb distinct.simps(2) list.simps(15))
  ultimately show ?case using Cons ys by auto
qed simp

lemma sort_order_irrelevant:
  assumes "distinct xs" "distinct ys" "set xs = set ys" "set xs \<subseteq> ok"
  shows "sort_slice lt xs = sort_slice lt ys"
  using sort_slice_spec [OF assms(1,4)] sort_slice_spec [of ys] assms
  by (intro sorted_unique) auto

end

definition error_row_of :: "int \<Rightarrow> string \<times> int \<Rightarrow> error_count" where
  "error_row_of completed = (\<lambda>(k, n). \<lparr>ec_class = k, ec_count = n, ec_share = ratio n completed\<rparr>)"

definition warning_row_of :: "string \<times> int \<Rightarrow> warning_count" where
  "warning_row_of = (\<lambda>(k, n). \<lparr>wc_message = k, wc_count = n\<rparr>)"

interpretation err_order: strict_order error_before "range (error_row_of completed)" for completed
  by unfold_locales (auto simp: error_before_def error_row_of_def split: if_splits)

interpretation warn_order: strict_order warning_before "range warning_row_of"
  by unfold_locales (auto simp: warning_before_def warning_row_of_def split: if_splits)

lemma row_of_inj: "inj (error_row_of completed)" "inj warning_row_of"
  by (auto simp: inj_def error_row_of_def warning_row_of_def split: prod.splits)

lemma error_counts_eq: "error_counts completed es = sort_slice error_before (map (error_row_of completed) es)"
  by (simp add: error_counts_def error_row_of_def)

lemma warning_counts_eq: "warning_counts ws = sort_slice warning_before (map warning_row_of ws)"
  by (simp add: warning_counts_def warning_row_of_def)

subsection \<open>Visits of a map\<close>

definition visits :: "('k \<times> 'v) list \<Rightarrow> ('k \<rightharpoonup> 'v) \<Rightarrow> bool" where
  "visits es m \<longleftrightarrow> distinct (map fst es) \<and> map_of es = m"

lemma visits_set: "visits es m \<Longrightarrow> set es = {(k, v). m k = Some v}"
  by (auto simp: visits_def)

lemma visits_distinct: "visits es m \<Longrightarrow> distinct es"
  by (simp add: visits_def distinct_map)

definition valid_visit :: "map_visit \<Rightarrow> stage_stats \<Rightarrow> bool" where
  "valid_visit visit st \<longleftrightarrow> visits (fst (visit st)) (ss_errors st) \<and> visits (snd (visit st)) (ss_warnings st)"

lemma error_counts_visits:
  assumes "visits es m" "visits es' m"
  shows "error_counts completed es = error_counts completed es'"
  unfolding error_counts_eq
  using visits_distinct [OF assms(1)] visits_distinct [OF assms(2)] visits_set [OF assms(1)] visits_set [OF assms(2)]
  by (intro err_order.sort_order_irrelevant [where completed = completed])
    (auto simp: distinct_map inj_on_subset [OF row_of_inj(1)])

lemma warning_counts_visits:
  assumes "visits ws m" "visits ws' m"
  shows "warning_counts ws = warning_counts ws'"
  unfolding warning_counts_eq
  using visits_distinct [OF assms(1)] visits_distinct [OF assms(2)] visits_set [OF assms(1)] visits_set [OF assms(2)]
  by (intro warn_order.sort_order_irrelevant) (auto simp: distinct_map inj_on_subset [OF row_of_inj(2)])

lemma summarise_visits: "valid_visit v st \<Longrightarrow> valid_visit v' st \<Longrightarrow> summarise v st = summarise v' st"
  using error_counts_visits warning_counts_visits
  by (simp add: summarise_def stage_summary_of_def valid_visit_def Let_def) metis

subsection \<open>Proportions\<close>

lemma f64_of_nat_grid: "0 \<le> n \<Longrightarrow> n < 2 ^ 63 \<Longrightarrow> f64_of_int n = Fin (grid (of_int n)) \<and> 0 \<le> grid (of_int n)"
proof -
  assume n: "0 \<le> n" "n < 2 ^ 63"
  then have "(of_int n :: rat) \<le> of_int (2 ^ 63)" by (simp only: of_int_le_iff)
  then have "\<bar>of_int n :: rat\<bar> \<le> 2 ^ 1023" using n(1) by simp
  then show ?thesis using rnd_bounded(1) grid_nonneg n(1) by (simp add: f64_of_int_def)
qed

lemma ratio_unit: "0 \<le> n \<Longrightarrow> n \<le> m \<Longrightarrow> m < 2 ^ 63 \<Longrightarrow> Fin 0 \<le> ratio n m \<and> ratio n m \<le> Fin 1"
proof (cases "0 < m")
  case True
  assume n: "0 \<le> n" "n \<le> m" "m < 2 ^ 63"
  let ?a = "grid (of_int n)" and ?b = "grid (of_int m)"
  have a: "f64_of_int n = Fin ?a" "0 \<le> ?a" and b: "f64_of_int m = Fin ?b"
    using f64_of_nat_grid [of n] f64_of_nat_grid [of m] n by auto
  have one: "1 \<le> ?b" using True by (intro grid_ge_rep) (auto simp: grid_of_int [of 1, simplified])
  have ab: "?a \<le> ?b" using n by (intro grid_mono) simp
  have "?a / ?b \<le> 1" "0 \<le> ?a / ?b" using a(2) ab one by simp_all
  then have "rnd (?a / ?b) \<le> Fin 1" "Fin 0 \<le> rnd (?a / ?b)"
    using rnd_mono [of "?a / ?b" 1] rnd_mono [of 0 "?a / ?b"] by simp_all
  then show ?thesis using True one by (simp add: ratio_def a(1) b)
qed (simp add: ratio_def)

subsection \<open>Properties\<close>

text \<open>C31: The summary is determined by the counters.  Whatever order Go visits the error and warning
  maps in, the document is the same, its tables included.\<close>

theorem summary_deterministic:
  assumes "\<And>st. st \<in> set (c_overall c # c_stages c) \<Longrightarrow> valid_visit v st \<and> valid_visit v' st"
  shows "build_summary v cpus w meta c out samples cfg = build_summary v' cpus w meta c out samples cfg"
proof -
  have "summarise v st = summarise v' st" if "st \<in> set (c_overall c # c_stages c)" for st
    using assms [OF that] summarise_visits by blast
  then have "map (summarise v) (c_stages c) = map (summarise v') (c_stages c)"
    "summarise v (c_overall c) = summarise v' (c_overall c)" by simp_all
  then show ?thesis by (simp only: build_summary_def)
qed

lemma visits_tally:
  assumes "visits es (tally ks)"
  shows "(k, n) \<in> set es \<longleftrightarrow> k \<in> set ks \<and> n = s64 (int (count_list ks k))"
  using visits_set [OF assms] by (auto simp: tally_def split: if_splits)

lemma sum_counts:
  assumes "visits es (tally ks)" "int (length ks) < 2 ^ 63"
  shows "sum_list (map snd es) = int (length ks)"
proof -
  have n: "n = int (count_list ks k)" if "(k, n) \<in> set es" for k n
    using visits_tally [OF assms(1), of k n] that count_list_le [of ks k] assms(2) by simp
  have keys: "set (map fst es) = set ks" "distinct (map fst es)"
    using visits_tally [OF assms(1)] assms(1) by (force simp: visits_def)+
  have "sum_list (map snd es) = (\<Sum>k\<leftarrow>map fst es. int (count_list ks k))"
    using n by (force intro!: arg_cong [where f = sum_list])
  also have "\<dots> = (\<Sum>k\<in>set ks. int (count_list ks k))"
    using keys by (simp only: sum_list_distinct_conv_sum_set)
  also have "\<dots> = int (length ks)"
    by (simp add: sum_count_set flip: of_nat_sum)
  finally show ?thesis .
qed

lemma sorted_errors:
  assumes "visits es m"
  shows "sorted_wrt error_before (error_counts completed es)"
    "set (error_counts completed es) = error_row_of completed ` set es"
    "distinct (error_counts completed es)"
  using err_order.sort_slice_spec [of "map (error_row_of completed) es" completed] visits_distinct [OF assms]
  by (auto simp: error_counts_eq distinct_map inj_on_subset [OF row_of_inj(1)])

lemma sum_error_counts:
  assumes "visits es m"
  shows "sum_list (map ec_count (error_counts completed es)) = sum_list (map snd es)"
proof -
  have d: "distinct (map (error_row_of completed) es)"
    using visits_distinct [OF assms] by (simp add: distinct_map inj_on_subset [OF row_of_inj(1)])
  have "mset (error_counts completed es) = mset (map (error_row_of completed) es)"
    using sorted_errors [OF assms, of completed] d
    by (intro set_eq_iff_mset_eq_distinct [THEN iffD1]) auto
  then have "mset (map ec_count (error_counts completed es)) = mset (map ec_count (map (error_row_of completed) es))"
    by (metis mset_map)
  then have "sum_list (map ec_count (error_counts completed es)) =
      sum_list (map ec_count (map (error_row_of completed) es))"
    by (metis sum_mset_sum_list)
  also have "map ec_count (map (error_row_of completed) es) = map snd es"
    by (simp add: error_row_of_def split_beta)
  finally show ?thesis .
qed

lemma wrapped_exact: "int (length xs) < 2 ^ 63 \<Longrightarrow> wrapped_count P xs = int (length (filter P xs))"
proof -
  assume n: "int (length xs) < 2 ^ 63"
  have "length (filter P xs) \<le> length xs" by simp
  then have "int (length (filter P xs)) < 2 ^ 63" using n by linarith
  then show ?thesis by (simp add: wrapped_count_def)
qed

lemma count_list_pos: "0 < count_list xs x \<longleftrightarrow> x \<in> set xs"
  by (metis count_list_0_iff gr0I less_irrefl)

definition with_key :: "string \<Rightarrow> attempt list \<Rightarrow> int" where
  "with_key k as = int (count_list (map attempt_error_key as) k)"

lemma stage_rel_summary:
  assumes "stage_rel st g" "valid_visit v st" "int (length (attempts g)) < 2 ^ 63"
  defines "S \<equiv> summarise v st"
  shows "sy_completed S = int (length (attempts g))"
    and "sy_verified S = int (length (filter succeeded (attempts g)))"
    and "sy_failed S = int (length (filter (\<lambda>a. \<not> succeeded a) (attempts g)))"
    and "sum_list (map ec_count (sy_errors S)) = sy_completed S"
    and "sorted_wrt error_before (sy_errors S)"
    and "e \<in> set (sy_errors S) \<Longrightarrow> ec_count e = with_key (ec_class e) (attempts g) \<and> 0 < ec_count e \<and>
       ec_share e = ratio (ec_count e) (sy_completed S)"
    and "0 < with_key k (attempts g) \<Longrightarrow> k \<in> ec_class ` set (sy_errors S)"
    and "Fin 0 \<le> sy_successRate S \<and> sy_successRate S \<le> Fin 1"
    and "Fin 0 \<le> sy_timeoutRate S \<and> sy_timeoutRate S \<le> Fin 1"
proof -
  let ?as = "attempts g" and ?ks = "map attempt_error_key (attempts g)"
  have w: "wrapped_count P ?as = int (length (filter P ?as))" for P by (rule wrapped_exact [OF assms(3)])
  have r: "ss_completed st = int (length ?as)" "ss_success st = int (length (filter succeeded ?as))"
    "ss_failure st = int (length (filter (\<lambda>a. \<not> succeeded a) ?as))"
    "ss_timeouts st = int (length (filter timed_out ?as))"
    using assms(1) by (simp_all add: stage_rel_def w)
  have v: "visits (fst (v st)) (tally ?ks)" using assms(1,2) by (simp add: stage_rel_def valid_visit_def)
  have S: "sy_completed S = ss_completed st" "sy_verified S = ss_success st" "sy_failed S = ss_failure st"
    "sy_errors S = error_counts (ss_completed st) (fst (v st))"
    "sy_successRate S = ratio (ss_success st) (ss_completed st)"
    "sy_timeoutRate S = ratio (ss_timeouts st) (ss_completed st)"
    by (simp_all add: S_def summarise_def stage_summary_of_def Let_def)
  show "sy_completed S = int (length ?as)" "sy_verified S = int (length (filter succeeded ?as))"
    "sy_failed S = int (length (filter (\<lambda>a. \<not> succeeded a) ?as))" by (simp_all add: S r)
  show "sum_list (map ec_count (sy_errors S)) = sy_completed S"
    using sum_counts [OF v] assms(3) by (simp add: S r sum_error_counts [OF v])
  show "sorted_wrt error_before (sy_errors S)" by (simp add: S sorted_errors [OF v])
  have n: "s64 (int (count_list ?ks k)) = int (count_list ?ks k)" for k
    using count_list_le [of ?ks k] assms(3) by simp
  show "e \<in> set (sy_errors S) \<Longrightarrow> ec_count e = with_key (ec_class e) ?as \<and> 0 < ec_count e \<and>
      ec_share e = ratio (ec_count e) (sy_completed S)"
    using visits_tally [OF v] by (auto simp: S sorted_errors [OF v] error_row_of_def with_key_def n count_list_pos)
  show "k \<in> ec_class ` set (sy_errors S)" if "0 < with_key k ?as"
  proof -
    have "(k, int (count_list ?ks k)) \<in> set (fst (v st))"
      using that count_list_pos [of ?ks k] by (simp add: visits_tally [OF v] n with_key_def)
    then have "error_row_of (ss_completed st) (k, int (count_list ?ks k)) \<in> set (sy_errors S)"
      by (simp add: S sorted_errors [OF v])
    then show ?thesis by (force simp: error_row_of_def)
  qed
  have le: "int (length (filter P ?as)) \<le> int (length ?as)" for P by simp
  show "Fin 0 \<le> sy_successRate S \<and> sy_successRate S \<le> Fin 1"
    unfolding S r by (rule ratio_unit [OF _ le assms(3)]) simp
  show "Fin 0 \<le> sy_timeoutRate S \<and> sy_timeoutRate S \<le> Fin 1"
    unfolding S r by (rule ratio_unit [OF _ le assms(3)]) simp
qed


text \<open>Two attempts, one of them failed, and the two orders of visiting their error map.\<close>

definition demo_failure :: attempt where
  "demo_failure = demo_attempt (Some (new_error HTTP5xx ''unavailable''))"

definition two_history :: "coll_op list" where
  "two_history = [Register ''smoke'' (Fin 1) 3, Recorded 0 (demo_attempt None), Recorded 0 demo_failure]"

definition two_collector :: collector where
  "two_collector = record_attempt 0 demo_failure (record_attempt 0 (demo_attempt None)
     (snd (register_stage ''smoke'' (Fin 1) 3 (new_collector 0))))"

lemma two_collected: "collected 0 two_history two_collector" "length (c_stages two_collector) = 1"
proof -
  have n: "length (c_stages (record_attempt 0 a c)) = length (c_stages c)" for a c
    by (simp add: record_attempt_def update_second_def second_of_def update_overall_def update_stage_def Let_def)
  define c where "c = snd (register_stage ''smoke'' (Fin 1) 3 (new_collector 0))"
  have c: "length (c_stages c) = 1" by (simp add: c_def register_stage_def new_collector_def)
  have "collected 0 [Register ''smoke'' (Fin 1) 3] c"
    using collected.step [OF collected.start, where x = "Register ''smoke'' (Fin 1) 3"] by (simp add: c_def)
  from collected.step [OF this, where x = "Recorded 0 (demo_attempt None)"] c
  have "collected 0 [Register ''smoke'' (Fin 1) 3, Recorded 0 (demo_attempt None)] (record_attempt 0 (demo_attempt None) c)"
    by simp
  from collected.step [OF this, where x = "Recorded 0 demo_failure"] c n
  show "collected 0 two_history two_collector" "length (c_stages two_collector) = 1"
    by (simp_all add: two_history_def two_collector_def flip: c_def)
qed

lemma two_visits:
  assumes "st = c_overall two_collector \<or> st \<in> set (c_stages two_collector)"
  shows "valid_visit (\<lambda>_. ([(''ok'', 1), (''http_5xx'', 1)], [])) st"
    and "valid_visit (\<lambda>_. ([(''http_5xx'', 1), (''ok'', 1)], [])) st"
proof -
  have "attempts (filter (\<lambda>x. op_target x = Some 0) two_history) = attempts two_history"
    by (simp add: two_history_def)
  then obtain g where "stage_rel st g" and g: "attempts g = attempts two_history"
    using assms collected_rel [OF two_collected(1)] two_collected(2)
    by (auto simp: coll_rel_def in_set_conv_nth)
  moreover have "map attempt_error_key (attempts two_history) = [''ok'', ''http_5xx'']"
    "concat (map a_warnings (attempts two_history)) = []"
    by (simp_all add: two_history_def demo_failure_def demo_attempt_def attempt_error_key_def error_key_def new_error_def)
  ultimately have "ss_errors st = tally [''ok'', ''http_5xx'']" "ss_warnings st = tally []"
    by (simp_all add: stage_rel_def)
  moreover have "visits es (tally [''ok'', ''http_5xx''])"
    if "es = [(''ok'', 1), (''http_5xx'', 1)] \<or> es = [(''http_5xx'', 1), (''ok'', 1)]" for es
    using that by (auto simp: visits_def tally_def fun_eq_iff)
  moreover have "visits [] (tally [])" by (simp add: visits_def tally_def fun_eq_iff)
  ultimately show "valid_visit (\<lambda>_. ([(''ok'', 1), (''http_5xx'', 1)], [])) st"
    "valid_visit (\<lambda>_. ([(''http_5xx'', 1), (''ok'', 1)], [])) st" by (simp_all add: valid_visit_def)
qed


theorem summary_deterministic_witness:
  "\<forall>W meta out cfg. build_summary (\<lambda>_. ([(''ok'', 1), (''http_5xx'', 1)], [])) 8 W meta two_collector out None cfg =
     build_summary (\<lambda>_. ([(''http_5xx'', 1), (''ok'', 1)], [])) 8 W meta two_collector out None cfg"
  using two_visits by (intro allI summary_deterministic) auto

end
