(* ===== verification/Report_Audit.thy ===== *)
theory Report_Audit
  imports Report_Writer
begin

text \<open>
  What the audit record of a run is worth.  The abstract view of the writer is the list of the
  attempts handed to it: when closing it reports no error, both files hold exactly that list, and
  reading requests.csv gives back every number and instant of it.
\<close>

datatype writer_op = WriteAttempt attempt | FlushRows

fun writer_step :: "os_env \<Rightarrow> writer \<Rightarrow> writer_op \<Rightarrow> writer" where
  "writer_step E w (WriteAttempt a) = snd (write_attempt E a w)"
| "writer_step E w FlushRows = snd (flush_locked E w)"

definition run_writer :: "os_env \<Rightarrow> writer_op list \<Rightarrow> writer \<Rightarrow> writer" where
  "run_writer E ops w = foldl (writer_step E) w ops"

fun attempts_of :: "writer_op list \<Rightarrow> attempt list" where
  "attempts_of [] = []"
| "attempts_of (WriteAttempt a # ops) = a # attempts_of ops"
| "attempts_of (FlushRows # ops) = attempts_of ops"

lemma attempts_of_append [simp]: "attempts_of (xs @ ys) = attempts_of xs @ attempts_of ys"
  by (induction xs rule: attempts_of.induct) auto

definition request_rows :: "attempt list \<Rightarrow> string list list" where
  "request_rows as = request_header # map request_row as"

definition error_rows :: "attempt list \<Rightarrow> string list list" where
  "error_rows as = error_header #
     concat (map (\<lambda>a. case a_err a of None \<Rightarrow> [] | Some e \<Rightarrow> [error_row a e]) as)"

lemma rows_snoc [simp]:
  "request_rows (as @ [a]) = request_rows as @ [request_row a]"
  "error_rows (as @ [a]) = error_rows as @ (case a_err a of None \<Rightarrow> [] | Some e \<Rightarrow> [error_row a e])"
  by (simp_all add: request_rows_def error_rows_def)

subsection \<open>The invariant\<close>

definition files_hold :: "attempt list \<Rightarrow> writer \<Rightarrow> bool" where
  "files_hold as w \<longleftrightarrow> \<not> wr_closed w \<and> holds (csv_text (request_rows as)) (wr_requests w) \<and>
     (of_err (wr_requests w) = None \<longrightarrow>
        holds (csv_text (error_rows as)) (wr_errors w) \<and> wr_rows w = s64 (int (length as)))"

lemma buf_write_stuck: "buf_write E s f = (r, f') \<Longrightarrow> of_err f \<noteq> None \<Longrightarrow> f' = f"
  by (simp add: buf_write_def)

lemma buf_flush_stuck: "buf_flush E f = (r, f') \<Longrightarrow> of_err f \<noteq> None \<Longrightarrow> f' = f"
  by (simp add: buf_flush_def)

lemma new_writer_holds: "new_writer E dir = Inr w \<Longrightarrow> files_hold [] w"
proof -
  assume "new_writer E dir = Inr w"
  then obtain rf0 rf ef0 ef lf where
    rf0: "open_or E dir 262144 ''requests.csv'' = Inr rf0" and rf: "start_csv E request_header rf0 = Inr rf"
    and ef0: "open_or E dir 65536 ''errors.csv'' = Inr ef0" and ef: "start_csv E error_header ef0 = Inr ef"
    and w: "w = \<lparr>wr_dir = dir, wr_requests = rf, wr_errors = ef, wr_log = lf, wr_rows = 0, wr_closed = False\<rparr>"
    by (auto simp: new_writer_def split: option.splits sum.splits)
  have o: "holds [] f" if "open_or E dir n p = Inr f" for n p f
    using that by (auto simp: open_or_def Let_def split: option.splits)
  have h: "holds (csv_row hdr) f'" if "start_csv E hdr f = Inr f'" "holds [] f" for hdr f f'
    using that buf_write_holds [of E "csv_row hdr" f _ f' "[]"]
    by (auto simp: start_csv_def split: prod.splits option.splits)
  show ?thesis using h [OF rf o [OF rf0]] h [OF ef o [OF ef0]]
    by (simp add: w files_hold_def request_rows_def error_rows_def)
qed

lemma write_attempt_holds:
  assumes "files_hold as w"
  shows "files_hold (as @ [a]) (snd (write_attempt E a w))"
proof -
  let ?row = "csv_row (request_row a)"
  obtain r f where b: "buf_write E ?row (wr_requests w) = (r, f)" by force
  have h: "holds (csv_text (request_rows (as @ [a]))) f" "r = of_err f"
    using buf_write_holds [OF b, of "csv_text (request_rows as)"] assms by (simp_all add: files_hold_def)
  have c: "\<not> wr_closed w" using assms by (simp add: files_hold_def)
  show ?thesis
  proof (cases r)
    case (Some e)
    then have "of_err f = Some e" using h(2) by simp
    then show ?thesis using Some b h(1) c by (simp add: write_attempt_def files_hold_def)
  next
    case None
    then have ok: "of_err (wr_requests w) = None" using b buf_write_stuck [OF b] h(2) by metis
    then have e: "holds (csv_text (error_rows as)) (wr_errors w)" and n: "wr_rows w = s64 (int (length as))"
      using assms by (auto simp: files_hold_def)
    have n': "inc (wr_rows w) = s64 (int (length (as @ [a])))" by (simp add: n inc_def add.commute)
    show ?thesis
    proof (cases "a_err a")
      case None
      then show ?thesis using \<open>r = None\<close> b h e c n' by (simp add: write_attempt_def files_hold_def Let_def)
    next
      case (Some x)
      obtain r2 g where g: "buf_write E (csv_row (error_row a x)) (wr_errors w) = (r2, g)" by force
      have "holds (csv_text (error_rows (as @ [a]))) g"
        using buf_write_holds [OF g e] Some by simp
      then show ?thesis using Some \<open>r = None\<close> b h g c n'
        by (simp add: write_attempt_def files_hold_def Let_def)
    qed
  qed
qed

lemma buf_flush_again: "buf_flush E f = (None, f') \<Longrightarrow> holds t f \<Longrightarrow> buf_flush E f' = (None, f')"
  using buf_flush_holds [of E f None f' t] by (auto simp: buf_flush_def)

lemma flush_locked_holds:
  assumes "files_hold as w" "flush_locked E w = (r, w')"
  shows "files_hold as w'" and "r = None \<Longrightarrow> of_err (wr_requests w') = None \<and>
    of_disk (wr_requests w') = csv_text (request_rows as) \<and>
    of_disk (wr_errors w') = csv_text (error_rows as) \<and> wr_rows w' = wr_rows w"
proof -
  obtain r1 f where f: "buf_flush E (wr_requests w) = (r1, f)" by force
  obtain r2 g where g: "buf_flush E (wr_errors w) = (r2, g)" by force
  have c: "\<not> wr_closed w" and R: "holds (csv_text (request_rows as)) (wr_requests w)"
    using assms(1) by (auto simp: files_hold_def)
  note hf = buf_flush_holds [OF f R]
  have "files_hold as w' \<and> (r = None \<longrightarrow> of_err (wr_requests w') = None \<and>
    of_disk (wr_requests w') = csv_text (request_rows as) \<and>
    of_disk (wr_errors w') = csv_text (error_rows as) \<and> wr_rows w' = wr_rows w)"
  proof (cases r1)
    case (Some e)
    then have "of_err f \<noteq> None" using hf by simp
    then show ?thesis using Some f assms(2) hf c by (auto simp: flush_locked_def files_hold_def)
  next
    case None
    then have ok: "of_err (wr_requests w) = None" using f buf_flush_stuck [OF f] hf by metis
    then have e: "holds (csv_text (error_rows as)) (wr_errors w)" and n: "wr_rows w = s64 (int (length as))"
      using assms(1) by (auto simp: files_hold_def)
    note hg = buf_flush_holds [OF g e]
    note f2 = buf_flush_again [OF f [unfolded None] R]
    show ?thesis
    proof (cases r2)
      case (Some x)
      then show ?thesis using None f g assms(2) hf hg c n by (auto simp: flush_locked_def files_hold_def)
    next
      case None
      note g2 = buf_flush_again [OF g [unfolded None] e]
      show ?thesis using \<open>r1 = None\<close> None f g f2 g2 assms(2) hf hg c n
        by (auto simp: flush_locked_def files_hold_def)
    qed
  qed
  then show "files_hold as w'" and "r = None \<Longrightarrow> of_err (wr_requests w') = None \<and>
    of_disk (wr_requests w') = csv_text (request_rows as) \<and>
    of_disk (wr_errors w') = csv_text (error_rows as) \<and> wr_rows w' = wr_rows w" by blast+
qed

lemma run_writer_holds: "files_hold [] w \<Longrightarrow> files_hold (attempts_of ops) (run_writer E ops w)"
proof (induction ops rule: rev_induct)
  case (snoc op ops)
  then have ih: "files_hold (attempts_of ops) (foldl (writer_step E) w ops)" by (simp add: run_writer_def)
  show ?case
  proof (cases op)
    case (WriteAttempt a)
    then show ?thesis using write_attempt_holds [OF ih] by (simp add: run_writer_def)
  next
    case FlushRows
    then show ?thesis
      using flush_locked_holds(1) [OF ih, of E "fst (flush_locked E (foldl (writer_step E) w ops))"]
      by (simp add: run_writer_def)
  qed
qed (simp add: run_writer_def)

lemma first_error_None: "first_error es = None \<longleftrightarrow> (\<forall>e \<in> set es. e = None)"
  by (induction es rule: first_error.induct) auto

lemma close_writer_complete:
  assumes "files_hold as w" "close_writer E w = (None, w')"
  shows "of_disk (wr_requests w') = csv_text (request_rows as) \<and>
    of_disk (wr_errors w') = csv_text (error_rows as) \<and> wr_rows w' = s64 (int (length as)) \<and> wr_closed w'"
proof -
  obtain e0 w1 where fl: "flush_locked E (w\<lparr>wr_closed := True\<rparr>) = (e0, w1)" by force
  obtain e0' w2 where fl2: "flush_locked E w = (e0', w2)" by force
  have eq: "e0 = e0'" "wr_requests w1 = wr_requests w2" "wr_errors w1 = wr_errors w2" "wr_rows w1 = wr_rows w2"
    "wr_closed w1"
    using fl fl2 by (auto simp: flush_locked_def split: prod.splits option.splits)
  obtain e1 f where f: "file_close E (wr_requests w1) = (e1, f)" by force
  obtain e2 g where g: "file_close E (wr_errors w1) = (e2, g)" by force
  have c: "\<not> wr_closed w" using assms(1) by (simp add: files_hold_def)
  have e0: "e0 = None" and w': "wr_requests w' = f" "wr_errors w' = g" "wr_rows w' = wr_rows w1" "wr_closed w'"
    using assms(2) c fl f g eq(5)
    by (auto simp: close_writer_def Let_def first_error_None split: prod.splits)
  have "of_disk f = of_disk (wr_requests w1)" "of_disk g = of_disk (wr_errors w1)"
    using file_close_holds [OF f] file_close_holds [OF g] by simp_all
  then show ?thesis
    using flush_locked_holds [OF assms(1) fl2] e0 eq w' by (auto simp: files_hold_def)
qed

subsection \<open>Lines\<close>

lemma newlines_digits: "list_all is_digit s \<Longrightarrow> newlines s = 0"
  by (induction s) (auto simp: is_digit_def byte_def)

lemma newlines_numbers [simp]:
  "newlines (nat_dec n) = 0" "newlines (pad_dec k n) = 0" "newlines (int_dec i) = 0"
proof -
  show d: "newlines (nat_dec n) = 0" for n by (rule newlines_digits [OF digits_nat_dec])
  show "newlines (pad_dec k n) = 0" by (rule newlines_digits [OF digits_pad_dec])
  show "newlines (int_dec i) = 0" using d by (simp add: int_dec_def)
qed

lemma newlines_frac [simp]: "newlines (fmt_frac n k) = 0"
proof -
  have "CHR 0x0A \<notin> set (pad_dec k m)" for m
    using digits_pad_dec [of k m] by (auto simp: list_all_iff is_digit_def byte_def)
  then have "CHR 0x0A \<notin> set (fmt_frac n k)"
    by (auto simp: fmt_frac_def Let_def dest!: set_dropWhileD split: if_splits)
  then show ?thesis by (simp add: count_list_0_iff)
qed

lemma newlines_formats [simp]: "newlines (ts t) = 0" "newlines (ms d) = 0"
proof -
  have "newlines (fmt_fixed n x) = 0" for n x
    by (auto simp: fmt_fixed_def Let_def split: f64.split)
  then show "newlines (ms d) = 0" by (simp add: ms_def)
  show "newlines (ts t) = 0"
    by (simp add: ts_def format_rfc3339_nano_def go_year_def Let_def split: prod.split)
qed

text \<open>The line feeds in the texts of an attempt: only its stage name and its error key can hold one.\<close>

definition row_newlines :: "attempt \<Rightarrow> nat" where
  "row_newlines a = newlines (a_stage a) + newlines (error_class_field a)"

lemma newlines_request_row: "sum_list (map newlines (request_row a)) = row_newlines a"
  by (simp add: request_row_def row_newlines_def)

lemma newlines_header: "sum_list (map newlines request_header) = 0"
  by (simp add: request_header_def)

lemma count_request_rows:
  "count_data_rows (Inr (csv_text (request_rows as))) =
     Inr (int (length as) + int (\<Sum>a\<leftarrow>as. row_newlines a))"
  by (simp add: count_data_rows_def newlines_text request_rows_def newlines_header
      newlines_request_row comp_def Let_def)

lemma rows_nonempty: "[] \<notin> set (request_rows as)" "[] \<notin> set (error_rows as)"
  by (auto simp: request_rows_def error_rows_def request_header_def error_header_def request_row_def
      error_row_def split: option.splits)

subsection \<open>Entries\<close>

text \<open>What a row of requests.csv says, read without knowledge of the attempt.\<close>

record audit_entry =
  en_sequence :: int
  en_stage :: string
  en_scheduledAt :: time
  en_startedAt :: time
  en_completedAt :: time
  en_httpStatus :: int
  en_verified :: bool
  en_errorKey :: string

definition read_int :: "string \<Rightarrow> int" where
  "read_int s = (if s \<noteq> [] \<and> hd s = CHR ''-'' then - num (tl s) else num s)"

definition read_ts :: "string \<Rightarrow> time" where
  "read_ts s = (if s = [] then 0 else read_rfc3339 s)"

definition read_entry :: "string list \<Rightarrow> audit_entry" where
  "read_entry fs = \<lparr>en_sequence = read_int (fs ! 0), en_stage = fs ! 1, en_scheduledAt = read_ts (fs ! 2),
     en_startedAt = read_ts (fs ! 3), en_completedAt = read_ts (fs ! 4),
     en_httpStatus = read_int (fs ! 9), en_verified = (fs ! 10 = ''verified''), en_errorKey = fs ! 11\<rparr>"

definition entry_of :: "attempt \<Rightarrow> audit_entry" where
  "entry_of a = \<lparr>en_sequence = a_sequence a, en_stage = a_stage a, en_scheduledAt = a_scheduledAt a,
     en_startedAt = a_startedAt a, en_completedAt = a_completedAt a, en_httpStatus = a_httpStatus a,
     en_verified = succeeded a, en_errorKey = error_class_field a\<rparr>"

definition dated :: "time \<Rightarrow> bool" where
  "dated t \<longleftrightarrow> 0 \<le> t \<and> t < year_10000"

lemma nat_dec_head: "nat_dec n \<noteq> [] \<and> hd (nat_dec n) \<noteq> CHR ''-''"
proof -
  have ne: "nat_dec n \<noteq> []" by (subst nat_dec.simps) simp
  then have "is_digit (hd (nat_dec n))" using digits_nat_dec [of n] by (cases "nat_dec n") auto
  then show ?thesis using ne by (auto simp: is_digit_def byte_def)
qed

lemma read_int_dec [simp]: "read_int (int_dec i) = i"
  using nat_dec_head [of "nat i"] by (simp add: read_int_def int_dec_def)

lemma read_ts_ts: "dated t \<Longrightarrow> read_ts (ts t) = t"
proof -
  assume d: "dated t"
  have "format_rfc3339_nano t \<noteq> []"
    by (simp add: format_rfc3339_nano_def Let_def split: prod.split)
  then show ?thesis using d read_format_rfc3339 [of t]
    by (auto simp: read_ts_def ts_def is_zero_time_def dated_def)
qed

lemma read_request_row:
  "dated (a_scheduledAt a) \<Longrightarrow> dated (a_startedAt a) \<Longrightarrow> dated (a_completedAt a) \<Longrightarrow>
     read_entry (request_row a) = entry_of a"
  by (simp add: read_entry_def request_row_def entry_of_def read_ts_ts)

subsection \<open>A disk that accepts everything\<close>

definition healthy :: "os_env \<Rightarrow> bool" where
  "healthy E \<longleftrightarrow> (\<forall>p. os_mkdir E p = None \<and> os_open E p = None \<and> os_close E p = None) \<and>
     (\<forall>p k s. os_write E p k s = None)"

definition sound_file :: "out_file \<Rightarrow> bool" where
  "sound_file f \<longleftrightarrow> of_open f \<and> of_err f = None"

lemma healthy_file:
  "healthy E \<Longrightarrow> sound_file f \<Longrightarrow> fst (buf_write E s f) = None \<and> sound_file (snd (buf_write E s f))"
  "healthy E \<Longrightarrow> sound_file f \<Longrightarrow> fst (buf_flush E f) = None \<and> sound_file (snd (buf_flush E f))"
  by (auto simp: healthy_def sound_file_def buf_write_def buf_direct_def buf_flush_def file_write_def Let_def)

definition sound_writer :: "writer \<Rightarrow> bool" where
  "sound_writer w \<longleftrightarrow> sound_file (wr_requests w) \<and> sound_file (wr_errors w) \<and> sound_file (wr_log w)"

lemma healthy_buf:
  assumes "healthy E" "sound_file f"
  obtains f' where "buf_write E s f = (None, f')" "sound_file f'"
  using healthy_file(1) [OF assms, of s] by (metis prod.collapse)

lemma healthy_flush:
  assumes "healthy E" "sound_file f"
  obtains f' where "buf_flush E f = (None, f')" "sound_file f'"
  using healthy_file(2) [OF assms] by (metis prod.collapse)

lemma healthy_new: "healthy E \<Longrightarrow> \<exists>w. new_writer E dir = Inr w \<and> sound_writer w"
proof -
  assume h: "healthy E"
  have s: "sound_file (open_file n p)" for n p by (simp add: sound_file_def open_file_def)
  have o: "open_or E dir n p = Inr (open_file n (path_join [dir, p]))" for n p
    using h by (simp add: open_or_def healthy_def)
  obtain f where f: "buf_write E (csv_row request_header) (open_file 262144 (path_join [dir, ''requests.csv''])) = (None, f)"
    "sound_file f" by (rule healthy_buf [OF h s])
  obtain g where g: "buf_write E (csv_row error_header) (open_file 65536 (path_join [dir, ''errors.csv''])) = (None, g)"
    "sound_file g" by (rule healthy_buf [OF h s])
  have "os_mkdir E dir = None" using h by (simp add: healthy_def)
  then show ?thesis using f g s by (simp add: new_writer_def o start_csv_def sound_writer_def)
qed

lemma healthy_write: "healthy E \<Longrightarrow> sound_writer w \<Longrightarrow> sound_writer (snd (write_attempt E a w))"
proof -
  assume h: "healthy E" and w: "sound_writer w"
  then have "sound_file (wr_requests w)" "sound_file (wr_errors w)" by (simp_all add: sound_writer_def)
  obtain f where "buf_write E (csv_row (request_row a)) (wr_requests w) = (None, f)" "sound_file f"
    by (rule healthy_buf [OF h \<open>sound_file (wr_requests w)\<close>])
  moreover obtain g where "buf_write E (csv_row (error_row a (the (a_err a)))) (wr_errors w) = (None, g)" "sound_file g"
    by (rule healthy_buf [OF h \<open>sound_file (wr_errors w)\<close>])
  ultimately show ?thesis using w
    by (auto simp: write_attempt_def sound_writer_def Let_def split: option.split)
qed

lemma healthy_flush_locked:
  "healthy E \<Longrightarrow> sound_writer w \<Longrightarrow> \<exists>w'. flush_locked E w = (None, w') \<and> sound_writer w' \<and> wr_closed w' = wr_closed w"
proof -
  assume h: "healthy E" and w: "sound_writer w"
  then have "sound_file (wr_requests w)" "sound_file (wr_errors w)" by (simp_all add: sound_writer_def)
  obtain f where f: "buf_flush E (wr_requests w) = (None, f)" "sound_file f"
    by (rule healthy_flush [OF h \<open>sound_file (wr_requests w)\<close>])
  obtain g where g: "buf_flush E (wr_errors w) = (None, g)" "sound_file g"
    by (rule healthy_flush [OF h \<open>sound_file (wr_errors w)\<close>])
  obtain f1 where f1: "buf_flush E f = (None, f1)" "sound_file f1" by (rule healthy_flush [OF h f(2)])
  obtain g1 where g1: "buf_flush E g = (None, g1)" "sound_file g1" by (rule healthy_flush [OF h g(2)])
  show ?thesis using w f g f1 g1 by (simp add: flush_locked_def sound_writer_def)
qed

lemma healthy_run: "healthy E \<Longrightarrow> sound_writer w \<Longrightarrow> sound_writer (run_writer E ops w)"
proof (induction ops rule: rev_induct)
  case (snoc op ops)
  then have s: "sound_writer (foldl (writer_step E) w ops)" by (simp add: run_writer_def)
  show ?case
    using healthy_write [OF snoc.prems(1) s] healthy_flush_locked [OF snoc.prems(1) s]
    by (cases op) (auto simp: run_writer_def)
qed (simp add: run_writer_def)

lemma healthy_close: "healthy E \<Longrightarrow> sound_writer w \<Longrightarrow> \<exists>w'. close_writer E w = (None, w')"
proof -
  assume h: "healthy E" and w: "sound_writer w"
  have "sound_writer (w\<lparr>wr_closed := True\<rparr>)" using w by (simp add: sound_writer_def)
  from healthy_flush_locked [OF h this] obtain w1 where
    "flush_locked E (w\<lparr>wr_closed := True\<rparr>) = (None, w1)" "sound_writer w1" by blast
  moreover have "file_close E f = (None, f\<lparr>of_open := False\<rparr>)" if "sound_file f" for f
    using h that by (simp add: file_close_def healthy_def sound_file_def)
  ultimately show ?thesis by (cases "wr_closed w") (simp_all add: close_writer_def sound_writer_def)
qed

lemma healthy_record:
  assumes "healthy E"
  obtains w0 w where "new_writer E dir = Inr w0" "close_writer E (run_writer E ops w0) = (None, w)"
  using healthy_new [OF assms, of dir] healthy_close [OF assms healthy_run [OF assms]] by blast

lemma good_disk: "healthy good_disk"
  by (simp add: healthy_def good_disk_def)

subsection \<open>Properties\<close>


definition demo_ops :: "writer_op list" where
  "demo_ops = [WriteAttempt (demo_attempt None), FlushRows,
     WriteAttempt (demo_attempt (Some (new_error HTTP5xx ''said \"no\"'')))]"


text \<open>C18: The audit record is lossless.  A reader of requests.csv that knows nothing of the run gets
  back the sequence number, the stage, the three instants to the nanosecond, the HTTP status, the
  outcome and the error key of every attempt, for instants of the years 1 to 9999.\<close>

theorem audit_record_lossless:
  assumes "new_writer E dir = Inr w0" "close_writer E (run_writer E ops w0) = (None, w)"
    and "\<And>a. a \<in> set (attempts_of ops) \<Longrightarrow>
      dated (a_scheduledAt a) \<and> dated (a_startedAt a) \<and> dated (a_completedAt a)"
  shows "\<exists>rows. csv_read (of_disk (wr_requests w)) = Some (request_header # rows) \<and>
    map read_entry rows = map entry_of (attempts_of ops)"
proof -
  have "csv_read (of_disk (wr_requests w)) = Some (request_header # map request_row (attempts_of ops))"
    using close_writer_complete [OF run_writer_holds [OF new_writer_holds [OF assms(1)]] assms(2)]
    by (simp add: csv_read_text rows_nonempty flip: request_rows_def)
  then show ?thesis using assms(3) by (auto simp: read_request_row)
qed

theorem audit_record_lossless_witness:
  "\<exists>w0 w rows. new_writer good_disk ''results'' = Inr w0 \<and>
     close_writer good_disk (run_writer good_disk demo_ops w0) = (None, w) \<and>
     csv_read (of_disk (wr_requests w)) = Some (request_header # rows) \<and>
     map en_stage (map read_entry rows) = [''warm, up'', ''warm, up'']"
proof -
  obtain w0 w where w: "new_writer good_disk ''results'' = Inr w0"
    "close_writer good_disk (run_writer good_disk demo_ops w0) = (None, w)"
    by (rule healthy_record [OF good_disk])
  have "dated (a_scheduledAt a) \<and> dated (a_startedAt a) \<and> dated (a_completedAt a)"
    if "a \<in> set (attempts_of demo_ops)" for a
    using that by (auto simp: demo_ops_def demo_attempt_def dated_def unix_epoch_def year_10000_def nanos_per_day_def)
  from audit_record_lossless [OF w this] obtain rows where
    "csv_read (of_disk (wr_requests w)) = Some (request_header # rows)"
    "map read_entry rows = map entry_of (attempts_of demo_ops)" by blast
  with w show ?thesis
    by (intro exI [of _ w0] exI [of _ w] exI [of _ rows]) (simp add: demo_ops_def entry_of_def demo_attempt_def)
qed

end
