(* ===== verification/Run_Report.thy ===== *)
theory Run_Report
  imports Run_Properties Summary_Properties Report_Audit
begin

text \<open>
  The two records of a run, composed: summary.json is built from the counters of the collector,
  requests.csv from the rows handed to the audit sink, and the two agree.
\<close>

text \<open>What the reader of requests.csv counts: the rows that stand for a request, and their keys.\<close>

definition numbered_entries :: "audit_entry list \<Rightarrow> audit_entry list" where
  "numbered_entries es = filter (\<lambda>e. en_sequence e \<noteq> 0) es"

definition entry_key :: "audit_entry \<Rightarrow> string" where
  "entry_key e = (if en_verified e then class_string OK else en_errorKey e)"

lemma read_request_row_sel [simp]:
  "en_sequence (read_entry (request_row a)) = a_sequence a"
  "en_verified (read_entry (request_row a)) = succeeded a"
  "entry_key (read_entry (request_row a)) = attempt_error_key a"
  by (auto simp: read_entry_def request_row_def entry_key_def error_class_field_def attempt_error_key_def
      succeeded_def)

lemma numbered_entries_rows:
  "numbered_entries (map read_entry (map request_row as)) = map (read_entry \<circ> request_row) (numbered as)"
  by (induction as) (simp_all add: numbered_entries_def numbered_def)

lemma length_filter_map: "length (filter P (map f xs)) = length (filter (P \<circ> f) xs)"
  by (simp add: filter_map)

lemma count_list_filter: "int (count_list ks k) = int (length (filter (\<lambda>x. x = k) ks))"
  by (induction ks) auto

text \<open>What the books say at the end of a run whose budget fits an int64.\<close>

lemma run_end_counts:
  assumes "fresh_runner r0" "run E r0 = Some (out, r)" "limit (rn_quota r0) < 2 ^ 63"
  obtains rows h where "rn_sink r = Some rows" "stage_rel (c_overall (rn_collector r)) h"
    "attempts h = numbered rows" "int (length (attempts h)) < 2 ^ 63"
    "ss_sent (c_overall (rn_collector r)) = oc_quotaUsed out"
    "int (length (numbered rows)) + int (length (rn_jobs r)) = oc_quotaUsed out"
proof -
  obtain n rows h where
    b: "books (c_startedAt (rn_collector r0)) (rn_breaker r0) (limit (rn_quota r0)) n
          (mset (map jb_seq (rn_jobs r))) r rows h"
    and q: "oc_quotaUsed out = q_used (rn_quota r)"
    by (rule run_end [OF assms(1,2)])
  have s: "rn_sink r = Some rows" "stage_rel (c_overall (rn_collector r)) h" "attempts h = numbered rows"
    and m: "mset (map a_sequence (attempts h)) + mset (map jb_seq (rn_jobs r)) = mset [1..q_used (rn_quota r)]"
    and sent: "int (length (filter is_sent h)) = q_used (rn_quota r)"
    and le: "q_used (rn_quota r) \<le> max 0 (limit (rn_quota r0))"
    using b by (auto simp: books_def coll_rel_def)
  have pos: "0 \<le> q_used (rn_quota r)" using sent by linarith
  have "size (mset (map a_sequence (attempts h)) + mset (map jb_seq (rn_jobs r))) = nat (q_used (rn_quota r))"
    unfolding m by simp
  then have len: "int (length (attempts h)) + int (length (rn_jobs r)) = q_used (rn_quota r)"
    using pos by simp
  have fits: "q_used (rn_quota r) < 2 ^ 63" using le assms(3) pos by auto
  have "ss_sent (c_overall (rn_collector r)) = q_used (rn_quota r)"
    using s(2) sent pos fits by (simp add: stage_rel_def wrapped_count_def)
  moreover have "int (length (attempts h)) < 2 ^ 63" using len fits by linarith
  ultimately show thesis using that [of rows h] s len q by simp
qed

subsection \<open>Properties\<close>


lemma attempts_of_map [simp]: "attempts_of (map WriteAttempt as) = as"
  by (induction as) auto

lemma tally_visited: "visits (map (\<lambda>k. (k, s64 (int (count_list ks k)))) (remdups ks)) (tally ks)"
  by (auto simp: visits_def comp_def map_of_map_restrict tally_def restrict_map_def)

lemma stage_rel_visited: "stage_rel st h \<Longrightarrow> \<exists>v. valid_visit v st"
  using tally_visited [of "map attempt_error_key (attempts h)"] tally_visited [of "concat (map a_warnings (attempts h))"]
  by (auto simp: valid_visit_def stage_rel_def intro!: exI [of _ "\<lambda>_. (es, ws)" for es ws])


end
