(* ===== verification/Artifacts.thy ===== *)
theory Artifacts
  imports Go_Files Go_Time
begin

text \<open>
  Raw protocol bytes on disk, \<^verbatim>\<open>internal/report/artifacts.go\<close>.  The counter is advanced
  and compared in one atomic step, then the files are written; between the two other workers run.
  \<open>os_open\<close> of the environment answers for \<^verbatim>\<open>os.WriteFile\<close>.
\<close>

record artifact_store =
  ar_dir :: string
  ar_limit :: int
  ar_written :: int
  ar_files :: "(string \<times> bytes) list"

definition new_artifact_store :: "os_env \<Rightarrow> string \<Rightarrow> int \<Rightarrow> string + artifact_store" where
  "new_artifact_store E runDir most =
     (let dir = path_join [runDir, ''artifacts''] in
      (case os_mkdir E dir of
         Some e \<Rightarrow> Inl (''create artifact directory: '' @ e)
       | None \<Rightarrow> Inr \<lparr>ar_dir = dir, ar_limit = (if most \<le> 0 then 100 else most), ar_written = 0, ar_files = []\<rparr>))"

text \<open>\<^verbatim>\<open>%08d\<close>\<close>

definition fmt_08d :: "int \<Rightarrow> string" where
  "fmt_08d n = (if n < 0 then ''-'' @ pad_dec 7 (nat (- n)) else pad_dec 8 (nat n))"

definition claim_slot :: "artifact_store \<Rightarrow> bool \<times> artifact_store" where
  "claim_slot s = (let n = s64 (ar_written s + 1) in (n \<le> ar_limit s, s\<lparr>ar_written := n\<rparr>))"

definition write_file :: "os_env \<Rightarrow> string \<Rightarrow> bytes \<Rightarrow> artifact_store \<Rightarrow> io_error option \<times> artifact_store" where
  "write_file E p b s =
     (case os_open E p of Some e \<Rightarrow> (Some e, s) | None \<Rightarrow> (None, s\<lparr>ar_files := ar_files s @ [(p, b)]\<rparr>))"

definition store_files :: "os_env \<Rightarrow> int \<Rightarrow> bytes \<Rightarrow> bytes \<Rightarrow> artifact_store \<Rightarrow> io_error option \<times> artifact_store" where
  "store_files E seq req resp s =
     (let base = path_join [ar_dir s, fmt_08d seq] in
      (case write_file E (base @ ''.req.der'') req s of
         (Some e, s1) \<Rightarrow> (Some e, s1)
       | (None, s1) \<Rightarrow> if resp = [] then (None, s1) else write_file E (base @ ''.resp.der'') resp s1))"

definition write_artifact :: "os_env \<Rightarrow> int \<Rightarrow> bytes \<Rightarrow> bytes \<Rightarrow> artifact_store \<Rightarrow> io_error option \<times> artifact_store" where
  "write_artifact E seq req resp s =
     (case claim_slot s of (ok, s1) \<Rightarrow> if ok then store_files E seq req resp s1 else (None, s1))"

text \<open>\<^verbatim>\<open>WriteAttempt\<close> by many workers: the state holds the attempts that have a slot and have
  not written their files.\<close>

type_synonym artifact_state = "artifact_store \<times> (int \<times> bytes \<times> bytes) list"

inductive artifact_step :: "os_env \<Rightarrow> artifact_state \<Rightarrow> artifact_state \<Rightarrow> bool" for E where
  claim: "claim_slot s = (ok, s') \<Longrightarrow>
    artifact_step E (s, ps) (s', if ok then ps @ [(seq, req, resp)] else ps)"
| store: "i < length ps \<Longrightarrow> ps ! i = (seq, req, resp) \<Longrightarrow> store_files E seq req resp s = (r, s') \<Longrightarrow>
    artifact_step E (s, ps) (s', take i ps @ drop (Suc i) ps)"

inductive artifact_run :: "os_env \<Rightarrow> nat \<Rightarrow> artifact_state \<Rightarrow> artifact_state \<Rightarrow> bool" for E where
  start: "artifact_run E 0 st st"
| step: "artifact_run E n st0 st \<Longrightarrow> artifact_step E st st' \<Longrightarrow> artifact_run E (Suc n) st0 st'"

text \<open>Two files per slot: those written, and those still owed.\<close>

definition slots_inv :: "int \<Rightarrow> nat \<Rightarrow> artifact_state \<Rightarrow> bool" where
  "slots_inv most n st \<longleftrightarrow> (case st of (s, ps) \<Rightarrow>
     ar_limit s = most \<and> 0 \<le> ar_written s \<and> ar_written s \<le> int n \<and>
     int (length (ar_files s)) + 2 * int (length ps) \<le> 2 * min (ar_written s) most)"

lemma store_files_frame:
  "store_files E seq req resp s = (r, s') \<Longrightarrow> ar_limit s' = ar_limit s \<and> ar_written s' = ar_written s \<and>
     length (ar_files s') \<le> length (ar_files s) + 2"
  by (auto simp: store_files_def write_file_def Let_def split: option.splits if_splits prod.splits)

lemma slots_step:
  assumes "artifact_step E st st'" "slots_inv most n st" "int n < 2 ^ 62"
  shows "slots_inv most (Suc n) st'"
  using assms(1)
proof cases
  case (claim s ok s' ps seq req resp)
  have "s64 (ar_written s + 1) = ar_written s + 1"
    using assms(2,3) claim(1) by (intro s64_id) (auto simp: slots_inv_def in_i64_def)
  then show ?thesis using assms(2) claim by (auto simp: slots_inv_def claim_slot_def Let_def)
next
  case (store i ps seq req resp s r s')
  then show ?thesis using assms(2) store_files_frame [OF store(5)] by (auto simp: slots_inv_def)
qed

lemma slots_run:
  "artifact_run E n st0 st \<Longrightarrow> slots_inv most 0 st0 \<Longrightarrow> int n < 2 ^ 62 \<Longrightarrow> slots_inv most n st"
proof (induction rule: artifact_run.induct)
  case (step n st0 st st')
  then show ?case using slots_step [OF step(2), of most n] by simp
qed simp

text \<open>The debug limit holds under concurrency.  However the workers interleave, a store created with
  limit \<open>most\<close> (100 when none is given) never holds the files of more than \<open>most\<close> attempts: at most two
  files for each.\<close>

theorem artifact_limit:
  assumes "new_artifact_store E runDir most = Inr s0" "artifact_run E n (s0, []) (s, ps)" "int n < 2 ^ 62"
  shows "int (length (ar_files s)) \<le> 2 * (if most \<le> 0 then 100 else most)"
proof -
  have "slots_inv (if most \<le> 0 then 100 else most) 0 (s0, [])"
    using assms(1) by (auto simp: new_artifact_store_def slots_inv_def Let_def split: option.splits)
  from slots_run [OF assms(2) this assms(3)] show ?thesis by (auto simp: slots_inv_def)
qed

theorem artifact_limit_witness:
  "\<exists>s0 s ps. new_artifact_store good_disk ''results'' 1 = Inr s0 \<and>
     artifact_run good_disk 2 (s0, []) (s, ps) \<and> ps = [(1, ''q'', ''r'')] \<and> ar_written s = 2 \<and>
     int (length (ar_files s)) \<le> 2"
proof -
  define s0 where "s0 = \<lparr>ar_dir = path_join [''results'', ''artifacts''], ar_limit = 1, ar_written = 0, ar_files = []\<rparr>"
  have new: "new_artifact_store good_disk ''results'' 1 = Inr s0"
    by (simp add: new_artifact_store_def good_disk_def s0_def Let_def)
  have "claim_slot s0 = (True, s0\<lparr>ar_written := 1\<rparr>)" by (simp add: claim_slot_def s0_def)
  note one = artifact_run.step [OF artifact_run.start artifact_step.claim [OF this, of _ "[]" 1 "''q''" "''r''"]]
  have "claim_slot (s0\<lparr>ar_written := 1\<rparr>) = (False, s0\<lparr>ar_written := 2\<rparr>)" by (simp add: claim_slot_def s0_def)
  note two = artifact_run.step [OF one artifact_step.claim [OF this]]
  have "artifact_run good_disk 2 (s0, []) (s0\<lparr>ar_written := 2\<rparr>, [(1, ''q'', ''r'')])"
    using two [of good_disk] by (simp add: numeral_2_eq_2)
  moreover from artifact_limit [OF new this] have "int (length (ar_files (s0\<lparr>ar_written := 2\<rparr>))) \<le> 2" by simp
  ultimately show ?thesis using new by (intro exI conjI) (assumption | simp)+
qed

end
