(* ===== verification/Command_Run.thy ===== *)
theory Command_Run
  imports Run_Report Artifacts
begin

text \<open>
  The \<^verbatim>\<open>run\<close> command, \<^verbatim>\<open>cmd/tsa-bench/run.go\<close> and the exit codes of main.go: the
  gates before anything is read, the arithmetic before anything is sent, the wiring of the runner, the
  check of the audit record and the exit code.  Package flag, the clock, the random source, what a
  re-read of the results directory finds and the surroundings of the runner are fields of
  \<open>machine\<close>.  What is only printed (banner, outcome, log lines) is left out.
\<close>

subsection \<open>Exit codes\<close>

record exit_error =
  xe_msg :: string
  xe_code :: int

definition fail :: "int \<Rightarrow> string \<Rightarrow> exit_error" where
  "fail code msg = \<lparr>xe_msg = msg, xe_code = code\<rparr>"

text \<open>How a command ends: a cancelled context, an error with a status of its own, any other error.\<close>

datatype command_error = Canceled | Exits exit_error | Other_Error string

fun exit_code :: "command_error option \<Rightarrow> int" where
  "exit_code None = 0"
| "exit_code (Some Canceled) = 130"
| "exit_code (Some (Exits e)) = xe_code e"
| "exit_code (Some (Other_Error _)) = 1"

subsection \<open>Gates on the command line\<close>

record run_flags =
  rf_cfgPath :: string
  rf_profilePath :: string
  rf_maxRequests :: int
  rf_ackLive :: bool
  rf_debugArtifacts :: bool
  rf_artifactLimit :: int
  rf_noAutoAbort :: bool
  rf_outputDir :: string
  rf_redactHost :: bool

text \<open>\<^verbatim>\<open>parseRunFlags\<close> after \<^verbatim>\<open>fs.Parse\<close>.\<close>

definition check_run_flags :: "run_flags \<Rightarrow> bool \<Rightarrow> exit_error + run_flags" where
  "check_run_flags f authorized =
     (if rf_cfgPath f = [] then Inl (fail 2 ''--config is required'')
      else if rf_profilePath f = [] then Inl (fail 2 ''--profile is required'')
      else if rf_maxRequests f \<le> 0
        then Inl (fail 2 (''--max-requests is required and must be greater than zero; '' @
          ''it is the hard bound on how much provider quota this run may consume''))
      else if \<not> authorized
        then Inl (fail 2 (''--authorized-load-test is required; pass it only if you hold written '' @
          ''authorisation from the provider to load test this endpoint''))
      else Inr f)"

subsection \<open>Inputs\<close>

text \<open>\<open>config_error_text\<close> and \<open>profile_error_text\<close> stand for the messages of errors that are
  modelled as values.\<close>

record 'c machine =
  mc_parseFlags :: "string list \<Rightarrow> run_flags \<times> bool"
  mc_world :: world
  mc_readFile :: "string \<Rightarrow> string + string"
  mc_decodeConfig :: "string \<Rightarrow> config \<Rightarrow> string + config"
  mc_decodeProfile :: "string \<Rightarrow> string + profile"
  mc_configErrorText :: "config_error \<Rightarrow> string"
  mc_profileErrorText :: "profile_error \<Rightarrow> string"
  mc_fromPEM :: "string \<Rightarrow> certificate list option"
  mc_systemPool :: "string + certificate list"
  mc_loadPair :: "string \<Rightarrow> string \<Rightarrow> string + bytes"
  mc_oob :: "f64 \<Rightarrow> int"
  mc_random :: "nat \<Rightarrow> string + bytes"
  mc_startedAt :: time
  mc_disk :: os_env
  mc_runEnv :: "config \<Rightarrow> profile \<Rightarrow> builder \<Rightarrow> verifier \<Rightarrow> 'c runner_env"
  mc_clock :: 'c
  mc_net :: net
  mc_choices :: "nat list list"
  mc_lateRows :: "attempt list"
  mc_reread :: "string \<Rightarrow> string + string"

definition load_inputs :: "'c machine \<Rightarrow> run_flags \<Rightarrow> exit_error + config \<times> profile" where
  "load_inputs M f =
     and_then (map_error (\<lambda>e. fail 1 (mc_configErrorText M e))
       (load_file (mc_world M) (mc_readFile M) (mc_decodeConfig M) (rf_cfgPath f))) (\<lambda>cfg0.
     let cfg = (if rf_outputDir f \<noteq> [] then cfg0\<lparr>cf_output_directory := rf_outputDir f\<rparr> else cfg0) in
     if pv_environment (cf_provider cfg) = EnvLive \<and> \<not> rf_ackLive f
     then Inl (fail 2 (''provider.environment is '' @ go_quote ''live'' @ '': pass --acknowledge-live-environment to confirm '' @
       ''you intend to send load to a production service shared with real customer traffic''))
     else
     and_then (map_error (fail 2) (budget cfg (rf_maxRequests f))) (\<lambda>b.
     and_then (map_error (\<lambda>e. fail 1 (mc_profileErrorText M e))
       (load_profile (mc_readFile M) (mc_decodeProfile M) (mc_oob M) (rf_profilePath f))) (\<lambda>p.
     (case check_against_quota (mc_oob M) p b (lm_hardCap (cf_limits cfg)) of
        Some e \<Rightarrow> Inl (fail 2 (mc_profileErrorText M e))
      | None \<Rightarrow> Inr (cfg, p)))))"

subsection \<open>Wiring\<close>

definition new_run_id :: "(nat \<Rightarrow> string + bytes) \<Rightarrow> string + string" where
  "new_run_id rand =
     (case rand 6 of Inl e \<Rightarrow> Inl (''generate run id: '' @ e) | Inr b \<Rightarrow> Inr (hex_encode b))"

definition builder_options_of :: "config \<Rightarrow> builder_options" where
  "builder_options_of cfg = \<lparr>bo_hashName = rc_hashAlgorithm (cf_request cfg),
     bo_payloadSize = rc_payloadSize (cf_request cfg),
     bo_certReq = (case rc_certReq (cf_request cfg) of Some b \<Rightarrow> b | None \<Rightarrow> False),
     bo_policyOID = rc_policyOID (cf_request cfg)\<rparr>"

record prepared =
  pr_cfg :: config
  pr_profile :: profile
  pr_trustSource :: string
  pr_verifier :: verifier
  pr_builder :: builder
  pr_creds :: credentials
  pr_runID :: string
  pr_dir :: string
  pr_writer :: writer
  pr_artifacts :: "artifact_store option"

text \<open>Everything that is resolved before any request is sent; each failure exits with 1.\<close>

definition prepare :: "'c machine \<Rightarrow> run_flags \<Rightarrow> config \<Rightarrow> profile \<Rightarrow> exit_error + prepared" where
  "prepare M f cfg p =
     and_then (map_error (fail 1) (tsa_roots (mc_readFile M) (mc_fromPEM M) (mc_systemPool M) cfg)) (\<lambda>(roots, src).
     and_then (map_error (\<lambda>e. fail 1 (''cannot build verifier: '' @ e))
       (new_verifier roots (rc_maxClockSkew (cf_request cfg)) (rc_requireESS (cf_request cfg)))) (\<lambda>v.
     and_then (map_error (fail 1) (new_builder (builder_options_of cfg))) (\<lambda>b.
     and_then (map_error (fail 1) (tls_config_of (mc_readFile M) (mc_fromPEM M) (mc_loadPair M) cfg)) (\<lambda>_.
     and_then (map_error (\<lambda>e. fail 1 (''credentials: '' @ e)) (resolve_credentials (mc_world M) cfg)) (\<lambda>cr.
     and_then (map_error (fail 1) (new_run_id (mc_random M))) (\<lambda>rid.
     let dir = run_dir (cf_output_directory cfg) (pv_name (cf_provider cfg)) (mc_startedAt M) rid in
     and_then (map_error (fail 1) (new_writer (mc_disk M) dir)) (\<lambda>w.
     and_then (if rf_debugArtifacts f
         then map_error (fail 1) (map_sum id Some (new_artifact_store (mc_disk M) dir (rf_artifactLimit f)))
         else Inr None) (\<lambda>ar.
       Inr \<lparr>pr_cfg = cfg, pr_profile = p, pr_trustSource = src, pr_verifier = v, pr_builder = b,
            pr_creds = cr, pr_runID = rid, pr_dir = dir, pr_writer = w, pr_artifacts = ar\<rparr>))))))))"

definition breaker_of_flags :: "run_flags \<Rightarrow> config \<Rightarrow> breaker" where
  "breaker_of_flags f cfg =
     (if rf_noAutoAbort f then disabled_breaker
      else new_breaker (lm_abortOnErrorRate (cf_limits cfg)) (lm_abortWindow (cf_limits cfg))
        (lm_abortOnConsecutiveFailures (cf_limits cfg)))"

definition wire_runner :: "'c machine \<Rightarrow> run_flags \<Rightarrow> prepared \<Rightarrow> 'c runner" where
  "wire_runner M f pr =
     \<lparr>rn_clock = mc_clock M,
      rn_quota = new_quota (rf_maxRequests f) (lm_hardCap (cf_limits (pr_cfg pr))),
      rn_breaker = Some (breaker_of_flags f (pr_cfg pr)),
      rn_collector = new_collector (mc_startedAt M), rn_sink = Some [],
      rn_artifacts = map_option (\<lambda>_. []) (pr_artifacts pr),
      rn_auth = new_authenticator (pr_cfg pr) (Some (pr_creds pr)), rn_net = mc_net M,
      rn_conns = Some new_conn_stats, rn_stopped = False, rn_reason = [], rn_detail = [],
      rn_jobs = [], rn_choices = mc_choices M\<rparr>"

subsection \<open>After the run\<close>

definition verify_record_integrity :: "string + string \<Rightarrow> int \<Rightarrow> bool" where
  "verify_record_integrity content wantRows =
     (case count_data_rows content of Inl _ \<Rightarrow> False | Inr rows \<Rightarrow> rows = wantRows)"

text \<open>The result files are flushed; workers that the grace period left behind may still write
  rows; then the record is checked and the files are closed, whose failure is only logged.\<close>

definition finish_records :: "'c machine \<Rightarrow> attempt list \<Rightarrow> writer \<Rightarrow> bool \<times> writer" where
  "finish_records M rows w0 =
     (let w1 = run_writer (mc_disk M) (map WriteAttempt rows @ [FlushRows]) w0;
          w2 = run_writer (mc_disk M) (map WriteAttempt (mc_lateRows M)) w1;
          ok = verify_record_integrity (mc_reread M (of_disk (wr_requests w2))) (rows_of w2)
      in (ok, snd (close_writer (mc_disk M) w2)))"

definition run_status :: "string \<Rightarrow> bool \<Rightarrow> outcome \<Rightarrow> exit_error option" where
  "run_status dir recordsOK out =
     (if \<not> recordsOK then Some (fail 4 ''the per-request record is incomplete; see the warning above'')
      else if oc_reason out = StopSignal
        then Some (fail 130 (''run interrupted; a partial report was written to '' @ dir))
      else if oc_reason out = StopBreaker
        then Some (fail 3 (''run aborted automatically: '' @ oc_reasonDetail out))
      else if oc_reason out = StopError then Some (fail 1 (''run failed: '' @ oc_reasonDetail out))
      else None)"

text \<open>What is left of a run: nothing but an error when it was not started, and \<open>None\<close> when
  \<^verbatim>\<open>Run\<close> does not return.\<close>

datatype 'c run_end = Not_Started exit_error | Ran prepared outcome "'c runner" writer "exit_error option"

definition run_load :: "'c machine \<Rightarrow> string list \<Rightarrow> 'c run_end option" where
  "run_load M args =
     (case and_then (case_prod check_run_flags (mc_parseFlags M args)) (\<lambda>f.
        and_then (load_inputs M f) (\<lambda>(cfg, p). map_sum id (Pair f) (prepare M f cfg p))) of
        Inl e \<Rightarrow> Some (Not_Started e)
      | Inr (f, pr) \<Rightarrow>
          (case run (mc_runEnv M (pr_cfg pr) (pr_profile pr) (pr_builder pr) (pr_verifier pr)) (wire_runner M f pr) of
             None \<Rightarrow> None
           | Some (out, r) \<Rightarrow>
               (let (ok, w) = finish_records M (case rn_sink r of None \<Rightarrow> [] | Some rows \<Rightarrow> rows) (pr_writer pr)
                in Some (Ran pr out r w (run_status (pr_dir pr) ok out)))))"

subsection \<open>Metadata\<close>

definition local_path :: "string \<Rightarrow> bool \<Rightarrow> string" where
  "local_path p redactHost = (if \<not> redactHost \<or> p = [] then p else path_base p)"

definition hostname :: "string + string \<Rightarrow> bool \<Rightarrow> string" where
  "hostname h redactHost =
     (if redactHost then Mask else (case h of Inl _ \<Rightarrow> ''unknown'' | Inr n \<Rightarrow> n))"

definition command_line :: "string list \<Rightarrow> bool \<Rightarrow> string" where
  "command_line osArgs redactHost = (if redactHost then Mask else join '' '' osArgs)"

definition peak_tps :: "profile \<Rightarrow> f64" where
  "peak_tps p = fold raise (map stg_tps (prf_stages p)) (Fin 0)"

definition profile_duration :: "profile \<Rightarrow> duration" where
  "profile_duration p = fold (\<lambda>s d. s64 (d + stg_duration s)) (prf_stages p) 0"

text \<open>The build and the host: version, Go version, system, architecture, host name, argument vector.\<close>

record host_info =
  hi_version :: string
  hi_goVersion :: string
  hi_os :: string
  hi_arch :: string
  hi_hostname :: "string + string"
  hi_args :: "string list"

definition build_metadata ::
    "world \<Rightarrow> (f64 \<Rightarrow> int) \<Rightarrow> host_info \<Rightarrow> run_flags \<Rightarrow> config \<Rightarrow> profile \<Rightarrow> string \<Rightarrow> string \<Rightarrow> outcome \<Rightarrow>
     warning list \<Rightarrow> metadata" where
  "build_metadata W oob H f cfg p runID trustSource out ws =
     (let rq = cf_request cfg; ld = cf_load cfg; lm = cf_limits cfg; t = cf_tls cfg;
          secs = (\<lambda>d. f64_to_i64 oob (duration_seconds d)) in
      \<lparr>md_schema = schema_version, md_runID = runID, md_tool = ''tsa-bench'', md_version = hi_version H,
       md_goVersion = hi_goVersion H, md_os = hi_os H, md_arch = hi_arch H,
       md_hostname = hostname (hi_hostname H) (rf_redactHost f),
       md_startedAt = oc_startedAt out, md_endedAt = oc_endedAt out,
       md_commandLine = command_line (hi_args H) (rf_redactHost f),
       md_provider = \<lparr>pi_name = pv_name (cf_provider cfg), pi_endpoint = redacted_endpoint W cfg,
          pi_environment = pv_environment (cf_provider cfg), pi_authType = au_type (pv_auth (cf_provider cfg))\<rparr>,
       md_profileName = prf_name p, md_profileNote = prf_note p,
       md_request = \<lparr>ri_hashAlgorithm = rc_hashAlgorithm rq, ri_payloadSize = rc_payloadSize rq,
          ri_certReq = (case rc_certReq rq of Some b \<Rightarrow> b | None \<Rightarrow> False),
          ri_timeoutMS = rc_timeout rq sdiv millisecond, ri_maxClockSkewS = secs (rc_maxClockSkew rq),
          ri_requireESS = rc_requireESS rq\<rparr>,
       md_load = \<lparr>li_maxConcurrency = lc_maxConcurrency ld, li_stagePauseS = secs (lc_stagePause ld),
          li_lagThresholdMS = lc_lagThreshold ld sdiv millisecond, li_gracePeriodS = secs (lc_gracePeriod ld)\<rparr>,
       md_quota = \<lparr>qi_maxRequests = rf_maxRequests f, qi_hardCap = lm_hardCap lm,
          qi_profilePlanned = total_planned oob p, qi_profileReserve = prf_reserve p, qi_retries = lm_retries lm\<rparr>,
       md_tls = \<lparr>ti_minVersion = tc_minVersion t, ti_insecureSkipVerify = tc_insecureSkipVerify t,
          ti_caFile = local_path (tc_caFile t) (rf_redactHost f),
          ti_tsaTrustSource = local_path trustSource (rf_redactHost f), ti_serverName = tc_serverName t\<rparr>,
       md_warnings = map (\<lambda>w. wn_field w @ '': '' @ wn_message w) ws\<rparr>)"

end
