(* ===== verification/Command_Properties.thy ===== *)
theory Command_Properties
  imports Command_Run
begin

text \<open>
  What the \<^verbatim>\<open>run\<close> command guarantees as a whole: the gates, the arithmetic, the quota guard and
  the check of the record composed as the command composes them.
\<close>

subsection \<open>A command that ran\<close>

lemma load_inputs_Inr:
  assumes "load_inputs M f = Inr (cfg, p)"
  obtains b where "limits_ok (cf_limits cfg)" "pv_environment (cf_provider cfg) = EnvLive \<Longrightarrow> rf_ackLive f"
    "budget cfg (rf_maxRequests f) = Inr b" "check_against_quota (mc_oob M) p b (lm_hardCap (cf_limits cfg)) = None"
    "load_profile (mc_readFile M) (mc_decodeProfile M) (mc_oob M) (rf_profilePath f) = Inr p"
proof -
  obtain cfg0 where load: "load_file (mc_world M) (mc_readFile M) (mc_decodeConfig M) (rf_cfgPath f) = Inr cfg0"
    and cfg: "cfg = (if rf_outputDir f \<noteq> [] then cfg0\<lparr>cf_output_directory := rf_outputDir f\<rparr> else cfg0)"
    using assms by (auto simp: load_inputs_def and_then_Inr Let_def split: if_splits option.splits)
  obtain raw where "parse_config (mc_world M) (mc_decodeConfig M) raw = Inr cfg0"
    using load by (auto simp: load_file_def split: sum.splits)
  then have "validate (mc_world M) cfg0 = []" using parse_config_Inr by blast
  then have "limits_ok (cf_limits cfg0)" by (simp add: validate_def limits_Nil)
  then have "limits_ok (cf_limits cfg)" by (simp add: cfg)
  then show thesis
    using assms load that by (auto simp: load_inputs_def and_then_Inr Let_def cfg split: if_splits option.splits)
qed

lemma prepare_Inr:
  "prepare M f cfg p = Inr pr \<Longrightarrow>
     pr_cfg pr = cfg \<and> pr_profile pr = p \<and> new_writer (mc_disk M) (pr_dir pr) = Inr (pr_writer pr)"
  by (auto simp: prepare_def and_then_Inr Let_def)

lemma check_run_flags_Inr:
  "check_run_flags f authorized = Inr g \<longleftrightarrow>
     g = f \<and> rf_cfgPath f \<noteq> [] \<and> rf_profilePath f \<noteq> [] \<and> 0 < rf_maxRequests f \<and> authorized"
  by (auto simp: check_run_flags_def)

definition run_env_of :: "'c machine \<Rightarrow> prepared \<Rightarrow> 'c runner_env" where
  "run_env_of M pr = mc_runEnv M (pr_cfg pr) (pr_profile pr) (pr_builder pr) (pr_verifier pr)"

lemma run_load_Ran:
  assumes "run_load M args = Some (Ran pr out r w st)"
  obtains f ok rows where "mc_parseFlags M args = (f, True)" "0 < rf_maxRequests f"
    "load_inputs M f = Inr (pr_cfg pr, pr_profile pr)"
    "new_writer (mc_disk M) (pr_dir pr) = Inr (pr_writer pr)"
    "run (run_env_of M pr) (wire_runner M f pr) = Some (out, r)"
    "rows = (case rn_sink r of None \<Rightarrow> [] | Some rows \<Rightarrow> rows)"
    "finish_records M rows (pr_writer pr) = (ok, w)" "st = run_status (pr_dir pr) ok out"
proof -
  obtain f authorized where fl: "mc_parseFlags M args = (f, authorized)" by fastforce
  show thesis
  proof (cases "and_then (check_run_flags f authorized) (\<lambda>f.
        and_then (load_inputs M f) (\<lambda>(cfg, p). map_sum id (Pair f) (prepare M f cfg p)))")
    case (Inl e)
    then show ?thesis using assms fl by (simp add: run_load_def)
  next
    case (Inr fp)
    then obtain cfg p pr' where c: "check_run_flags f authorized = Inr f" "load_inputs M f = Inr (cfg, p)"
      "prepare M f cfg p = Inr pr'" "fp = (f, pr')"
      by (auto simp: and_then_Inr check_run_flags_Inr map_sum_Inr)
    note pr' = prepare_Inr [OF c(3)]
    show ?thesis
      using assms fl c Inr pr' that
      by (auto simp: run_load_def run_env_of_def check_run_flags_Inr split: option.splits prod.splits)
  qed
qed

lemma wire_runner_fresh: "fresh_runner (wire_runner M f pr)"
  by (simp add: fresh_runner_def wire_runner_def new_quota_def new_collector_def has_tripped_def
      breaker_of_flags_def disabled_breaker_def new_breaker_def Let_def)

lemma wire_runner_limit:
  "limits_ok (cf_limits (pr_cfg pr)) \<Longrightarrow> 0 < rf_maxRequests f \<Longrightarrow> budget (pr_cfg pr) (rf_maxRequests f) = Inr b \<Longrightarrow>
     limit (rn_quota (wire_runner M f pr)) = rf_maxRequests f \<and> b = rf_maxRequests f \<and>
     rf_maxRequests f \<le> lm_hardCap (cf_limits (pr_cfg pr)) \<and> lm_hardCap (cf_limits (pr_cfg pr)) \<le> 10000000 \<and>
     (0 < lm_maxRequests (cf_limits (pr_cfg pr)) \<longrightarrow> rf_maxRequests f \<le> lm_maxRequests (cf_limits (pr_cfg pr)))"
  by (auto simp: wire_runner_def limit_def new_quota_def budget_def limits_ok_def Let_def
      MaxConfigurableHardCap_def split: if_splits)

subsection \<open>A sample command\<close>

definition demo_flags :: run_flags where
  "demo_flags = \<lparr>rf_cfgPath = ''c.yaml'', rf_profilePath = ''p.yaml'', rf_maxRequests = 5, rf_ackLive = False,
     rf_debugArtifacts = False, rf_artifactLimit = 100, rf_noAutoAbort = False, rf_outputDir = [],
     rf_redactHost = False\<rparr>"

definition demo_machine :: "int machine" where
  "demo_machine = \<lparr>mc_parseFlags = (\<lambda>_. (demo_flags, True)), mc_world = demo_world,
     mc_readFile = (\<lambda>_. Inr []), mc_decodeConfig = (\<lambda>_ d. Inr (d\<lparr>cf_provider := demo_provider\<rparr>)),
     mc_decodeProfile = (\<lambda>_. Inr smoke_profile), mc_configErrorText = (\<lambda>_. []), mc_profileErrorText = (\<lambda>_. []),
     mc_fromPEM = (\<lambda>_. None), mc_systemPool = Inr [], mc_loadPair = (\<lambda>_ _. Inl []), mc_oob = (\<lambda>_. 0),
     mc_random = (\<lambda>_. Inr ''abcdef''), mc_startedAt = unix_epoch, mc_disk = good_disk,
     mc_runEnv = (\<lambda>_ _ _ _. demo_run_env [demo_stage 1]), mc_clock = 0,
     mc_net = \<lparr>net_log = [], net_wrote = False\<rparr>, mc_choices = [], mc_lateRows = [], mc_reread = Inr\<rparr>"

lemma demo_load: "load_file demo_world (\<lambda>_. Inr []) (\<lambda>_ d. Inr (d\<lparr>cf_provider := demo_provider\<rparr>)) path = Inr demo_config"
proof -
  have "validate demo_world demo_config = []"
    using validate_Nil [of demo_world demo_config] demo_config_ok by (simp add: demo_world_def)
  then show ?thesis by (simp add: load_file_def parse_config_def demo_config_def)
qed

lemma demo_prepared: "\<exists>pr. prepare demo_machine demo_flags demo_config smoke_profile = Inr pr"
proof -
  have sel: "mc_world demo_machine = demo_world" "mc_readFile demo_machine = (\<lambda>_. Inr [])"
    "mc_fromPEM demo_machine = (\<lambda>_. None)" "mc_systemPool demo_machine = Inr []" "mc_disk demo_machine = good_disk"
    "mc_loadPair demo_machine = (\<lambda>_ _. Inl [])" "mc_random demo_machine = (\<lambda>_. Inr ''abcdef'')"
    by (simp_all add: demo_machine_def)
  have cfg: "cf_tls demo_config = (cf_tls default_config)\<lparr>tc_minVersion := ''1.2''\<rparr>"
    "cf_request demo_config = (cf_request default_config)\<lparr>rc_certReq := Some True\<rparr>" "cf_provider demo_config = demo_provider"
    by (simp_all add: demo_config_def apply_defaults_def default_config_def DefaultHardCap_def)
  have roots: "tsa_roots (\<lambda>_. Inr []) (\<lambda>_. None) (Inr []) demo_config = Inr (Some [], ''system'')"
    by (simp add: tsa_roots_def cfg default_config_def)
  obtain v where v: "new_verifier (Some []) (rc_maxClockSkew (cf_request demo_config)) (rc_requireESS (cf_request demo_config)) = Inr v"
    by (simp add: new_verifier_def cfg default_config_def duration_defs)
  obtain b where b: "new_builder (builder_options_of demo_config) = Inr b"
    by (simp add: new_builder_def builder_options_of_def cfg default_config_def hash_by_name_def to_lower_def to_lower_char_def
        trim_space_def is_space_def)
  obtain t where t: "tls_config_of (\<lambda>_. Inr []) (\<lambda>_. None) (\<lambda>_ _. Inl []) demo_config = Inr t"
    by (simp add: tls_config_of_def min_tls_version_def load_cert_pool_def cfg default_config_def)
  obtain cr where cr: "resolve_credentials demo_world demo_config = Inr cr"
    by (simp add: resolve_credentials_def cfg demo_provider_def auth_types get_env_def demo_world_def)
  obtain rid where rid: "new_run_id (\<lambda>_. Inr ''abcdef'') = Inr rid" by (simp add: new_run_id_def)
  have w: "\<exists>w. new_writer good_disk dir = Inr w" for dir using healthy_new [OF good_disk] by blast
  show ?thesis
    unfolding prepare_def sel roots v b t cr rid Let_def
    using w by (auto simp: roots v b t cr rid demo_flags_def split: prod.split) (metis and_then.simps(2) map_error.simps(2))
qed

lemma demo_ran: "\<exists>pr out r w st. run_load demo_machine [] = Some (Ran pr out r w st)"
proof -
  obtain pr where pr: "prepare demo_machine demo_flags demo_config smoke_profile = Inr pr" using demo_prepared by blast
  have lim: "lm_hardCap (cf_limits demo_config) = 50000" "lm_maxRequests (cf_limits demo_config) = 0"
    by (simp_all add: demo_config_def apply_defaults_def default_config_def DefaultHardCap_def)
  have env: "pv_environment (cf_provider demo_config) \<noteq> EnvLive"
    by (simp add: demo_config_def apply_defaults_def default_config_def DefaultHardCap_def demo_provider_def environments)
  have "validate_profile (\<lambda>_. 0) smoke_profile = None"
    by (simp add: validate_profile_None smoke_ok)
  then have "load_inputs demo_machine demo_flags = Inr (demo_config, smoke_profile)"
    using demo_load env by (simp add: load_inputs_def demo_machine_def demo_flags_def budget_def lim load_profile_def
        check_against_quota_def total_planned_def smoke_profile_def planned_def)
  moreover have "mc_parseFlags demo_machine [] = (demo_flags, True)" by (simp add: demo_machine_def)
  moreover have "check_run_flags demo_flags True = Inr demo_flags" by (simp add: check_run_flags_def demo_flags_def)
  moreover obtain out r where "run (mc_runEnv demo_machine (pr_cfg pr) (pr_profile pr) (pr_builder pr) (pr_verifier pr))
      (wire_runner demo_machine demo_flags pr) = Some (out, r)"
    using run_total [OF demo_responsive, of "[demo_stage 1]" "wire_runner demo_machine demo_flags pr"]
    by (auto simp: demo_machine_def)
  ultimately show ?thesis using pr by (auto simp: run_load_def split: prod.split)
qed

subsection \<open>Properties\<close>

text \<open>C4: No run without every gate, and no run beyond any of its limits.  Whenever the command got as
  far as running the profile, written authorisation and a positive bound were given on the command line,
  a live target was acknowledged, the planned requests fit the bound, and the units of quota spent exceed
  neither the operator's \<^verbatim>\<open>--max-requests\<close>, nor the configured \<^verbatim>\<open>max_requests\<close>, nor the hard
  cap, nor the sanity limit of ten million.\<close>

theorem run_gated:
  assumes "run_load M args = Some (Ran pr out r w st)"
  shows "\<exists>f. mc_parseFlags M args = (f, True) \<and>
    (pv_environment (cf_provider (pr_cfg pr)) = EnvLive \<longrightarrow> rf_ackLive f) \<and>
    total_planned (mc_oob M) (pr_profile pr) \<le> rf_maxRequests f \<and>
    oc_quotaUsed out \<le> rf_maxRequests f \<and>
    rf_maxRequests f \<le> lm_hardCap (cf_limits (pr_cfg pr)) \<and>
    lm_hardCap (cf_limits (pr_cfg pr)) \<le> 10000000 \<and>
    (0 < lm_maxRequests (cf_limits (pr_cfg pr)) \<longrightarrow> rf_maxRequests f \<le> lm_maxRequests (cf_limits (pr_cfg pr)))"
proof (rule run_load_Ran [OF assms])
  fix f ok rows
  assume f: "mc_parseFlags M args = (f, True)" and m: "0 < rf_maxRequests f"
    and inp: "load_inputs M f = Inr (pr_cfg pr, pr_profile pr)"
    and run: "run (run_env_of M pr) (wire_runner M f pr) = Some (out, r)"
  from inp show ?thesis
  proof (rule load_inputs_Inr)
    fix b
    assume l: "limits_ok (cf_limits (pr_cfg pr))" "budget (pr_cfg pr) (rf_maxRequests f) = Inr b"
      and live: "pv_environment (cf_provider (pr_cfg pr)) = EnvLive \<Longrightarrow> rf_ackLive f"
      and q: "check_against_quota (mc_oob M) (pr_profile pr) b (lm_hardCap (cf_limits (pr_cfg pr))) = None"
    note lim = wire_runner_limit [OF l(1) m l(2), of M]
    have "oc_quotaUsed out \<le> max 0 (rf_maxRequests f)"
      using run_end [OF wire_runner_fresh run] lim by (metis books_def)
    moreover have "total_planned (mc_oob M) (pr_profile pr) \<le> b"
      using q by (auto simp: check_against_quota_def Let_def split: if_splits)
    ultimately show ?thesis using f m lim live by auto
  qed
qed

theorem run_gated_witness:
  "\<exists>pr out r w st. run_load demo_machine [] = Some (Ran pr out r w st) \<and> oc_quotaUsed out \<le> 5"
proof -
  obtain pr out r w st where c: "run_load demo_machine [] = Some (Ran pr out r w st)" using demo_ran by blast
  from run_gated [OF c] have "oc_quotaUsed out \<le> 5" by (auto simp: demo_machine_def demo_flags_def)
  with c show ?thesis by blast
qed

text \<open>C16: The exit status says how the command ended.  A command that did not start exits with 1 or 2.
  One that ran exits with 0 only if the run completed or used up its budget, with 3 only if the circuit
  breaker tripped, with 130 only if it was interrupted before anything stopped it, with 1 only for an
  error; in all these cases the check of the audit record passed, and with 4 exactly when it failed.\<close>

theorem exit_status:
  assumes "run_load M args = Some result"
  shows "case result of
      Not_Started e \<Rightarrow> xe_code e \<in> {1, 2}
    | Ran pr out r w st \<Rightarrow>
        (let code = exit_code (map_option Exits st) in
         (code = 0 \<longrightarrow> oc_reason out \<in> {StopCompleted, StopQuota}) \<and>
         (code = 1 \<longrightarrow> oc_reason out = StopError) \<and>
         (code = 3 \<longrightarrow> has_tripped (rn_breaker r)) \<and>
         (code = 130 \<longrightarrow> oc_reason out = StopSignal \<and> \<not> rn_stopped r) \<and>
         (code = 4 \<longleftrightarrow> \<not> fst (finish_records M (case rn_sink r of None \<Rightarrow> [] | Some rows \<Rightarrow> rows) (pr_writer pr))) \<and>
         code \<in> {0, 1, 3, 4, 130})"
proof (cases result)
  case (Not_Started e)
  obtain f authorized where fl: "mc_parseFlags M args = (f, authorized)" by fastforce
  have li: "xe_code e \<in> {1, 2}" if "load_inputs M f = Inl e"
    using that by (auto simp: load_inputs_def fail_def Let_def and_then_Inl map_error_Inl
        split: if_splits option.splits)
  have pr: "xe_code e \<in> {1, 2}" if "prepare M f cfg p = Inl e" for cfg p
    using that by (auto simp: prepare_def fail_def Let_def and_then_Inl map_error_Inl split: if_splits)
  have ck: "xe_code e \<in> {1, 2}" if "check_run_flags f authorized = Inl e"
    using that by (auto simp: check_run_flags_def fail_def split: if_splits)
  have "and_then (check_run_flags f authorized) (\<lambda>f.
        and_then (load_inputs M f) (\<lambda>(cfg, p). map_sum id (Pair f) (prepare M f cfg p))) = Inl e"
    using assms Not_Started fl by (auto simp: run_load_def split: sum.splits option.splits prod.splits)
  then have "xe_code e \<in> {1, 2}"
    using li pr ck by (auto simp: and_then_Inl map_sum_Inl check_run_flags_Inr)
  then show ?thesis by (simp add: Not_Started)
next
  case (Ran pr out r w st)
  show ?thesis
  proof (rule run_load_Ran [OF assms [unfolded Ran]])
    fix f ok rows
    assume run: "run (run_env_of M pr) (wire_runner M f pr) = Some (out, r)"
      and rows: "rows = (case rn_sink r of None \<Rightarrow> [] | Some rows \<Rightarrow> rows)"
      and fin: "finish_records M rows (pr_writer pr) = (ok, w)" and st: "st = run_status (pr_dir pr) ok out"
    obtain t b L n P rs h where bk: "books t b L n P r rs h"
      and s: "rn_stopped r \<Longrightarrow> oc_reason out = rn_reason r"
      and u: "\<not> rn_stopped r \<Longrightarrow> oc_reason out \<in> {StopCompleted, StopError, StopSignal}"
      using run_end [OF wire_runner_fresh run] by metis
    have "stop_sound r" using bk by (simp add: books_def)
    with s have "rn_stopped r \<Longrightarrow> oc_reason out \<in> {StopQuota, StopBreaker, StopError} \<and>
        (oc_reason out = StopBreaker \<longrightarrow> has_tripped (rn_breaker r))"
      by (auto simp: stop_sound_def)
    with u show ?thesis
      unfolding Ran by (cases "rn_stopped r")
        (auto simp: st run_status_def fail_def fin stop_reasons simp flip: rows)
  qed
qed

theorem exit_status_witness:
  "\<exists>pr out r w st. run_load demo_machine [] = Some (Ran pr out r w st) \<and>
     exit_code (map_option Exits st) \<in> {0, 1, 3, 4, 130}"
proof -
  obtain pr out r w st where c: "run_load demo_machine [] = Some (Ran pr out r w st)" using demo_ran by blast
  from exit_status [OF c] c show ?thesis by (auto simp: Let_def)
qed

text \<open>A run that the budget cut short exits with 0, the status the documentation gives to a completed run.\<close>

theorem quota_stop_exits_zero:
  "oc_reason out = StopQuota \<Longrightarrow> exit_code (map_option Exits (run_status dir True out)) = 0"
  by (simp add: run_status_def stop_reasons)

theorem quota_stop_exits_zero_witness:
  "exit_code (map_option Exits (run_status ''d'' True
     \<lparr>oc_reason = StopQuota, oc_reasonDetail = [], oc_startedAt = 0, oc_endedAt = 0, oc_quotaUsed = 1,
      oc_quotaBudget = 1, oc_authRequests = 0, oc_partial = True\<rparr>)) = 0"
  by (rule quota_stop_exits_zero) simp

subsection \<open>The check of the audit record\<close>

lemma last_csv_text: "rows \<noteq> [] \<Longrightarrow> last (csv_text rows) = CHR 0x0A \<and> csv_text rows \<noteq> []"
  by (induction rows) (auto simp: csv_text_def csv_row_def)

lemma no_newline_suffix: "newlines s = 0 \<Longrightarrow> t @ s = u \<Longrightarrow> u \<noteq> [] \<Longrightarrow> last u = CHR 0x0A \<Longrightarrow> s = []"
  by (cases s rule: rev_cases) auto


lemma good_disk_flushed:
  assumes "new_writer good_disk dir = Inr w0" and w_def: "w = run_writer good_disk (ops @ [FlushRows]) w0"
  shows "of_err (wr_requests w) = None" "of_disk (wr_requests w) = csv_text (request_rows (attempts_of ops))"
    "of_buf (wr_requests w) = []" "rows_of w = s64 (int (length (attempts_of ops)))"
proof -
  have s: "sound_writer (run_writer good_disk ops w0)"
    using healthy_new [OF good_disk, of dir] healthy_run [OF good_disk] assms(1) by auto
  obtain w' where fl: "flush_locked good_disk (run_writer good_disk ops w0) = (None, w')"
    using healthy_flush_locked [OF good_disk s] by blast
  have w: "w = w'" using fl by (simp add: w_def run_writer_def)
  note h = flush_locked_holds [OF run_writer_holds [OF new_writer_holds [OF assms(1)]] fl]
  show "of_err (wr_requests w) = None" "of_disk (wr_requests w) = csv_text (request_rows (attempts_of ops))"
    "rows_of w = s64 (int (length (attempts_of ops)))"
    "of_buf (wr_requests w) = []"
    using h by (auto simp: w files_hold_def holds_def rows_of_def)
qed


end
