(* ===== verification/Command_Corners.thy ===== *)
theory Command_Corners
  imports Command_Properties
begin

text \<open>
  Corners of the audit record and of the result paths in which the code does something else than its
  comments say.
\<close>

lemma length_double: "length s \<le> length (csv_double s)"
  by (induction s) auto

lemma length_join: "f \<in> set fs \<Longrightarrow> length f \<le> length (join '','' fs)"
  by (induction "'',''" fs rule: join.induct) auto

lemma length_csv_row: "f \<in> set fs \<Longrightarrow> length f < length (csv_row fs)"
proof -
  assume f: "f \<in> set fs"
  have "length f \<le> length (csv_field f)" using length_double [of f] by (simp add: csv_field_def)
  also have "\<dots> \<le> length (join '','' (map csv_field fs))" using f by (intro length_join) simp
  finally show ?thesis by (simp add: csv_row_def)
qed

lemma header_text: "csv_row request_header =
    ''sequence,stage,scheduled_at,started_at,completed_at,schedule_lag_ms,total_ms,network_ms,verify_ms,'' @
    ''http_status,outcome,error_class,clock_skew_ms'' @ [CHR 0x0A]"
  by code_simp

lemma error_header_text: "csv_row error_header = ''sequence,stage,started_at,error_class,http_status,detail'' @ [CHR 0x0A]"
  by code_simp

definition fresh_writer :: "string \<Rightarrow> writer" where
  "fresh_writer dir = \<lparr>wr_dir = dir,
     wr_requests = (open_file 262144 (path_join [dir, ''requests.csv'']))\<lparr>of_buf := csv_row request_header\<rparr>,
     wr_errors = (open_file 65536 (path_join [dir, ''errors.csv'']))\<lparr>of_buf := csv_row error_header\<rparr>,
     wr_log = open_file 0 (path_join [dir, ''run.log'']), wr_rows = 0, wr_closed = False\<rparr>"

text \<open>The headers only fill the buffers, so a new writer does not depend on what writes answer.\<close>

lemma new_writer_fresh:
  "os_mkdir E dir = None \<Longrightarrow> (\<And>p. os_open E p = None) \<Longrightarrow> new_writer E dir = Inr (fresh_writer dir)"
  by (simp add: new_writer_def open_or_def start_csv_def buf_write_def open_file_def fresh_writer_def
      header_text error_header_text Let_def)

text \<open>Only rows that the CSV writer accepted are counted.  When the disk fills up in the middle of a
  row, that row is lost, its write reports an error (which the runner only logs), and the check of the
  record still passes.\<close>

definition full_disk :: os_env where
  "full_disk = good_disk\<lparr>os_write := (\<lambda>_ _ _. Some (length (csv_row request_header), ''no space left on device''))\<rparr>"

definition long_attempt :: attempt where
  "long_attempt = (demo_attempt None)\<lparr>a_stage := replicate 262144 (CHR ''x'')\<rparr>"

theorem dropped_row_passes_check:
  "\<exists>w. new_writer full_disk ''d'' = Inr (fresh_writer ''d'') \<and>
     w = run_writer full_disk [WriteAttempt long_attempt] (fresh_writer ''d'') \<and>
     fst (write_attempt full_disk long_attempt (fresh_writer ''d'')) = Some ''no space left on device'' \<and>
     of_disk (wr_requests w) = csv_text [request_header] \<and>
     verify_record_integrity (Inr (of_disk (wr_requests w))) (rows_of w)"
proof -
  let ?h = "csv_row request_header" and ?r = "csv_row (request_row long_attempt)"
  define n where "n = length ?h"
  have h: "n = 144" by (simp add: n_def header_text)
  have "a_stage long_attempt \<in> set (request_row long_attempt)" by (simp add: request_row_def)
  from length_csv_row [OF this] have r: "262144 < length ?r" by (simp add: long_attempt_def)
  have new: "new_writer full_disk ''d'' = Inr (fresh_writer ''d'')"
    by (rule new_writer_fresh) (simp_all add: full_disk_def good_disk_def)
  have bw: "\<exists>f. buf_write full_disk ?r (wr_requests (fresh_writer ''d'')) = (Some ''no space left on device'', f) \<and>
      of_disk f = ?h"
    using r h by (auto simp: buf_write_def fresh_writer_def open_file_def buf_flush_def file_write_def
        full_disk_def good_disk_def Let_def simp flip: n_def) (simp_all add: n_def)
  then obtain f where f: "buf_write full_disk ?r (wr_requests (fresh_writer ''d'')) = (Some ''no space left on device'', f)"
    "of_disk f = ?h" by blast
  have w: "write_attempt full_disk long_attempt (fresh_writer ''d'') =
      (Some ''no space left on device'', (fresh_writer ''d'')\<lparr>wr_requests := f\<rparr>)"
    using f(1) by (simp add: write_attempt_def) (simp add: fresh_writer_def)
  have c: "newlines ?h = 1" by (simp add: header_text)
  show ?thesis using new w f(2) c
    by (simp add: run_writer_def verify_record_integrity_def count_data_rows_def rows_of_def Let_def)
      (simp add: fresh_writer_def)
qed

text \<open>A row written by a worker that outlived the grace period, after the flush and before the check,
  makes the check fail although closing the writer stores it: a complete record is reported as
  incomplete.\<close>

definition late_attempt :: attempt where
  "late_attempt = \<lparr>a_stage = ''soak'', a_sequence = 7, a_scheduledAt = 0, a_startedAt = 0, a_completedAt = 0,
     a_scheduleLag = 0, a_total = 0, a_network = 0, a_verify = 0, a_httpStatus = 200, a_err = None,
     a_clockSkew = 0, a_warnings = []\<rparr>"

lemma small_dec: "n < 10 \<Longrightarrow> nat_dec n = [digit_char n]"
  by (subst nat_dec.simps) simp

lemma digits: "digit_char 0 = CHR ''0''" "digit_char 1 = CHR ''1''" "digit_char 2 = CHR ''2''" "digit_char 7 = CHR ''7''"
  by code_simp+

lemma ms_zero: "ms 0 = ''0.000''"
proof -
  have "ms_float 0 = Fin 0" by (simp add: ms_float_def millisecond_def)
  moreover have "rne 0 = 0" using rne_of_int [of 0] by simp
  ultimately show ?thesis
    by (simp add: ms_def fmt_fixed_def small_dec pad_dec_def digits numeral_3_eq_3)
qed

lemma int_dec_200: "int_dec 200 = ''200''"
proof -
  have "nat_dec 200 = nat_dec 20 @ [digit_char 0]" by (subst nat_dec.simps) simp
  moreover have "nat_dec 20 = nat_dec 2 @ [digit_char 0]" by (subst nat_dec.simps) simp
  ultimately show ?thesis by (simp add: int_dec_def small_dec digits)
qed

lemma late_row: "csv_row (request_row late_attempt) =
    ''7,soak,,,,0.000,0.000,0.000,0.000,200,verified,,0.000'' @ [CHR 0x0A]"
proof -
  have "int_dec 7 = ''7''" "ts 0 = []"
    by (simp_all add: int_dec_def small_dec digits ts_def is_zero_time_def)
  then have r: "request_row late_attempt = [''7'', ''soak'', [], [], [], ''0.000'', ''0.000'', ''0.000'',
      ''0.000'', ''200'', ''verified'', [], ''0.000'']"
    by (simp add: request_row_def late_attempt_def succeeded_def error_class_field_def ms_zero int_dec_200)
  show ?thesis unfolding r by code_simp
qed

theorem late_row_false_alarm:
  "\<exists>w. finish_records (demo_machine\<lparr>mc_lateRows := [late_attempt]\<rparr>) [] (fresh_writer ''d'') = (False, w) \<and>
     of_disk (wr_requests w) = csv_text (request_rows [late_attempt])"
proof -
  let ?f = "(fresh_writer ''d'')\<lparr>wr_requests := (open_file 262144 (path_join [''d'', ''requests.csv'']))\<lparr>of_disk := csv_row request_header, of_writes := 1\<rparr>,
      wr_errors := (open_file 65536 (path_join [''d'', ''errors.csv'']))\<lparr>of_disk := csv_row error_header, of_writes := 1\<rparr>\<rparr>"
  have ne: "csv_row request_header \<noteq> []" "csv_row error_header \<noteq> []" by (simp_all add: csv_row_def)
  have f: "run_writer good_disk [FlushRows] (fresh_writer ''d'') = ?f"
    using ne by (simp add: run_writer_def flush_locked_def buf_flush_def file_write_def fresh_writer_def open_file_def good_disk_def)
  have "length (csv_row (request_row late_attempt)) \<le> 262144" by (simp add: late_row)
  then have w: "run_writer good_disk [WriteAttempt late_attempt] ?f = ?f\<lparr>wr_requests :=
      (wr_requests ?f)\<lparr>of_buf := csv_row (request_row late_attempt)\<rparr>, wr_rows := 1\<rparr>"
    by (simp add: run_writer_def write_attempt_def buf_write_def open_file_def fresh_writer_def inc_def)
      (simp add: late_attempt_def)
  have c: "newlines (csv_row request_header) = 1" by (simp add: header_text)
  have r: "csv_row (request_row late_attempt) \<noteq> []" by (simp add: csv_row_def)
  show ?thesis
    using f w c r ne
    by (simp add: finish_records_def demo_machine_def verify_record_integrity_def count_data_rows_def rows_of_def
        Let_def close_writer_def flush_locked_def buf_flush_def file_write_def file_close_def open_file_def
        fresh_writer_def good_disk_def request_rows_def csv_text_def)
qed

text \<open>A stage name may contain a line feed.  Its rows are quoted and complete, but the check counts
  lines, so it reports the record as incomplete.\<close>

definition two_line_name :: string where
  "two_line_name = ''warm'' @ [CHR 0x0A] @ ''up''"

theorem newline_false_alarm:
  "validate_profile (\<lambda>_. 0) (smoke_profile\<lparr>prf_stages := map (stg_name_update (\<lambda>_. two_line_name)) (prf_stages smoke_profile)\<rparr>) = None \<and>
   (\<exists>w0 w. new_writer good_disk ''d'' = Inr w0 \<and>
      w = run_writer good_disk ([WriteAttempt ((demo_attempt None)\<lparr>a_stage := two_line_name\<rparr>)] @ [FlushRows]) w0 \<and>
      of_disk (wr_requests w) = csv_text (request_rows [(demo_attempt None)\<lparr>a_stage := two_line_name\<rparr>]) \<and>
      \<not> verify_record_integrity (Inr (of_disk (wr_requests w))) (rows_of w))"
proof
  let ?a = "(demo_attempt None)\<lparr>a_stage := two_line_name\<rparr>"
  show "validate_profile (\<lambda>_. 0) (smoke_profile\<lparr>prf_stages := map (stg_name_update (\<lambda>_. two_line_name)) (prf_stages smoke_profile)\<rparr>) = None"
    by (simp add: validate_profile_None profile_ok_def smoke_profile_def stage_ok_def two_line_name_def
        trim_space_def is_space_def)
  obtain w0 where w0: "new_writer good_disk ''d'' = Inr w0" using healthy_new [OF good_disk] by blast
  define w where "w = run_writer good_disk ([WriteAttempt ?a] @ [FlushRows]) w0"
  note fl = good_disk_flushed [OF w0 w_def]
  have "row_newlines ?a = 1"
    by (simp add: row_newlines_def two_line_name_def error_class_field_def succeeded_def demo_attempt_def)
  then have "\<not> verify_record_integrity (Inr (of_disk (wr_requests w))) (rows_of w)"
    by (simp add: fl verify_record_integrity_def count_request_rows)
  with w0 w_def fl(2) show "\<exists>w0 w. new_writer good_disk ''d'' = Inr w0 \<and>
      w = run_writer good_disk ([WriteAttempt ?a] @ [FlushRows]) w0 \<and>
      of_disk (wr_requests w) = csv_text (request_rows [?a]) \<and>
      \<not> verify_record_integrity (Inr (of_disk (wr_requests w))) (rows_of w)"
    by auto
qed

text \<open>Dots are kept when a provider name becomes a path component, so a provider called \<^verbatim>\<open>..\<close>
  puts the results beside the output directory instead of below it.\<close>

theorem run_dir_escapes:
  "run_dir ''results'' ''..'' 0 ''r1'' = ''00010101T000000Z-r1''"
proof -
  have p: "pad_dec 4 (Suc 0) = ''0001''" "pad_dec 2 (Suc 0) = ''01''" "pad_dec 2 0 = ''00''"
    using digits by (simp_all add: pad_dec_def small_dec numeral_eq_Suc)
  have "civil_of_day 0 = (1, 1, 1)"
    by (simp add: civil_of_day_def year_of_day_def month_lengths_def)
  then have "format_compact 0 = ''00010101T000000Z''"
    by (simp add: format_compact_def go_year_def p nanos_per_day_def)
  moreover have "sanitize_path ''..'' = ''..''"
    by (simp add: sanitize_path_def path_rune_def path_safe_def byte_def)
  ultimately have r: "run_dir ''results'' ''..'' 0 ''r1'' = path_join [''results'', ''..'', ''00010101T000000Z-r1'']"
    by (simp add: run_dir_def)
  show ?thesis unfolding r by code_simp
qed

text \<open>A profile that \<^verbatim>\<open>validate\<close> accepts, because it fits the configured limits, is rejected by
  \<^verbatim>\<open>run\<close> when the operator's bound is smaller.\<close>

theorem validate_accepts_run_rejects:
  "(\<exists>b. budget demo_config 0 = Inr b \<and> check_against_quota (\<lambda>_. 0) smoke_profile b (lm_hardCap (cf_limits demo_config)) = None) \<and>
   (\<exists>b. budget demo_config 4 = Inr b \<and> check_against_quota (\<lambda>_. 0) smoke_profile b (lm_hardCap (cf_limits demo_config)) \<noteq> None)"
  by (simp add: budget_def demo_config_def apply_defaults_def default_config_def DefaultHardCap_def
      check_against_quota_def total_planned_def smoke_profile_def planned_def)

end
