(* ===== verification/Report_Comparison.thy ===== *)
theory Report_Comparison
  imports Report_Summary
begin

text \<open>
  The comparison of several runs, \<^verbatim>\<open>internal/report/comparison.go\<close>.  Reading a file and
  decoding JSON are parameters.
\<close>

record comparison_entry =
  ce_provider :: string
  ce_environment :: string
  ce_runID :: string
  ce_directory :: string
  ce_startedAt :: time
  ce_durationS :: f64
  ce_targetTPS :: f64
  ce_achievedTPS :: f64
  ce_totalRequests :: int
  ce_verified :: int
  ce_failed :: int
  ce_successRate :: f64
  ce_timeoutRate :: f64
  ce_minMS :: f64
  ce_meanMS :: f64
  ce_p95MS :: f64
  ce_p99MS :: f64
  ce_maxMS :: f64
  ce_clientBottleneck :: bool
  ce_bottleneckDetail :: string
  ce_partial :: bool
  ce_stopReason :: string
  ce_errors :: "error_count list"
  ce_sustainedStage :: string
  ce_sustainedSeconds :: f64
  ce_sustainedTPS :: f64

record comparison =
  cm_schema :: string
  cm_generatedAt :: time
  cm_entries :: "comparison_entry list"
  cm_notes :: "string list"
  cm_limitations :: "string list"
  cm_anyLive :: bool

definition load_summary ::
    "(string \<Rightarrow> string + bytes) \<Rightarrow> (bytes \<Rightarrow> string + summary) \<Rightarrow> string \<Rightarrow> string + summary" where
  "load_summary read_file unmarshal dir =
     (let path = path_join [dir, ''summary.json''] in
      (case read_file path of
         Inl e \<Rightarrow> Inl (''read '' @ path @ '': '' @ e)
       | Inr raw \<Rightarrow>
      (case unmarshal raw of
         Inl e \<Rightarrow> Inl (''parse '' @ path @ '': '' @ e)
       | Inr s \<Rightarrow>
          (if su_schema s \<noteq> schema_version
           then Inl (path @ '' has schema '' @ go_quote (su_schema s) @ '', this build understands '' @
                go_quote schema_version)
           else Inr s))))"

text \<open>The headline stage: the highest target rate, ties broken by duration.\<close>

definition headline_step :: "stage_summary \<Rightarrow> comparison_entry \<Rightarrow> comparison_entry" where
  "headline_step st e =
     (if sy_targetTPS st > ce_sustainedTPS e
         \<or> feq (sy_targetTPS st) (ce_sustainedTPS e) \<and> sy_durationS st > ce_sustainedSeconds e
      then e\<lparr>ce_sustainedTPS := sy_targetTPS st, ce_sustainedSeconds := sy_durationS st,
             ce_sustainedStage := sy_name st, ce_targetTPS := sy_targetTPS st\<rparr>
      else e)"

definition entry_base :: "string \<Rightarrow> summary \<Rightarrow> comparison_entry" where
  "entry_base dir s = (let o' = su_overall s; l = sy_latency o' in
     \<lparr>ce_provider = pi_name (md_provider (su_metadata s)),
      ce_environment = pi_environment (md_provider (su_metadata s)),
      ce_runID = md_runID (su_metadata s), ce_directory = dir,
      ce_startedAt = md_startedAt (su_metadata s), ce_durationS = su_durationS s,
      ce_targetTPS = Fin 0, ce_achievedTPS = sy_actualSendTPS o', ce_totalRequests = sy_sent o',
      ce_verified = sy_verified o', ce_failed = sy_failed o', ce_successRate = sy_successRate o',
      ce_timeoutRate = sy_timeoutRate o', ce_minMS = ls_minMS l, ce_meanMS = ls_meanMS l,
      ce_p95MS = ls_p95MS l, ce_p99MS = ls_p99MS l, ce_maxMS = ls_maxMS l,
      ce_clientBottleneck = su_clientBottleneck s, ce_bottleneckDetail = su_clientBottleneckWhy s,
      ce_partial = su_partial s, ce_stopReason = su_stopReason s, ce_errors = sy_errors o',
      ce_sustainedStage = [], ce_sustainedSeconds = Fin 0, ce_sustainedTPS = Fin 0\<rparr>)"

definition comparison_entry_of :: "string \<Rightarrow> summary \<Rightarrow> comparison_entry" where
  "comparison_entry_of dir s = fold headline_step (su_stages s) (entry_base dir s)"

definition provider_before :: "comparison_entry \<Rightarrow> comparison_entry \<Rightarrow> bool" where
  "provider_before a b \<longleftrightarrow> ce_provider a < ce_provider b"

definition build_comparison :: "string list \<Rightarrow> summary list \<Rightarrow> time \<Rightarrow> comparison" where
  "build_comparison dirs summaries generatedAt =
     (let anyLive = list_ex (\<lambda>s. pi_environment (md_provider (su_metadata s)) = ''live'') summaries in
      \<lparr>cm_schema = schema_version, cm_generatedAt = generatedAt,
       cm_entries = sort_slice provider_before (map2 comparison_entry_of dirs summaries),
       cm_notes = [histogram_precision_note, coordinated_omission_note,
         ''Providers must be tested sequentially, not concurrently, and from the same host and network '' @
         ''egress. Runs made under different conditions are not comparable.''],
       cm_limitations =
         [''Each figure describes one bounded test window at a fixed target rate; it is not a guarantee of '' @
          ''sustained production capacity.'',
          ''Where a run is marked as client-bottlenecked, that provider'' @ [CHR 0x27] @ ''s figures are a lower bound on its '' @
          ''capacity, not a measurement of it.'',
          ''Success requires the full RFC 3161 acceptance chain to pass, so these success rates are stricter '' @
          ''than an HTTP-level availability figure.''] @
         (if anyLive then
            [''At least one run targeted a live production service shared with real customer traffic; '' @
             ''concurrent third-party load is an uncontrolled variable.''] else []),
       cm_anyLive = anyLive\<rparr>)"

subsection \<open>The table\<close>

definition comparison_header :: "string list" where
  "comparison_header = [''provider'', ''environment'', ''run_id'', ''sustained_stage'', ''sustained_target_tps'',
     ''sustained_seconds'', ''achieved_tps'', ''total_requests'', ''verified'', ''failed'',
     ''success_rate'', ''timeout_rate'', ''min_ms'', ''mean_ms'', ''p95_ms'', ''p99_ms'', ''max_ms'',
     ''client_bottleneck'', ''partial'', ''stop_reason'']"

definition comparison_row :: "comparison_entry \<Rightarrow> string list" where
  "comparison_row e = [ce_provider e, ce_environment e, ce_runID e, ce_sustainedStage e,
     fmt_fixed 2 (ce_sustainedTPS e), fmt_fixed 1 (ce_sustainedSeconds e), fmt_fixed 2 (ce_achievedTPS e),
     int_dec (ce_totalRequests e), int_dec (ce_verified e), int_dec (ce_failed e),
     fmt_fixed 6 (ce_successRate e), fmt_fixed 6 (ce_timeoutRate e), fmt_fixed 2 (ce_minMS e),
     fmt_fixed 2 (ce_meanMS e), fmt_fixed 2 (ce_p95MS e), fmt_fixed 2 (ce_p99MS e), fmt_fixed 2 (ce_maxMS e),
     bool_text (ce_clientBottleneck e), bool_text (ce_partial e), ce_stopReason e]"

definition write_comparison_csv :: "os_env \<Rightarrow> string \<Rightarrow> comparison \<Rightarrow> io_error option \<times> out_file option" where
  "write_comparison_csv E path c =
     write_csv_file E False path (comparison_header # map comparison_row (cm_entries c))"

subsection \<open>The error matrix of the page\<close>

type_synonym error_matrix = "string \<rightharpoonup> string \<rightharpoonup> int"

definition matrix_put :: "string \<Rightarrow> error_count \<Rightarrow> error_matrix \<Rightarrow> error_matrix" where
  "matrix_put provider ec m =
     (if ec_class ec = ''ok'' then m
      else m(ec_class ec \<mapsto>
        (case m (ec_class ec) of None \<Rightarrow> Map.empty | Some row \<Rightarrow> row)(provider \<mapsto> ec_count ec)))"

definition matrix_entry :: "comparison_entry \<Rightarrow> error_matrix \<Rightarrow> error_matrix" where
  "matrix_entry e m = fold (matrix_put (ce_provider e)) (ce_errors e) m"

definition matrix_of :: "comparison_entry list \<Rightarrow> error_matrix" where
  "matrix_of es = fold matrix_entry es Map.empty"

definition error_classes :: "comparison_entry list \<Rightarrow> string list" where
  "error_classes es =
     sort (remdups (filter (\<lambda>c. c \<noteq> ''ok'') (concat (map (\<lambda>e. map ec_class (ce_errors e)) es))))"

text \<open>\<^verbatim>\<open>comparisonData\<close> and \<^verbatim>\<open>WriteComparisonHTML\<close>: parsing the template, and what executing it
  hands to the file, are parameters.\<close>

record comparison_data =
  cd_comparison :: comparison
  cd_errorClasses :: "string list"
  cd_errorMatrix :: error_matrix

definition comparison_data_of :: "comparison \<Rightarrow> comparison_data" where
  "comparison_data_of c = \<lparr>cd_comparison = c, cd_errorClasses = error_classes (cm_entries c),
     cd_errorMatrix = matrix_of (cm_entries c)\<rparr>"

definition write_page ::
    "os_env \<Rightarrow> string \<Rightarrow> io_error option \<Rightarrow> ('d \<Rightarrow> string + bytes) \<Rightarrow> string \<Rightarrow> 'd \<Rightarrow> io_error option \<times> out_file option" where
  "write_page E what parse_err execute path d =
     (case parse_err of
        Some e \<Rightarrow> (Some (''parse '' @ what @ '' template: '' @ e), None)
      | None \<Rightarrow> write_json_file E execute path d)"

definition write_comparison_html ::
    "os_env \<Rightarrow> io_error option \<Rightarrow> (comparison_data \<Rightarrow> string + bytes) \<Rightarrow> string \<Rightarrow> comparison \<Rightarrow>
     io_error option \<times> out_file option" where
  "write_comparison_html E parse_err execute path c =
     write_page E ''comparison'' parse_err execute path (comparison_data_of c)"

subsection \<open>Properties\<close>

definition ordered_stage :: "stage_summary \<Rightarrow> bool" where
  "ordered_stage st \<longleftrightarrow> sy_targetTPS st \<noteq> FNaN \<and> sy_durationS st \<noteq> FNaN"

text \<open>The stage stands below the headline of an entry, or at it.\<close>

definition below :: "stage_summary \<Rightarrow> comparison_entry \<Rightarrow> bool" where
  "below st e \<longleftrightarrow> sy_targetTPS st < ce_sustainedTPS e \<or>
     sy_targetTPS st = ce_sustainedTPS e \<and> \<not> ce_sustainedSeconds e < sy_durationS st"

definition headline_of :: "stage_summary \<Rightarrow> comparison_entry \<Rightarrow> bool" where
  "headline_of st e \<longleftrightarrow> ce_sustainedStage e = sy_name st \<and> ce_sustainedTPS e = sy_targetTPS st \<and>
     ce_sustainedSeconds e = sy_durationS st \<and> ce_targetTPS e = sy_targetTPS st"

definition ordered_entry :: "comparison_entry \<Rightarrow> bool" where
  "ordered_entry e \<longleftrightarrow> ce_sustainedTPS e \<noteq> FNaN \<and> ce_sustainedSeconds e \<noteq> FNaN"

lemma f64_cases3: "x \<noteq> FNaN \<Longrightarrow> y \<noteq> FNaN \<Longrightarrow> x < y \<or> x = y \<or> y < (x :: f64)"
  by (cases x; cases y) auto

lemma f64_not_less_chain:
  "x \<noteq> FNaN \<Longrightarrow> y \<noteq> FNaN \<Longrightarrow> z \<noteq> FNaN \<Longrightarrow> \<not> x < y \<Longrightarrow> \<not> y < z \<Longrightarrow> \<not> x < (z :: f64)"
  by (cases x; cases y; cases z) auto

lemma headline_step_below:
  assumes "ordered_stage st" "ordered_entry e"
  shows "ordered_entry (headline_step st e)" "below st (headline_step st e)"
    and "ordered_stage s \<Longrightarrow> below s e \<Longrightarrow> below s (headline_step st e)"
    and "headline_of st (headline_step st e) \<or> headline_step st e = e"
proof -
  show "ordered_entry (headline_step st e)"
    using assms by (simp add: headline_step_def ordered_stage_def ordered_entry_def)
  show "headline_of st (headline_step st e) \<or> headline_step st e = e"
    by (simp add: headline_step_def headline_of_def)
  show "below st (headline_step st e)"
    using assms f64_cases3 [of "sy_targetTPS st" "ce_sustainedTPS e"]
    by (auto simp: headline_step_def below_def ordered_stage_def ordered_entry_def feq_def)
  show "below s (headline_step st e)" if "ordered_stage s" "below s e"
    using that assms f64_less_trans [of "sy_targetTPS s" "ce_sustainedTPS e" "sy_targetTPS st"]
      f64_not_less_chain [of "sy_durationS st" "ce_sustainedSeconds e" "sy_durationS s"]
      f64_less_trans [of "sy_durationS st" "ce_sustainedSeconds e" "sy_durationS st"]
    by (auto simp: headline_step_def below_def ordered_stage_def ordered_entry_def feq_def)
qed

lemma headline_fold:
  "list_all ordered_stage sts \<Longrightarrow> ordered_entry e \<Longrightarrow>
     ordered_entry (fold headline_step sts e) \<and>
     (\<forall>s. ordered_stage s \<longrightarrow> below s e \<longrightarrow> below s (fold headline_step sts e)) \<and>
     (\<forall>st \<in> set sts. below st (fold headline_step sts e)) \<and>
     (fold headline_step sts e = e \<or> (\<exists>st \<in> set sts. headline_of st (fold headline_step sts e)))"
proof (induction sts arbitrary: e)
  case (Cons st sts)
  then have st: "ordered_stage st" "list_all ordered_stage sts" by simp_all
  note step = headline_step_below [OF st(1) Cons.prems(2)]
  note ih = Cons.IH [OF st(2) step(1)]
  show ?case using ih step(2-4) st by (auto simp: list_all_iff)
qed simp

text \<open>The headline of a comparison is the run's hardest stage.  When no rate or duration of a
  summary is a NaN, no stage has a higher target rate than the one the entry quotes, none of the same rate
  lasted longer, and if any stage had a positive rate the quoted name, rate and duration are those of one
  stage of the run.\<close>

theorem comparison_headline:
  assumes "list_all ordered_stage (su_stages s)"
  shows "(\<forall>st \<in> set (su_stages s). below st (comparison_entry_of dir s)) \<and>
    ((\<exists>st \<in> set (su_stages s). Fin 0 < sy_targetTPS st) \<longrightarrow>
      (\<exists>st \<in> set (su_stages s). headline_of st (comparison_entry_of dir s)))"
proof -
  have b: "ordered_entry (entry_base dir s)" "ce_sustainedTPS (entry_base dir s) = Fin 0"
    by (simp_all add: ordered_entry_def entry_base_def Let_def)
  note f = headline_fold [OF assms b(1), folded comparison_entry_of_def]
  have "comparison_entry_of dir s \<noteq> entry_base dir s" if "st \<in> set (su_stages s)" "Fin 0 < sy_targetTPS st" for st
    using f that b(2) f64_less_trans [of "Fin 0" "sy_targetTPS st" "Fin 0"] by (auto simp: below_def)
  then show ?thesis using f by blast
qed

definition demo_summary :: "metadata \<Rightarrow> outcome \<Rightarrow> summary" where
  "demo_summary meta out = build_summary (\<lambda>_. ([], [])) 8
     \<lparr>lookup_env = Map.empty, w_url = \<lparr>url_parse = (\<lambda>_. None), url_string = (\<lambda>_. [])\<rparr>,
       parse_ip = (\<lambda>_. None), file_stat = (\<lambda>_. None), map_order = id\<rparr> meta
     (snd (register_stage ''soak'' (Fin 20) 12000 (snd (register_stage ''ramp'' (Fin 5) 300 (new_collector 0)))))
     out None default_config"

lemma demo_summary_stages: "su_stages (demo_summary meta out) =
    map (summarise (\<lambda>_. ([], []))) [new_stage_stats ''ramp'' (Fin 5) 300, new_stage_stats ''soak'' (Fin 20) 12000]"
  by (simp add: demo_summary_def build_summary_sel register_stage_def new_collector_def)

lemma summarise_idle:
  "sy_targetTPS (summarise v (new_stage_stats nm t pl)) = t"
  "sy_durationS (summarise v (new_stage_stats nm t pl)) = Fin 0"
  "sy_name (summarise v (new_stage_stats nm t pl)) = nm"
  by (simp_all add: summarise_def stage_summary_of_def Let_def stage_duration_def send_span_def
      send_window_def new_stage_stats_def is_zero_time_def)

theorem comparison_headline_witness:
  "\<forall>meta out. \<exists>st \<in> set (su_stages (demo_summary meta out)). headline_of st (comparison_entry_of ''run'' (demo_summary meta out))"
proof (intro allI)
  fix meta out
  have o: "list_all ordered_stage (su_stages (demo_summary meta out))"
    by (simp add: demo_summary_stages ordered_stage_def summarise_idle)
  have "\<exists>st \<in> set (su_stages (demo_summary meta out)). Fin 0 < sy_targetTPS st"
    by (simp add: demo_summary_stages summarise_idle)
  with comparison_headline [OF o]
  show "\<exists>st \<in> set (su_stages (demo_summary meta out)). headline_of st (comparison_entry_of ''run'' (demo_summary meta out))"
    by blast
qed

text \<open>One cell of the matrix.\<close>

definition cell :: "error_matrix \<Rightarrow> string \<Rightarrow> string \<Rightarrow> int option" where
  "cell m c p = (case m c of None \<Rightarrow> None | Some row \<Rightarrow> row p)"

lemma cell_put: "cell (matrix_put p0 x m) c p =
    (if c \<noteq> ''ok'' \<and> c = ec_class x \<and> p = p0 then Some (ec_count x) else cell m c p)"
  by (auto simp: cell_def matrix_put_def split: option.splits)

lemma cell_puts:
  "distinct (map ec_class xs) \<Longrightarrow> cell (fold (matrix_put p0) xs m) c p =
     (if c \<noteq> ''ok'' \<and> p = p0 \<and> c \<in> ec_class ` set xs then map_of (map (\<lambda>x. (ec_class x, ec_count x)) xs) c
      else cell m c p)"
proof (induction xs arbitrary: m)
  case (Cons x xs)
  then show ?case by (auto simp: cell_put map_of_eq_None_iff split: if_splits)
qed simp

lemma cell_entry:
  assumes "distinct (map ec_class (ce_errors e))"
  shows "cell (matrix_entry e m) c p = Some n \<longleftrightarrow>
    (if c \<noteq> ''ok'' \<and> p = ce_provider e \<and> c \<in> ec_class ` set (ce_errors e)
     then (\<exists>x \<in> set (ce_errors e). ec_class x = c \<and> ec_count x = n) else cell m c p = Some n)"
proof -
  have "map_of (map (\<lambda>x. (ec_class x, ec_count x)) (ce_errors e)) c = Some n \<longleftrightarrow>
      (\<exists>x \<in> set (ce_errors e). ec_class x = c \<and> ec_count x = n)"
    using assms by (subst map_of_eq_Some_iff) (auto simp: comp_def)
  then show ?thesis by (simp add: matrix_entry_def cell_puts [OF assms])
qed

text \<open>The error matrix of the comparison page holds the counts of the runs.  When no two runs are of
  the same provider, the cell of a class and a provider shows a number if and only if that provider's run
  counted exactly that many failures of the class; successes have no row.\<close>

theorem error_matrix_exact:
  assumes "distinct (map ce_provider es)" "list_all (\<lambda>e. distinct (map ec_class (ce_errors e))) es"
  shows "cell (matrix_of es) c p = Some n \<longleftrightarrow>
    c \<noteq> ''ok'' \<and> (\<exists>e \<in> set es. ce_provider e = p \<and> (\<exists>x \<in> set (ce_errors e). ec_class x = c \<and> ec_count x = n))"
  using assms
proof (induction es rule: rev_induct)
  case (snoc e es)
  then have "distinct (map ec_class (ce_errors e))" by simp
  note ce = cell_entry [OF this, of "matrix_of es" c p n]
  have "matrix_of (es @ [e]) = matrix_entry e (matrix_of es)" by (simp add: matrix_of_def)
  moreover define okc where "okc = ''ok''"
  moreover have "\<forall>e' \<in> set es. ce_provider e' \<noteq> ce_provider e" using snoc.prems(1) by (auto simp: image_iff)
  moreover have "cell (matrix_of es) c p = Some n \<longleftrightarrow> c \<noteq> ''ok'' \<and>
      (\<exists>e \<in> set es. ce_provider e = p \<and> (\<exists>x \<in> set (ce_errors e). ec_class x = c \<and> ec_count x = n))"
    using snoc by simp
  ultimately show ?case using ce
    by (cases "p = ce_provider e") (simp_all only: flip: okc_def, auto)
qed (simp add: matrix_of_def cell_def)

definition demo_entry :: "string \<Rightarrow> int \<Rightarrow> comparison_entry" where
  "demo_entry provider n = \<lparr>ce_provider = provider, ce_environment = ''test'', ce_runID = ''r'',
     ce_directory = ''d'', ce_startedAt = 0, ce_durationS = Fin 1, ce_targetTPS = Fin 1, ce_achievedTPS = Fin 1,
     ce_totalRequests = 9, ce_verified = 9 - n, ce_failed = n, ce_successRate = Fin 1, ce_timeoutRate = Fin 0,
     ce_minMS = Fin 1, ce_meanMS = Fin 1, ce_p95MS = Fin 1, ce_p99MS = Fin 1, ce_maxMS = Fin 1,
     ce_clientBottleneck = False, ce_bottleneckDetail = [], ce_partial = False, ce_stopReason = ''completed'',
     ce_errors = [\<lparr>ec_class = ''http_5xx'', ec_count = n, ec_share = Fin 0\<rparr>,
       \<lparr>ec_class = ''ok'', ec_count = 9 - n, ec_share = Fin 1\<rparr>],
     ce_sustainedStage = ''s'', ce_sustainedSeconds = Fin 1, ce_sustainedTPS = Fin 1\<rparr>"

theorem error_matrix_exact_witness:
  "cell (matrix_of [demo_entry ''A'' 3, demo_entry ''B'' 5]) ''http_5xx'' ''A'' = Some 3"
  by (subst error_matrix_exact) (simp_all add: demo_entry_def)

text \<open>Two runs of one provider share a column key: the counts of the second run stand in both columns.\<close>

theorem error_matrix_same_provider:
  "cell (matrix_of [demo_entry ''A'' 3, demo_entry ''A'' 5]) ''http_5xx'' ''A'' = Some 5"
  by (simp add: matrix_of_def matrix_entry_def demo_entry_def cell_put)

end
