(* ===== verification/Report_Html.thy ===== *)
theory Report_Html
  imports Report_Comparison
begin

text \<open>
  The geometry and the formatting functions behind the HTML pages, \<^verbatim>\<open>internal/report/html.go\<close>.
  The templates themselves are data of \<^verbatim>\<open>html/template\<close>.  The power of ten at or below a value
  (\<^verbatim>\<open>math.Pow(10, math.Floor(math.Log10(v)))\<close>) is the parameter \<open>pow10\<close>.
\<close>

definition fsub :: "f64 \<Rightarrow> f64 \<Rightarrow> f64" where
  "fsub x y = fadd x (fmul (Fin (- 1)) y)"

definition chart_width :: f64 where "chart_width = Fin 900"
definition chart_height :: f64 where "chart_height = Fin 190"
definition chart_pad_top :: f64 where "chart_pad_top = Fin 8"

record grid_line =
  gl_x1 :: f64
  gl_x2 :: f64
  gl_y :: f64
  gl_labelY :: f64
  gl_label :: string

record chart =
  ch_width :: f64
  ch_height :: f64
  ch_tpsLine :: string
  ch_errorArea :: string
  ch_gridY :: "grid_line list"
  ch_maxTPS :: f64
  ch_maxErrRate :: f64
  ch_maxSecond :: int
  ch_hasData :: bool

definition nice_ceil :: "(f64 \<Rightarrow> f64) \<Rightarrow> f64 \<Rightarrow> f64" where
  "nice_ceil pow10 v =
     (if v \<le> Fin 0 then Fin 1
      else (let mag = pow10 v; n = fdiv v mag in
        if n \<le> Fin 1 then mag else if n \<le> Fin 2 then fmul (Fin 2) mag
        else if n \<le> Fin 5 then fmul (Fin 5) mag else fmul (Fin 10) mag))"

definition scan_row :: "second_row \<Rightarrow> chart \<Rightarrow> chart" where
  "scan_row r c =
     (let c1 = c\<lparr>ch_maxTPS := raise (f64_of_int (row_completed r)) (ch_maxTPS c)\<rparr>;
          c2 = (if row_completed r > 0 then c1\<lparr>ch_maxErrRate := raise (error_rate_of r) (ch_maxErrRate c1)\<rparr> else c1)
      in c2\<lparr>ch_maxSecond := row_second r\<rparr>)"

text \<open>\<^verbatim>\<open>chartPadTop + plotH*(1-v)\<close> with a plot height of 170.\<close>

definition plot_height :: f64 where
  "plot_height = Fin 170"

definition y_at :: "f64 \<Rightarrow> f64" where
  "y_at v = fadd chart_pad_top (fmul plot_height (fsub (Fin 1) v))"

definition x_step :: "nat \<Rightarrow> f64" where
  "x_step n = fdiv chart_width (f64_of_int (max (int n - 1) 1))"

definition point :: "f64 \<Rightarrow> f64 \<Rightarrow> string" where
  "point x y = fmt_fixed 1 x @ '','' @ fmt_fixed 1 y"

definition tps_points :: "f64 \<Rightarrow> second_row list \<Rightarrow> string" where
  "tps_points axisMax rows = concat (map (\<lambda>(i, r).
     point (fmul (f64_of_int (int i)) (x_step (length rows))) (y_at (fdiv (f64_of_int (row_completed r)) axisMax))
     @ '' '') (zip [0..<length rows] rows))"

definition area_points :: "second_row list \<Rightarrow> string" where
  "area_points rows =
     ''0,'' @ fmt_fixed 1 (fadd chart_pad_top plot_height) @ '' '' @
     concat (map (\<lambda>(i, r).
       point (fmul (f64_of_int (int i)) (x_step (length rows))) (y_at (error_rate_of r)) @ '' '')
       (zip [0..<length rows] rows)) @
     point (fmul (f64_of_int (int (length rows) - 1)) (x_step (length rows))) (fadd chart_pad_top plot_height)"

definition grid_lines :: "f64 \<Rightarrow> grid_line list" where
  "grid_lines axisMax = map (\<lambda>f.
     (let y = y_at (fdiv (fmul axisMax f) axisMax) in
      \<lparr>gl_x1 = Fin 0, gl_x2 = chart_width, gl_y = y, gl_labelY = fsub y (Fin 2),
       gl_label = fmt_fixed 0 (fmul axisMax f) @ ''/s''\<rparr>)) [Fin 1, Fin (1 / 2), Fin 0]"

definition empty_chart :: chart where
  "empty_chart = \<lparr>ch_width = chart_width, ch_height = chart_height, ch_tpsLine = [], ch_errorArea = [],
     ch_gridY = [], ch_maxTPS = Fin 0, ch_maxErrRate = Fin 0, ch_maxSecond = 0, ch_hasData = False\<rparr>"

definition build_chart :: "(f64 \<Rightarrow> f64) \<Rightarrow> second_row list \<Rightarrow> chart" where
  "build_chart pow10 rows =
     (if rows = [] then empty_chart
      else (let c = fold scan_row rows empty_chart in
        if ch_maxTPS c \<le> Fin 0 then c
        else (let axisMax = nice_ceil pow10 (ch_maxTPS c) in
          c\<lparr>ch_hasData := True, ch_tpsLine := trim_space (tps_points axisMax rows),
            ch_errorArea := (if ch_maxErrRate c > Fin 0 then trim_space (area_points rows) else []),
            ch_gridY := grid_lines axisMax\<rparr>)))"

subsection \<open>The functions of the templates\<close>

text \<open>The dash is U+2014.\<close>

definition tmpl_pct :: "f64 \<Rightarrow> string" where
  "tmpl_pct f = (case f of Fin r \<Rightarrow> fmt_fixed 2 (fmul f (Fin 100)) @ ''%''
     | _ \<Rightarrow> [char_of (226 :: nat), char_of (128 :: nat), char_of (148 :: nat)])"

definition tmpl_pct1 :: "f64 \<Rightarrow> string" where "tmpl_pct1 f = fmt_fixed 1 f"
definition tmpl_pct2 :: "f64 \<Rightarrow> string" where "tmpl_pct2 f = fmt_fixed 2 f"
definition tmpl_ms2 :: "f64 \<Rightarrow> string" where "tmpl_ms2 f = fmt_fixed 2 f"

definition tmpl_secs :: "(f64 \<Rightarrow> int) \<Rightarrow> f64 \<Rightarrow> string" where
  "tmpl_secs oob f =
     duration_string (duration_round (f64_to_i64 oob (fmul f (f64_of_int second))) second)"

definition tmpl_utc :: "time \<Rightarrow> string" where
  "tmpl_utc t =
     (case civil_of_day (t div nanos_per_day) of (y, m, d) \<Rightarrow>
      (let s = nat (t mod nanos_per_day) div 1000000000
       in go_year y @ ''-'' @ pad_dec 2 (nat m) @ ''-'' @ pad_dec 2 (nat d) @ '' '' @
          pad_dec 2 (s div 3600) @ '':'' @ pad_dec 2 (s div 60 mod 60) @ '':'' @ pad_dec 2 (s mod 60) @
          '' UTC''))"

definition tmpl_bar_width :: "f64 \<Rightarrow> string" where
  "tmpl_bar_width share =
     (let w = fmul share (Fin 100)
      in fmt_fixed 1 (if w > Fin 0 \<and> w < Fin 1 then Fin 1 else w))"

definition tmpl_rate_class :: "f64 \<Rightarrow> string" where
  "tmpl_rate_class rate =
     (if rnd (999 / 1000) \<le> rate then ''good'' else if rnd (99 / 100) \<le> rate then ''mid'' else ''bad'')"

subsection \<open>The page of a run\<close>

record report_data =
  rp_summary :: summary
  rp_chart :: chart
  rp_generated :: time

definition write_html ::
    "os_env \<Rightarrow> io_error option \<Rightarrow> (report_data \<Rightarrow> string + bytes) \<Rightarrow> (f64 \<Rightarrow> f64) \<Rightarrow> string \<Rightarrow> summary \<Rightarrow>
     second_row list \<Rightarrow> time \<Rightarrow> io_error option \<times> out_file option" where
  "write_html E parse_err execute pow10 path s rows generated =
     write_page E ''report'' parse_err execute path
       \<lparr>rp_summary = s, rp_chart = build_chart pow10 rows, rp_generated = generated\<rparr>"

text \<open>\<^verbatim>\<open>dict\<close> of the templates: the arguments are keys and values in turn.\<close>

datatype 'v dict_arg = Dict_String string | Dict_Value 'v

fun tmpl_dict_loop :: "'v dict_arg list \<Rightarrow> (string \<rightharpoonup> 'v dict_arg) \<Rightarrow> string + (string \<rightharpoonup> 'v dict_arg)" where
  "tmpl_dict_loop (Dict_String k # v # ps) m = tmpl_dict_loop ps (m(k \<mapsto> v))"
| "tmpl_dict_loop (Dict_Value _ # v # ps) m = Inl ''dict keys must be strings''"
| "tmpl_dict_loop ps m = Inr m"

definition tmpl_dict :: "'v dict_arg list \<Rightarrow> string + (string \<rightharpoonup> 'v dict_arg)" where
  "tmpl_dict ps =
     (if odd (length ps) then Inl ''dict requires an even number of arguments''
      else tmpl_dict_loop ps Map.empty)"

subsection \<open>The scale of the chart\<close>

lemma scan_maxTPS: "ch_maxTPS (fold scan_row rows c) =
    fold raise (map (\<lambda>r. f64_of_int (row_completed r)) rows) (ch_maxTPS c)"
  by (induction rows arbitrary: c) (simp_all add: scan_row_def Let_def)

text \<open>The axis is drawn for a rate no row exceeds, and there is a chart exactly when some second
  completed a request.\<close>

lemma build_chart_scale:
  "(\<forall>r \<in> set rows. \<not> ch_maxTPS (build_chart pow10 rows) < f64_of_int (row_completed r))"
proof -
  have m: "ch_maxTPS (build_chart pow10 rows) = ch_maxTPS (fold scan_row rows empty_chart)"
    by (auto simp: build_chart_def Let_def)
  show ?thesis
    using fold_raise_f64 [of "ch_maxTPS empty_chart" "map (\<lambda>r. f64_of_int (row_completed r)) rows"]
    by (simp add: m scan_maxTPS) (simp add: empty_chart_def)
qed

end
