(* ===== verification/Command_Output.thy ===== *)
theory Command_Output
  imports Command_Run Report_Html
begin

text \<open>
  What the \<^verbatim>\<open>run\<close> command prints and the files it writes after the run, \<^verbatim>\<open>banner\<close>,
  \<^verbatim>\<open>printOutcome\<close> and \<^verbatim>\<open>writeResults\<close> of \<^verbatim>\<open>cmd/tsa-bench/run.go\<close>.  Console text is a
  string; the encoders of JSON and HTML are fields of \<open>renderers\<close>.
\<close>

subsection \<open>Text\<close>

definition line :: "string \<Rightarrow> string" where
  "line s = s @ [CHR 0x0A]"

text \<open>\<^verbatim>\<open>%-<w>s\<close> and \<^verbatim>\<open>%<w>s\<close>: the width counts runes.\<close>

definition pad_right :: "nat \<Rightarrow> string \<Rightarrow> string" where
  "pad_right w s = s @ replicate (w - length (runes s)) CHR '' ''"

definition pad_left :: "nat \<Rightarrow> string \<Rightarrow> string" where
  "pad_left w s = replicate (w - length (runes s)) CHR '' '' @ s"

text \<open>U+2014\<close>

definition em_dash :: string where
  "em_dash = [char_of (226 :: nat), char_of (128 :: nat), char_of (148 :: nat)]"

definition field_line :: "string \<Rightarrow> string \<Rightarrow> string" where
  "field_line key v = line (''  '' @ pad_right 18 key @ v)"

definition banner ::
    "(f64 \<Rightarrow> int) \<Rightarrow> world \<Rightarrow> config \<Rightarrow> profile \<Rightarrow> int \<Rightarrow> string \<Rightarrow> string \<Rightarrow> string \<Rightarrow> string" where
  "banner oob W cfg p maxReq runID dir trust =
     (let rule = replicate 72 CHR ''='' in
      line rule @
      (if pv_environment (cf_provider cfg) = EnvLive
       then line (''  LIVE PRODUCTION LOAD TEST '' @ em_dash @ '' quota consumed here is real and irreversible'')
       else line ''  LOAD TEST (test environment)'') @
      line rule @
      field_line ''provider'' (pv_name (cf_provider cfg)) @
      field_line ''endpoint'' (redacted_endpoint W cfg) @
      field_line ''profile'' (prf_name p @ '' ('' @ nat_dec (length (prf_stages p)) @ '' stages)'') @
      field_line ''peak target rate'' (fmt_fixed 0 (peak_tps p) @ '' TPS'') @
      field_line ''planned duration'' (duration_string (profile_duration p) @ '' (excluding stage pauses)'') @
      field_line ''planned requests'' (int_dec (total_planned oob p)) @
      field_line ''max requests'' (int_dec maxReq @ '' (hard cap '' @ int_dec (lm_hardCap (cf_limits cfg)) @
        '', reserve '' @ int_dec (prf_reserve p) @ '')'') @
      field_line ''max concurrency'' (int_dec (lc_maxConcurrency (cf_load cfg))) @
      field_line ''retries'' (int_dec (lm_retries (cf_limits cfg))) @
      field_line ''TSA trust anchor'' trust @
      field_line ''run id'' runID @
      field_line ''results'' dir @
      line rule)"

definition print_outcome :: "summary \<Rightarrow> string \<Rightarrow> string" where
  "print_outcome s dir =
     (let o' = su_overall s; key = (\<lambda>k. pad_right 18 k) in
      line [] @
      line (key ''stop reason'' @ su_stopReason s @ '' '' @ su_stopDetail s) @
      line (key ''quota used'' @ int_dec (su_quotaUsed s) @ '' of '' @ int_dec (su_quotaBudget s) @
        '' ('' @ int_dec (su_quotaRemaining s) @ '' remaining)'') @
      line (key ''sent / verified'' @ int_dec (sy_sent o') @ '' / '' @ int_dec (sy_verified o')) @
      line (key ''success rate'' @ fmt_fixed 3 (fmul (sy_successRate o') (Fin 100)) @ ''%'') @
      line (key ''achieved rate'' @ fmt_fixed 2 (sy_actualSendTPS o') @ '' TPS'') @
      line (key ''latency p95/p99'' @ fmt_fixed 1 (ls_p95MS (sy_latency o')) @ '' / '' @
        fmt_fixed 1 (ls_p99MS (sy_latency o')) @ '' ms'') @
      (if su_clientBottleneck s
       then line (key ''client bottleneck'' @ ''YES '' @ em_dash @ '' '' @ su_clientBottleneckWhy s)
       else line (key ''client bottleneck'' @ ''no'')) @
      line (key ''results'' @ dir))"

subsection \<open>The files of a run\<close>

record renderers =
  rr_metadata :: "metadata \<Rightarrow> string + bytes"
  rr_summary :: "summary \<Rightarrow> string + bytes"
  rr_parseReport :: "io_error option"
  rr_report :: "report_data \<Rightarrow> string + bytes"
  rr_pow10 :: "f64 \<Rightarrow> f64"
  rr_now :: time

record result_files =
  rs_metadata :: "out_file option"
  rs_summary :: "out_file option"
  rs_timeseries :: "out_file option"
  rs_report :: "out_file option"

definition log_error :: "string \<Rightarrow> io_error option \<Rightarrow> (string \<times> io_error) list" where
  "log_error msg e = (case e of None \<Rightarrow> [] | Some t \<Rightarrow> [(msg, t)])"

text \<open>\<^verbatim>\<open>writeResults\<close>: a failure is logged and the rest is still attempted.\<close>

definition write_results ::
    "os_env \<Rightarrow> renderers \<Rightarrow> string \<Rightarrow> metadata \<Rightarrow> summary \<Rightarrow> second_row list \<Rightarrow> resource_sample list \<Rightarrow> writer \<Rightarrow>
     (string \<times> io_error) list \<times> result_files \<times> writer" where
  "write_results E R dir meta s series samples w =
     (let (e0, w1) = flush_locked E w;
          (e1, f1) = write_json E (rr_metadata R) w1 ''metadata.json'' meta;
          (e2, f2) = write_json E (rr_summary R) w1 ''summary.json'' s;
          (e3, f3) = write_time_series E w1 series samples;
          (e4, f4) = write_html E (rr_parseReport R) (rr_report R) (rr_pow10 R) (path_join [dir, ''report.html'']) s series (rr_now R)
      in (log_error ''cannot flush attempt records'' e0 @ log_error ''cannot write metadata.json'' e1 @
          log_error ''cannot write summary.json'' e2 @ log_error ''cannot write timeseries.csv'' e3 @
          log_error ''cannot write report.html'' e4,
          \<lparr>rs_metadata = f1, rs_summary = f2, rs_timeseries = f3, rs_report = f4\<rparr>, w1))"

text \<open>On whatever disk, when nothing is logged every file holds its document.\<close>

lemma file_write_None: "file_write E b f = (None, g) \<Longrightarrow> of_disk g = of_disk f @ b"
  using file_write_holds by blast

lemma first_error_None_iff: "first_error es = None \<longleftrightarrow> list_all (\<lambda>e. e = None) es"
  by (induction es rule: first_error.induct) auto

lemma write_json_file_complete:
  assumes "write_json_file E encode path v = (None, f)"
  shows "\<exists>b g. encode v = Inr b \<and> f = Some g \<and> of_disk g = b \<and> \<not> of_open g"
proof (cases "encode v")
  case (Inl e)
  then show ?thesis using assms
    by (auto simp: write_json_file_def first_error_None_iff Let_def split: option.splits prod.splits)
next
  case (Inr b)
  obtain r g where g: "file_write E b (open_file 0 path) = (r, g)" by fastforce
  obtain e h where h: "file_close E g = (e, h)" by fastforce
  have "os_open E path = None" using assms by (cases "os_open E path") (simp_all add: write_json_file_def)
  then have "write_json_file E encode path v = (first_error [map_option snd r, e], Some h)"
    using Inr g h by (simp add: write_json_file_def)
  with assms have "r = None" "f = Some h" by (simp_all add: first_error_None_iff)
  then show ?thesis using Inr file_write_None [of E b _ g] g file_close_holds [OF h]
    by (simp add: open_file_def)
qed

lemma log_error_Nil: "log_error m e = [] \<longleftrightarrow> e = None"
  by (simp add: log_error_def split: option.split)

lemma write_results_complete:
  assumes "write_results E R dir meta s series samples w = ([], fs, w1)"
  shows "\<exists>m sm. rr_metadata R meta = Inr m \<and> rr_summary R s = Inr sm \<and>
    map_option of_disk (rs_metadata fs) = Some m \<and> map_option of_disk (rs_summary fs) = Some sm"
proof -
  obtain e0 w0 where a0: "flush_locked E w = (e0, w0)" by fastforce
  obtain e1 f1 where a1: "write_json E (rr_metadata R) w0 ''metadata.json'' meta = (e1, f1)" by fastforce
  obtain e2 f2 where a2: "write_json E (rr_summary R) w0 ''summary.json'' s = (e2, f2)" by fastforce
  have f: "e1 = None \<and> e2 = None \<and> rs_metadata fs = f1 \<and> rs_summary fs = f2"
    using assms unfolding write_results_def by (simp add: a0 a1 a2 log_error_Nil split_beta) auto
  obtain m where "rr_metadata R meta = Inr m" "map_option of_disk f1 = Some m"
    using write_json_file_complete [OF a1 [unfolded write_json_def f [THEN conjunct1]]] by auto
  moreover obtain sm where "rr_summary R s = Inr sm" "map_option of_disk f2 = Some sm"
    using write_json_file_complete [OF a2 [unfolded write_json_def f [THEN conjunct2, THEN conjunct1]]] by auto
  ultimately show ?thesis using f by auto
qed

end
