(* ===== verification/Pki.thy ===== *)
theory Pki
  imports Verify
begin

unbundle bit_operations_syntax

text \<open>
  Development certificates, \<^verbatim>\<open>internal/testutil/pki.go\<close> and \<^verbatim>\<open>eku.go\<close>: the authority, the
  timestamping certificate with its deliberate defects, the server certificate.  Key generation, random
  serial numbers, \<^verbatim>\<open>x509.CreateCertificate\<close>, \<^verbatim>\<open>x509.ParseCertificate\<close>, PKCS 8 and PEM are the
  parameter \<open>x509_lib\<close>; the number of the draw selects what the random source delivers, and the two readings
  of the clock are arguments.  The encoder of the extended key usage is \<^verbatim>\<open>asn1.Marshal\<close> on a list of
  object identifiers.
\<close>

subsection \<open>Extended key usage\<close>

definition ExtKeyUsageServerAuth :: int where "ExtKeyUsageServerAuth = 1"
definition ExtKeyUsageClientAuth :: int where "ExtKeyUsageClientAuth = 2"

definition eku_oids :: "int \<rightharpoonup> oid" where
  "eku_oids = [ExtKeyUsageTimeStamping \<mapsto> [1, 3, 6, 1, 5, 5, 7, 3, 8],
     ExtKeyUsageClientAuth \<mapsto> [1, 3, 6, 1, 5, 5, 7, 3, 2],
     ExtKeyUsageServerAuth \<mapsto> [1, 3, 6, 1, 5, 5, 7, 3, 1]]"

text \<open>\<^verbatim>\<open>asn1.Marshal\<close> of object identifiers: base 128 with a continuation bit on all but the last
  byte.\<close>

fun base128_digits :: "nat \<Rightarrow> nat list" where
  "base128_digits n = (if n < 128 then [n] else base128_digits (n div 128) @ [n mod 128])"

declare base128_digits.simps [simp del]

definition marshal_base128 :: "nat \<Rightarrow> bytes" where
  "marshal_base128 n =
     (let ds = base128_digits n in map (\<lambda>d. char_of (d + 128)) (butlast ds) @ [char_of (last ds)])"

definition marshal_oid :: "oid \<Rightarrow> string + bytes" where
  "marshal_oid oid =
     (case oid of
        a # b # rest \<Rightarrow>
          (if a > 2 \<or> (a < 2 \<and> b \<ge> 40) then Inl (asn1_error_text (StructuralError ''invalid object identifier''))
           else Inr (tlv 6 (concat (map (\<lambda>arc. marshal_base128 (nat arc)) ((a * 40 + b) # rest)))))
      | _ \<Rightarrow> Inl (asn1_error_text (StructuralError ''invalid object identifier'')))"

fun marshal_oid_list :: "oid list \<Rightarrow> string + bytes" where
  "marshal_oid_list [] = Inr []"
| "marshal_oid_list (oid # oids) =
     and_then (marshal_oid oid) (\<lambda>b. and_then (marshal_oid_list oids) (\<lambda>bs. Inr (b @ bs)))"

fun oids_of_usages :: "int list \<Rightarrow> string + oid list" where
  "oids_of_usages [] = Inr []"
| "oids_of_usages (u # us) =
     (case eku_oids u of
        None \<Rightarrow> Inl (''testutil: unsupported extended key usage '' @ int_dec u)
      | Some oid \<Rightarrow> and_then (oids_of_usages us) (\<lambda>oids. Inr (oid # oids)))"

definition marshal_eku :: "int list \<Rightarrow> string + bytes" where
  "marshal_eku usages =
     and_then (oids_of_usages usages) (\<lambda>oids. and_then (marshal_oid_list oids) (\<lambda>bs. Inr (tlv 48 bs)))"

subsection \<open>Certificates\<close>

datatype key_type = ECDSAP256 | RSA2048

text \<open>The fields of an \<^verbatim>\<open>x509.Certificate\<close> that serve as a template.\<close>

record template =
  tp_serialNumber :: int
  tp_commonName :: string
  tp_organization :: "string list"
  tp_notBefore :: time
  tp_notAfter :: time
  tp_keyUsage :: int
  tp_extKeyUsage :: "int list"
  tp_basicConstraintsValid :: bool
  tp_isCA :: bool
  tp_maxPathLen :: int
  tp_dnsNames :: "string list"
  tp_ipAddresses :: "int list list"
  tp_extraExtensions :: "(oid \<times> bool \<times> bytes) list"

definition KeyUsageDigitalSignature :: int where "KeyUsageDigitalSignature = 1"
definition KeyUsageContentCommitment :: int where "KeyUsageContentCommitment = 2"
definition KeyUsageKeyEncipherment :: int where "KeyUsageKeyEncipherment = 4"
definition KeyUsageCertSign :: int where "KeyUsageCertSign = 32"
definition KeyUsageCRLSign :: int where "KeyUsageCRLSign = 64"

text \<open>The issuer of a new certificate is its own template or a certificate.\<close>

record 'k x509_lib =
  xl_rsaKey :: "nat \<Rightarrow> nat \<Rightarrow> string + 'k"
  xl_p256Key :: "nat \<Rightarrow> string + 'k"
  xl_serial :: "nat \<Rightarrow> string + int"
  xl_create :: "template \<Rightarrow> template + certificate \<Rightarrow> 'k \<Rightarrow> 'k \<Rightarrow> string + bytes"
  xl_parse :: "bytes \<Rightarrow> string + certificate"
  xl_pkcs8 :: "'k \<Rightarrow> string + bytes"
  xl_pem :: "string \<Rightarrow> bytes \<Rightarrow> bytes"

record 'k ca =
  ca_cert :: certificate
  ca_key :: 'k
  ca_der :: bytes
  ca_pem :: bytes
  ca_pool :: "certificate list"
  ca_subject :: string

record 'k leaf =
  lf_cert :: certificate
  lf_key :: 'k
  lf_der :: bytes
  lf_pem :: bytes

record tsa_options =
  to_keyType :: key_type
  to_notBefore :: time
  to_notAfter :: time
  to_omitTimeStampingEKU :: bool
  to_extraEKU :: bool
  to_nonCriticalEKU :: bool
  to_commonName :: string

definition generate_key :: "'k x509_lib \<Rightarrow> key_type \<Rightarrow> nat \<Rightarrow> string + 'k" where
  "generate_key X kt i = (case kt of RSA2048 \<Rightarrow> xl_rsaKey X 2048 i | ECDSAP256 \<Rightarrow> xl_p256Key X i)"

text \<open>\<open>None\<close> is the panic of \<^verbatim>\<open>serial\<close>.\<close>

definition cert_serial :: "'k x509_lib \<Rightarrow> nat \<Rightarrow> int option" where
  "cert_serial X i = (case xl_serial X i of Inl e \<Rightarrow> None | Inr n \<Rightarrow> Some n)"

definition organization :: "string list" where
  "organization = [''tsa-bench test'']"

definition new_ca ::
    "'k x509_lib \<Rightarrow> nat \<Rightarrow> time \<times> time \<Rightarrow> string \<Rightarrow> key_type \<Rightarrow> (string + 'k ca) option" where
  "new_ca X i nows name kt =
     (case generate_key X kt i of
        Inl e \<Rightarrow> Some (Inl e)
      | Inr key \<Rightarrow>
     (case cert_serial X i of
        None \<Rightarrow> None
      | Some sn \<Rightarrow>
     (let tmpl = \<lparr>tp_serialNumber = sn, tp_commonName = name, tp_organization = organization,
        tp_notBefore = time_add (fst nows) (- hour), tp_notAfter = time_add (snd nows) (24 * hour),
        tp_keyUsage = KeyUsageCertSign OR KeyUsageCRLSign, tp_extKeyUsage = [], tp_basicConstraintsValid = True,
        tp_isCA = True, tp_maxPathLen = 1, tp_dnsNames = [], tp_ipAddresses = [], tp_extraExtensions = []\<rparr> in
      Some (and_then (xl_create X tmpl (Inl tmpl) key key) (\<lambda>der.
        and_then (xl_parse X der) (\<lambda>cert.
          Inr \<lparr>ca_cert = cert, ca_key = key, ca_der = der, ca_pem = xl_pem X ''CERTIFICATE'' der,
            ca_pool = [cert], ca_subject = name\<rparr>))))))"

definition reissue_with_critical_eku :: "'k x509_lib \<Rightarrow> 'k ca \<Rightarrow> template \<Rightarrow> 'k \<Rightarrow> string + bytes" where
  "reissue_with_critical_eku X c tmpl key =
     and_then (marshal_eku (tp_extKeyUsage tmpl)) (\<lambda>ekuDER.
       xl_create X (tmpl\<lparr>tp_extKeyUsage := [],
           tp_extraExtensions := tp_extraExtensions tmpl @ [(OIDExtKeyUsage, True, ekuDER)]\<rparr>)
         (Inr (ca_cert c)) key (ca_key c))"

definition tsa_usages :: "tsa_options \<Rightarrow> int list" where
  "tsa_usages opts =
     (if to_omitTimeStampingEKU opts then []
      else ExtKeyUsageTimeStamping # (if to_extraEKU opts then [ExtKeyUsageClientAuth] else []))"

definition tsa_template :: "time \<times> time \<Rightarrow> int \<Rightarrow> tsa_options \<Rightarrow> template" where
  "tsa_template nows sn opts =
     \<lparr>tp_serialNumber = sn,
      tp_commonName = (if to_commonName opts = [] then ''tsa-bench mock TSA'' else to_commonName opts),
      tp_organization = organization,
      tp_notBefore = (if is_zero_time (to_notBefore opts) then time_add (fst nows) (- hour) else to_notBefore opts),
      tp_notAfter = (if is_zero_time (to_notAfter opts) then time_add (snd nows) (24 * hour) else to_notAfter opts),
      tp_keyUsage = KeyUsageDigitalSignature OR KeyUsageContentCommitment, tp_extKeyUsage = tsa_usages opts,
      tp_basicConstraintsValid = True, tp_isCA = False, tp_maxPathLen = 0, tp_dnsNames = [], tp_ipAddresses = [],
      tp_extraExtensions = []\<rparr>"

text \<open>Parsing back what was created.\<close>

definition leaf_of :: "'k x509_lib \<Rightarrow> 'k \<Rightarrow> bytes \<Rightarrow> string + 'k leaf" where
  "leaf_of X key der =
     and_then (xl_parse X der) (\<lambda>cert.
       Inr \<lparr>lf_cert = cert, lf_key = key, lf_der = der, lf_pem = xl_pem X ''CERTIFICATE'' der\<rparr>)"

definition issue_tsa ::
    "'k x509_lib \<Rightarrow> nat \<Rightarrow> time \<times> time \<Rightarrow> 'k ca \<Rightarrow> tsa_options \<Rightarrow> (string + 'k leaf) option" where
  "issue_tsa X i nows c opts =
     (case generate_key X (to_keyType opts) i of
        Inl e \<Rightarrow> Some (Inl e)
      | Inr key \<Rightarrow>
     (case cert_serial X i of
        None \<Rightarrow> None
      | Some sn \<Rightarrow>
     (let tmpl = tsa_template nows sn opts in
      Some (and_then (xl_create X tmpl (Inr (ca_cert c)) key (ca_key c)) (\<lambda>der.
        and_then (if \<not> to_omitTimeStampingEKU opts \<and> \<not> to_nonCriticalEKU opts
                  then reissue_with_critical_eku X c tmpl key else Inr der) (leaf_of X key))))))"

text \<open>The outer \<open>None\<close> is the panic of an empty list of hosts, or of \<^verbatim>\<open>serial\<close>.\<close>

definition server_cert ::
    "'k x509_lib \<Rightarrow> nat \<Rightarrow> time \<times> time \<Rightarrow> (string \<Rightarrow> int list option) \<Rightarrow> 'k ca \<Rightarrow> string list \<Rightarrow> key_type \<Rightarrow>
     (string + 'k leaf) option" where
  "server_cert X i nows parseIP c hosts kt =
     (case generate_key X kt i of
        Inl e \<Rightarrow> Some (Inl e)
      | Inr key \<Rightarrow>
     (case (cert_serial X i, hosts) of
        (Some sn, h # _) \<Rightarrow>
          (let tmpl = \<lparr>tp_serialNumber = sn, tp_commonName = h, tp_organization = [],
             tp_notBefore = time_add (fst nows) (- hour), tp_notAfter = time_add (snd nows) (24 * hour),
             tp_keyUsage = KeyUsageDigitalSignature OR KeyUsageKeyEncipherment,
             tp_extKeyUsage = [ExtKeyUsageServerAuth], tp_basicConstraintsValid = True, tp_isCA = False,
             tp_maxPathLen = 0, tp_dnsNames = filter (\<lambda>h. parseIP h = None) hosts,
             tp_ipAddresses = List.map_filter parseIP hosts, tp_extraExtensions = []\<rparr> in
           Some (and_then (xl_create X tmpl (Inr (ca_cert c)) key (ca_key c)) (leaf_of X key)))
      | _ \<Rightarrow> None))"

definition key_pem :: "'k x509_lib \<Rightarrow> 'k leaf \<Rightarrow> string + bytes" where
  "key_pem X l = and_then (xl_pkcs8 X (lf_key l)) (\<lambda>der. Inr (xl_pem X ''PRIVATE KEY'' der))"

subsection \<open>Reading the extension back\<close>

text \<open>A reader of ExtKeyUsageSyntax: a sequence of object identifiers.\<close>

function read_oids :: "bytes \<Rightarrow> asn1_error + oid list" where
  "read_oids bs =
     (if bs = [] then Inr []
      else (case unmarshal_raw bs of
        Inl e \<Rightarrow> Inl e
      | Inr (v, rest) \<Rightarrow> and_then (unmarshal_oid bs) (\<lambda>oid. and_then (read_oids rest) (\<lambda>oids. Inr (oid # oids)))))"
  by pat_completeness auto
termination
  by (relation "measure length") (auto dest: unmarshal_raw_split(2))

declare read_oids.simps [simp del]

definition usage_of :: "oid \<Rightarrow> int option" where
  "usage_of oid = find (\<lambda>u. eku_oids u = Some oid) [ExtKeyUsageServerAuth, ExtKeyUsageClientAuth, ExtKeyUsageTimeStamping]"

definition read_usages :: "bytes \<Rightarrow> int list option" where
  "read_usages v =
     (case and_then (unmarshal_raw v) (\<lambda>(s, _). read_oids (rv_bytes s)) of
        Inl e \<Rightarrow> None
      | Inr oids \<Rightarrow> if list_ex (\<lambda>oid. usage_of oid = None) oids then None else Some (List.map_filter usage_of oids))"

lemmas usage_defs = ExtKeyUsageServerAuth_def ExtKeyUsageClientAuth_def ExtKeyUsageTimeStamping_def

lemma marshal_known:
  assumes "eku_oids u = Some oid"
  shows "\<exists>b. length b = 8 \<and> marshal_oid oid = Inr (tlv 6 b) \<and> parse_object_identifier b = Inr oid \<and> usage_of oid = Some u"
proof -
  have c: "u \<in> {8, 2, 1}" "oid = [1, 3, 6, 1, 5, 5, 7, 3, if u = 8 then 8 else u]"
    using assms by (auto simp: eku_oids_def usage_defs split: if_splits)
  have m: "marshal_oid [1, 3, 6, 1, 5, 5, 7, 3, k] = Inr (tlv 6 (map char_of [43, 6, 1, 5, 5, 7, 3, nat k]))"
    if "k < 128" for k
  proof -
    have "nat k < 128" using that by simp
    then show ?thesis by (simp add: marshal_oid_def marshal_base128_def Let_def base128_digits.simps)
  qed
  have p: "parse_object_identifier (map char_of [43 :: nat, 6, 1, 5, 5, 7, 3, k]) = Inr [1, 3, 6, 1, 5, 5, 7, 3, int k]"
    if "k < 128" for k
    using that by (simp add: parse_object_identifier_def parse_oid_arcs.simps)
  have us: "usage_of oid = Some u" using c by (auto simp: usage_of_def eku_oids_def usage_defs)
  show ?thesis
    by (rule exI [of _ "map char_of [43, 6, 1, 5, 5, 7, 3, nat (if u = 8 then 8 else u)]"])
      (use c m [of "if u = 8 then 8 else u"] p [of "nat (if u = 8 then 8 else u)"] us in auto)
qed

lemma read_oids_marshaled:
  assumes "oids_of_usages us = Inr oids"
  shows "\<exists>bs. marshal_oid_list oids = Inr bs \<and> length bs = 10 * length us \<and> read_oids bs = Inr oids \<and>
    map usage_of oids = map Some us"
  using assms
proof (induction us arbitrary: oids)
  case Nil
  then show ?case by (simp add: read_oids.simps)
next
  case (Cons u us)
  then obtain oid oids' where o: "eku_oids u = Some oid" "oids_of_usages us = Inr oids'" "oids = oid # oids'"
    by (cases "eku_oids u"; cases "oids_of_usages us") auto
  obtain bs where bs: "marshal_oid_list oids' = Inr bs" "length bs = 10 * length us" "read_oids bs = Inr oids'"
      "map usage_of oids' = map Some us"
    using Cons.IH [OF o(2)] by blast
  obtain b where b: "length b = 8" "marshal_oid oid = Inr (tlv 6 b)" "parse_object_identifier b = Inr oid" "usage_of oid = Some u"
    using marshal_known [OF o(1)] by blast
  have len: "length (tlv 6 b) = 10" "tlv 6 b \<noteq> []" using b(1) by (simp_all add: tlv_def enc_len_def)
  have oid: "unmarshal_oid (tlv 6 b @ bs) = Inr oid"
    using unmarshal_prim_tlv [of 6 b bs] b by (simp add: unmarshal_oid_def TagOID_def)
  have "read_oids (tlv 6 b @ bs) = Inr oids"
    unfolding read_oids.simps [of "tlv 6 b @ bs"]
    using unmarshal_raw_tlv [of 6 b bs] b(1) oid bs(3) o(3) len(2) by simp
  then show ?case using o b bs len by simp
qed

lemma map_filter_some: "map f xs = map Some ys \<Longrightarrow> List.map_filter f xs = ys \<and> \<not> list_ex (\<lambda>x. f x = None) xs"
  by (induction xs arbitrary: ys) (auto simp: List.map_filter_simps Cons_eq_map_conv)

text \<open>The critical extension of a certificate, read back, is the list of usages it was made from.\<close>

lemma read_usages_marshal_eku:
  assumes "marshal_eku us = Inr v" "length us < 1000000"
  shows "read_usages v = Some us"
proof -
  obtain oids where o: "oids_of_usages us = Inr oids"
    using assms(1) by (cases "oids_of_usages us") (auto simp: marshal_eku_def)
  obtain bs where bs: "marshal_oid_list oids = Inr bs" "length bs = 10 * length us" "read_oids bs = Inr oids"
      "map usage_of oids = map Some us"
    using read_oids_marshaled [OF o] by blast
  have v: "v = tlv 48 bs" using assms(1) o bs(1) by (simp add: marshal_eku_def)
  show ?thesis using unmarshal_raw_tlv [of 48 bs "[]"] bs assms(2) map_filter_some [OF bs(4)]
    by (simp add: read_usages_def v)
qed

subsection \<open>The verifier and the certificates\<close>

text \<open>The extension that \<^verbatim>\<open>CreateCertificate\<close> writes for a template, as documented: an extra extension
  takes precedence over the field, and the field alone is written as not critical.  \<open>None\<close> in the usages
  is a value that cannot be read.\<close>

definition written_eku :: "template \<Rightarrow> (bool \<times> int list option) option" where
  "written_eku T =
     (case map_of (tp_extraExtensions T) OIDExtKeyUsage of
        Some (critical, v) \<Rightarrow> Some (critical, read_usages v)
      | None \<Rightarrow> if tp_extKeyUsage T = [] then None else Some (False, Some (tp_extKeyUsage T)))"

text \<open>What \<^verbatim>\<open>ParseCertificate\<close> finds in a certificate made from a template.\<close>

definition eku_law :: "'k x509_lib \<Rightarrow> bool" where
  "eku_law X \<longleftrightarrow> (\<forall>T issuer key issuerKey der c.
     xl_create X T issuer key issuerKey = Inr der \<longrightarrow> xl_parse X der = Inr c \<longrightarrow>
     (case written_eku T of
        None \<Rightarrow> cert_extKeyUsage c = [] \<and> find_eku_extension (cert_extensions c) = None
      | Some (critical, us) \<Rightarrow> find_eku_extension (cert_extensions c) = Some critical \<and>
          (\<forall>u. us = Some u \<longrightarrow> cert_extKeyUsage c = u \<and> cert_unknownExtKeyUsage c = [])))"

lemma eku_lawD:
  assumes "eku_law X" "xl_create X T issuer key issuerKey = Inr der" "xl_parse X der = Inr c"
  shows "written_eku T = None \<Longrightarrow> cert_extKeyUsage c = []"
    and "written_eku T = Some (critical, Some us) \<Longrightarrow>
      find_eku_extension (cert_extensions c) = Some critical \<and> cert_extKeyUsage c = us \<and> cert_unknownExtKeyUsage c = []"
  using assms by (fastforce simp: eku_law_def)+

lemma issue_tsa_created:
  assumes "issue_tsa X i nows c opts = Some (Inr l)"
  shows "\<exists>sn T key. (T = tsa_template nows sn opts \<or> (\<not> to_omitTimeStampingEKU opts \<and> \<not> to_nonCriticalEKU opts)) \<and>
    ((\<not> to_omitTimeStampingEKU opts \<and> \<not> to_nonCriticalEKU opts) \<longrightarrow>
      (\<exists>v. marshal_eku (tsa_usages opts) = Inr v \<and>
        T = (tsa_template nows sn opts)\<lparr>tp_extKeyUsage := [], tp_extraExtensions := [(OIDExtKeyUsage, True, v)]\<rparr>)) \<and>
    xl_create X T (Inr (ca_cert c)) key (ca_key c) = Inr (lf_der l) \<and> xl_parse X (lf_der l) = Inr (lf_cert l)"
proof -
  let ?crit = "\<not> to_omitTimeStampingEKU opts \<and> \<not> to_nonCriticalEKU opts"
  obtain key sn where k: "generate_key X (to_keyType opts) i = Inr key" "cert_serial X i = Some sn"
    using assms by (auto simp: issue_tsa_def split: sum.splits option.splits)
  let ?T = "tsa_template nows sn opts"
  obtain der where d: "xl_create X ?T (Inr (ca_cert c)) key (ca_key c) = Inr der"
    using assms k by (cases "xl_create X ?T (Inr (ca_cert c)) key (ca_key c)") (simp_all add: issue_tsa_def)
  obtain der' where d': "(if ?crit then reissue_with_critical_eku X c ?T key else Inr der) = Inr der'"
      "leaf_of X key der' = Inr l"
    using assms k d by (cases "if ?crit then reissue_with_critical_eku X c ?T key else Inr der") (auto simp: issue_tsa_def)
  have l: "lf_der l = der'" "xl_parse X der' = Inr (lf_cert l)"
    using d'(2) by (cases "xl_parse X der'"; auto simp: leaf_of_def)+
  show ?thesis
  proof (cases ?crit)
    case False
    then show ?thesis using d d'(1) l by (intro exI [of _ sn] exI [of _ ?T] exI [of _ key]) auto
  next
    case True
    then obtain v where v: "marshal_eku (tsa_usages opts) = Inr v"
      using d'(1) by (cases "marshal_eku (tsa_usages opts)") (auto simp: reissue_with_critical_eku_def tsa_template_def)
    let ?T' = "?T\<lparr>tp_extKeyUsage := [], tp_extraExtensions := [(OIDExtKeyUsage, True, v)]\<rparr>"
    have "xl_create X ?T' (Inr (ca_cert c)) key (ca_key c) = Inr der'"
      using d'(1) True v by (simp add: reissue_with_critical_eku_def tsa_template_def)
    then have "xl_create X ?T' (Inr (ca_cert c)) key (ca_key c) = Inr (lf_der l) \<and> xl_parse X (lf_der l) = Inr (lf_cert l)"
      unfolding l(1) using l(2) by blast
    moreover have "(?T' = ?T \<or> ?crit) \<and> (?crit \<longrightarrow> (\<exists>v. marshal_eku (tsa_usages opts) = Inr v \<and>
        ?T' = ?T\<lparr>tp_extKeyUsage := [], tp_extraExtensions := [(OIDExtKeyUsage, True, v)]\<rparr>))"
      using True v by blast
    ultimately show ?thesis by blast
  qed
qed


text \<open>A library whose certificates are the critical flag followed by the usages.\<close>

definition demo_create :: "template \<Rightarrow> template + certificate \<Rightarrow> unit \<Rightarrow> unit \<Rightarrow> string + bytes" where
  "demo_create T issuer key issuerKey =
     (case written_eku T of
        None \<Rightarrow> Inr []
      | Some (critical, None) \<Rightarrow> Inl ''unreadable extension''
      | Some (critical, Some us) \<Rightarrow>
          if list_all (\<lambda>u. 0 \<le> u \<and> u < 256) us
          then Inr ((if critical then CHR ''c'' else CHR ''n'') # map (\<lambda>u. char_of (nat u)) us)
          else Inl ''unknown usage'')"

definition demo_parse :: "bytes \<Rightarrow> string + certificate" where
  "demo_parse der = Inr \<lparr>cert_raw = der, cert_subject = [], cert_issuer = [], cert_notAfter = 0,
     cert_extKeyUsage = map byte (tl der), cert_unknownExtKeyUsage = [],
     cert_extensions = (case der of [] \<Rightarrow> [] | f # _ \<Rightarrow> [(OIDExtKeyUsage, f = CHR ''c'')])\<rparr>"

definition demo_x509 :: "unit x509_lib" where
  "demo_x509 = \<lparr>xl_rsaKey = (\<lambda>_ _. Inr ()), xl_p256Key = (\<lambda>_. Inr ()), xl_serial = (\<lambda>i. Inr (int i)),
     xl_create = demo_create, xl_parse = demo_parse, xl_pkcs8 = (\<lambda>_. Inr []), xl_pem = (\<lambda>t der. der)\<rparr>"

lemma bytes_of_usages: "list_all (\<lambda>u. 0 \<le> u \<and> u < 256) us \<Longrightarrow> map (\<lambda>u. int (nat u mod 256)) us = us"
  by (induction us) auto

lemma demo_eku_law: "eku_law demo_x509"
  unfolding eku_law_def
  by (auto simp: demo_x509_def demo_create_def demo_parse_def bytes_of_usages o_def split: option.splits if_splits)


end
