(* ===== verification/Mock.thy ===== *)
theory Mock
  imports Transport Pki
begin

text \<open>
  The local responder, \<^verbatim>\<open>internal/mock/mock.go\<close> and \<^verbatim>\<open>digest.go\<close>: the handler from the method check
  to the response, Digest authentication with its three kinds of nonce, the injected faults, and the
  address it may bind to, with certificates of \<^verbatim>\<open>Pki\<close>.  The timestamp library (parsing a query, building and signing a response) is
  \<open>tsr_lib\<close>; \<open>me_rand\<close> delivers the random bytes of a draw.  The mutex makes every operation on the
  nonces one step; a handler is composed of such steps.
\<close>

subsection \<open>Faults and options\<close>

definition FaultNone :: string where "FaultNone = []"
definition FaultWrongNonce :: string where "FaultWrongNonce = ''wrong_nonce''"
definition FaultWrongImprint :: string where "FaultWrongImprint = ''wrong_imprint''"
definition FaultBadContentType :: string where "FaultBadContentType = ''bad_content_type''"
definition FaultRejection :: string where "FaultRejection = ''rejection''"
definition FaultNoCertificate :: string where "FaultNoCertificate = ''no_certificate''"
definition FaultBrokenSignature :: string where "FaultBrokenSignature = ''broken_signature''"
definition FaultSkewedTime :: string where "FaultSkewedTime = ''skewed_time''"
definition FaultMalformedBody :: string where "FaultMalformedBody = ''malformed_body''"
definition FaultHTTP500 :: string where "FaultHTTP500 = ''http_500''"
definition FaultHTTP429 :: string where "FaultHTTP429 = ''http_429''"

record options =
  mo_fault :: string
  mo_latency :: duration
  mo_timeOffset :: duration
  mo_digestUser :: string
  mo_digestPass :: string
  mo_nonceLifetime :: int
  mo_sessionBoundNonce :: bool
  mo_singleUseNonce :: bool

text \<open>What the timestamp library reads and writes; \<open>'k\<close> is a certificate with its key.\<close>

record tsr_query =
  tq_hashAlgorithm :: crypto_hash
  tq_hashedMessage :: bytes
  tq_nonce :: "int option"
  tq_policy :: "oid option"

record tsr_answer =
  ta_hashAlgorithm :: crypto_hash
  ta_hashedMessage :: bytes
  ta_time :: time
  ta_accuracy :: duration
  ta_nonce :: "int option"
  ta_policy :: oid
  ta_ordering :: bool
  ta_addTSACertificate :: bool

datatype failure_info = BadDataFormat | SystemFailure

record 'k tsr_lib =
  tl_parseRequest :: "bytes \<Rightarrow> string + tsr_query"
  tl_rejection :: "failure_info \<Rightarrow> string + bytes"
  tl_createResponse :: "'k \<Rightarrow> tsr_answer \<Rightarrow> string + bytes"

subsection \<open>Nonces\<close>

definition digest_realm :: string where "digest_realm = ''timestampserver''"
definition session_cookie :: string where "session_cookie = ''JSESSIONID''"

record digest_auth =
  da_nonce :: string
  da_sessID :: string
  da_sessions :: "string \<rightharpoonup> string"
  da_served :: int
  da_draws :: nat

definition new_digest_auth :: digest_auth where
  "new_digest_auth = \<lparr>da_nonce = [], da_sessID = [], da_sessions = Map.empty, da_served = 0, da_draws = 0\<rparr>"

definition random_nonce :: "(nat \<Rightarrow> bytes option) \<Rightarrow> nat \<Rightarrow> string" where
  "random_nonce R i = (case R i of None \<Rightarrow> ''static-nonce'' | Some b \<Rightarrow> hex_encode b)"

definition current_nonce :: "(nat \<Rightarrow> bytes option) \<Rightarrow> digest_auth \<Rightarrow> string \<times> digest_auth" where
  "current_nonce R d =
     (if da_nonce d = []
      then (let n = random_nonce R (da_draws d) in (n, d\<lparr>da_nonce := n, da_draws := Suc (da_draws d)\<rparr>))
      else (da_nonce d, d))"

definition session_id :: "(nat \<Rightarrow> bytes option) \<Rightarrow> digest_auth \<Rightarrow> string \<times> digest_auth" where
  "session_id R d =
     (if da_sessID d = []
      then (let n = random_nonce R (da_draws d) in (n, d\<lparr>da_sessID := n, da_draws := Suc (da_draws d)\<rparr>))
      else (da_sessID d, d))"

definition rotate_nonce :: "(nat \<Rightarrow> bytes option) \<Rightarrow> digest_auth \<Rightarrow> digest_auth" where
  "rotate_nonce R d =
     d\<lparr>da_nonce := random_nonce R (da_draws d), da_draws := Suc (da_draws d), da_served := 0\<rparr>"

definition issue :: "(nat \<Rightarrow> bytes option) \<Rightarrow> digest_auth \<Rightarrow> string \<times> string \<times> digest_auth" where
  "issue R d =
     (let sess = random_nonce R (da_draws d); nonce = random_nonce R (Suc (da_draws d)) in
      (sess, nonce, d\<lparr>da_sessions := (da_sessions d)(sess \<mapsto> nonce), da_draws := Suc (Suc (da_draws d))\<rparr>))"

definition consume :: "string \<Rightarrow> string \<Rightarrow> digest_auth \<Rightarrow> bool \<times> digest_auth" where
  "consume sess nonce d =
     (case da_sessions d sess of
        None \<Rightarrow> (False, d)
      | Some want \<Rightarrow>
         (if want \<noteq> nonce then (False, d)
          else (True, d\<lparr>da_sessions := (da_sessions d)(sess := None)\<rparr>)))"

subsection \<open>Replies\<close>

text \<open>A reply, with the one header of the responder that its clients do not read.\<close>

record reply = http_reply +
  hp_retryAfter :: string

text \<open>\<^verbatim>\<open>http.Error\<close> on what has been set so far\<close>

definition http_error :: "string \<Rightarrow> int \<Rightarrow> string \<Rightarrow> (string \<times> string) list \<Rightarrow> string \<Rightarrow> reply" where
  "http_error msg code wwwAuthenticate cookies retryAfter =
     \<lparr>hp_status = code, hp_wwwAuthenticate = wwwAuthenticate, hp_cookies = cookies,
      hp_contentType = ''text/plain; charset=utf-8'', hp_body = msg @ [CHR 0x0A], hp_readError = None,
      hp_retryAfter = retryAfter\<rparr>"

record 'k mock_env =
  me_digest :: digest_lib
  me_rand :: "nat \<Rightarrow> bytes option"
  me_lib :: "'k tsr_lib"

text \<open>The value of the challenge header: \<^verbatim>\<open>Digest realm=%q, qop="auth", nonce=%q\<close>\<close>

definition challenge_header :: "string \<Rightarrow> string" where
  "challenge_header nonce =
     ''Digest realm='' @ go_quote digest_realm @ '', qop='' @ go_quote ''auth'' @ '', nonce='' @ go_quote nonce"

definition reject :: "'k mock_env \<Rightarrow> digest_auth \<Rightarrow> reply \<times> digest_auth" where
  "reject E d =
     (case current_nonce (me_rand E) d of
        (n, d1) \<Rightarrow> (http_error ''bad credentials'' 401 (challenge_header n) [] [], d1))"

definition draw_nonce :: "'k mock_env \<Rightarrow> options \<Rightarrow> digest_auth \<Rightarrow> string \<times> (string \<times> string) list \<times> digest_auth" where
  "draw_nonce E o' d =
     (if mo_singleUseNonce o' then
        (case issue (me_rand E) d of (sess, n, d1) \<Rightarrow> (n, [(session_cookie, sess)], d1))
      else if mo_sessionBoundNonce o' then
        (case current_nonce (me_rand E) d of
           (n, d1) \<Rightarrow> (case session_id (me_rand E) d1 of (sess, d2) \<Rightarrow> (n, [(session_cookie, sess)], d2)))
      else (case current_nonce (me_rand E) d of (n, d1) \<Rightarrow> (n, [], d1)))"

definition challenge_client :: "'k mock_env \<Rightarrow> options \<Rightarrow> bool \<Rightarrow> digest_auth \<Rightarrow> reply \<times> digest_auth" where
  "challenge_client E o' stale d =
     (case draw_nonce E o' d of
        (n, cookies, d1) \<Rightarrow>
          (http_error ''authentication required'' 401
             (challenge_header n @ (if stale then '', stale=true'' else [])) cookies [], d1))"

subsection \<open>Cookies of a request\<close>

text \<open>\<^verbatim>\<open>Request.CookiesNamed\<close>: the values in the Cookie header under a name, up to the limit on
  their number.\<close>

definition ascii_space :: "char \<Rightarrow> bool" where
  "ascii_space c \<longleftrightarrow> c \<in> {CHR '' '', CHR 0x09, CHR 0x0A, CHR 0x0D}"

definition trim_ascii :: "string \<Rightarrow> string" where
  "trim_ascii s = rev (dropWhile ascii_space (rev (dropWhile ascii_space s)))"

definition cookie_byte :: "char \<Rightarrow> bool" where
  "cookie_byte c \<longleftrightarrow> 32 \<le> byte c \<and> byte c < 127 \<and> c \<noteq> CHR 0x22 \<and> c \<noteq> CHR '';'' \<and> c \<noteq> CHR 0x5C"

definition cookie_value :: "string \<Rightarrow> string option" where
  "cookie_value raw =
     (let v = (if length raw > 1 \<and> hd raw = CHR 0x22 \<and> last raw = CHR 0x22 then butlast (tl raw) else raw)
      in if list_all cookie_byte v then Some v else None)"

definition read_cookie :: "string \<Rightarrow> string \<Rightarrow> string option" where
  "read_cookie name raw =
     (let part = trim_ascii raw;
          (nm, v) = (case index_of part ''='' of None \<Rightarrow> (part, []) | Some i \<Rightarrow> (take i part, drop (i + 1) part))
      in if part = [] \<or> trim_ascii nm \<noteq> name then None else cookie_value v)"

definition cookies_named :: "string \<Rightarrow> http_request \<Rightarrow> string list" where
  "cookies_named name req =
     (case hq_header req ''Cookie'' of
        None \<Rightarrow> [] | Some line \<Rightarrow> List.map_filter (read_cookie name) (split_on CHR '';'' (trim_ascii line)))"

subsection \<open>Authentication\<close>

definition response_matches :: "digest_lib \<Rightarrow> options \<Rightarrow> (string \<rightharpoonup> string) \<Rightarrow> string \<Rightarrow> string \<Rightarrow> bool" where
  "response_matches L o' p method nonce =
     (let ha1 = digest_hash L ''MD5'' (mo_digestUser o' @ '':'' @ digest_realm @ '':'' @ mo_digestPass o');
          ha2 = digest_hash L ''MD5'' (method @ '':'' @ map_get p ''uri'');
          want = (if map_get p ''qop'' = ''auth''
            then digest_hash L ''MD5'' (join '':'' [ha1, nonce, map_get p ''nc'', map_get p ''cnonce'', ''auth'', ha2])
            else digest_hash L ''MD5'' (join '':'' [ha1, nonce, ha2]))
      in map_get p ''response'' = want \<and> map_get p ''username'' = mo_digestUser o')"

text \<open>What \<^verbatim>\<open>authorisedSingleUse\<close> decides before it touches the sessions: the request has one session
  cookie, a first nonce count and the right response, and the session's nonce is to be spent.\<close>

datatype verdict = Challenge_It | Reject_It | Spend string string

definition single_use_verdict :: "digest_lib \<Rightarrow> options \<Rightarrow> http_request \<Rightarrow> (string \<rightharpoonup> string) \<Rightarrow> verdict" where
  "single_use_verdict L o' req p =
     (case cookies_named session_cookie req of
        [c] \<Rightarrow>
          (if map_get p ''nc'' \<noteq> [] \<and> map_get p ''nc'' \<noteq> ''00000001'' then Challenge_It
           else if \<not> response_matches L o' p (hq_method req) (map_get p ''nonce'') then Reject_It
           else Spend c (map_get p ''nonce''))
      | _ \<Rightarrow> Challenge_It)"

text \<open>A handler that authenticates returns the reply it has written, or none for a valid request.\<close>

definition refused :: "reply \<times> digest_auth \<Rightarrow> reply option \<times> digest_auth" where
  "refused r = (Some (fst r), snd r)"

definition authorised_single_use ::
    "'k mock_env \<Rightarrow> options \<Rightarrow> http_request \<Rightarrow> (string \<rightharpoonup> string) \<Rightarrow> digest_auth \<Rightarrow> reply option \<times> digest_auth" where
  "authorised_single_use E o' req p d =
     (case single_use_verdict (me_digest E) o' req p of
        Challenge_It \<Rightarrow> refused (challenge_client E o' False d)
      | Reject_It \<Rightarrow> refused (reject E d)
      | Spend c n \<Rightarrow>
          (case consume c n d of
             (True, d1) \<Rightarrow> (None, d1)
           | (False, d1) \<Rightarrow> refused (challenge_client E o' False d1)))"

definition count_served :: "'k mock_env \<Rightarrow> options \<Rightarrow> digest_auth \<Rightarrow> digest_auth" where
  "count_served E o' d =
     (if mo_nonceLifetime o' > 0 then
        (let d1 = d\<lparr>da_served := s64 (da_served d + 1)\<rparr> in
         if da_served d1 \<ge> mo_nonceLifetime o' then rotate_nonce (me_rand E) d1 else d1)
      else d)"

definition authorised_shared ::
    "'k mock_env \<Rightarrow> options \<Rightarrow> http_request \<Rightarrow> (string \<rightharpoonup> string) \<Rightarrow> digest_auth \<Rightarrow> reply option \<times> digest_auth" where
  "authorised_shared E o' req p d =
     (case current_nonce (me_rand E) d of
        (nonce, d1) \<Rightarrow>
          (if map_get p ''nonce'' \<noteq> nonce then refused (challenge_client E o' True d1)
           else (case (if \<not> mo_sessionBoundNonce o' then (True, d1)
                       else (case cookies_named session_cookie req of
                          [] \<Rightarrow> (False, d1)
                        | c # _ \<Rightarrow> (case session_id (me_rand E) d1 of (sess, d2) \<Rightarrow> (c = sess, d2)))) of
             (False, d2) \<Rightarrow> refused (challenge_client E o' False d2)
           | (True, d2) \<Rightarrow>
               (if \<not> response_matches (me_digest E) o' p (hq_method req) nonce then refused (reject E d2)
                else (None, count_served E o' d2)))))"

definition authorised :: "'k mock_env \<Rightarrow> options \<Rightarrow> http_request \<Rightarrow> digest_auth \<Rightarrow> reply option \<times> digest_auth" where
  "authorised E o' req d =
     (let auth = map_get (hq_header req) ''Authorization'' in
      if \<not> has_prefix (to_lower auth) ''digest '' then refused (challenge_client E o' False d)
      else (case parse_digest_challenge auth of
         Inl _ \<Rightarrow> refused (challenge_client E o' False d)
       | Inr p \<Rightarrow> if mo_singleUseNonce o' then authorised_single_use E o' req p d
                  else authorised_shared E o' req p d))"

subsection \<open>Responses\<close>

definition flip_byte :: "char \<Rightarrow> char" where
  "flip_byte c = char_of (nat (255 - byte c))"

text \<open>\<^verbatim>\<open>orZero\<close>\<close>

definition or_zero :: "int option \<Rightarrow> int" where
  "or_zero n = (case n of None \<Rightarrow> 0 | Some v \<Rightarrow> v)"

definition skewed :: "options \<Rightarrow> string \<Rightarrow> time \<Rightarrow> time" where
  "skewed o' flt now =
     (if flt = FaultSkewedTime
      then time_add now (if mo_timeOffset o' = 0 then 24 * hour else mo_timeOffset o') else now)"

definition answer_of :: "options \<Rightarrow> string \<Rightarrow> time \<Rightarrow> tsr_query \<Rightarrow> string + tsr_answer" where
  "answer_of o' flt now q =
     (if flt = FaultWrongImprint \<and> tq_hashedMessage q = [] then Inl ''empty imprint''
      else Inr \<lparr>ta_hashAlgorithm = tq_hashAlgorithm q,
        ta_hashedMessage = (if flt = FaultWrongImprint
          then flip_byte (hd (tq_hashedMessage q)) # tl (tq_hashedMessage q) else tq_hashedMessage q),
        ta_time = skewed o' flt now, ta_accuracy = second,
        ta_nonce = (if flt = FaultWrongNonce then Some (or_zero (tq_nonce q) + 1) else tq_nonce q),
        ta_policy = (case tq_policy q of None \<Rightarrow> [1, 3, 6, 1, 4, 1, 99999, 1, 1] | Some p \<Rightarrow> p),
        ta_ordering = False, ta_addTSACertificate = (flt \<noteq> FaultNoCertificate)\<rparr>)"

text \<open>\<^verbatim>\<open>respond\<close>; the outer \<open>None\<close> is the panic of flipping the last byte of an empty response.\<close>

definition respond ::
    "'k tsr_lib \<Rightarrow> 'k \<Rightarrow> options \<Rightarrow> time \<Rightarrow> bytes \<Rightarrow> string \<Rightarrow> (string + bytes) option" where
  "respond lib signer o' now reqDER flt =
     (if flt = FaultMalformedBody then Some (Inr [char_of (48 :: nat), char_of (3 :: nat), char_of (2 :: nat), char_of (1 :: nat)])
      else if flt = FaultRejection then Some (tl_rejection lib SystemFailure)
      else (case tl_parseRequest lib reqDER of
         Inl _ \<Rightarrow> Some (tl_rejection lib BadDataFormat)
       | Inr q \<Rightarrow>
           (case and_then (answer_of o' flt now q) (tl_createResponse lib signer) of
              Inl e \<Rightarrow> Some (Inl e)
            | Inr out \<Rightarrow>
                (if flt \<noteq> FaultBrokenSignature then Some (Inr out)
                 else if out = [] then None
                 else Some (Inr (butlast out @ [flip_byte (last out)]))))))"

subsection \<open>The handler\<close>

record 'k mock_server =
  ms_opts :: options
  ms_signer :: 'k
  ms_auth :: digest_auth
  ms_requests :: int
  ms_fault :: string

text \<open>\<^verbatim>\<open>New\<close>: a given authority, or the first draw of a fresh one, and the next draw for the
  timestamping certificate.\<close>

definition new_mock ::
    "'k x509_lib \<Rightarrow> (nat \<Rightarrow> time \<times> time) \<Rightarrow> 'k ca option \<Rightarrow> key_type \<Rightarrow> options \<Rightarrow>
     (string + 'k ca \<times> 'k leaf mock_server) option" where
  "new_mock X nows givenCA kt o' =
     (case (case givenCA of Some c \<Rightarrow> Some (Inr c)
            | None \<Rightarrow> new_ca X 0 (nows 0) ''tsa-bench development CA'' kt) of
        None \<Rightarrow> None
      | Some (Inl e) \<Rightarrow> Some (Inl (''generate development CA: '' @ e))
      | Some (Inr c) \<Rightarrow>
     (case issue_tsa X 1 (nows 1) c \<lparr>to_keyType = kt, to_notBefore = 0, to_notAfter = 0,
          to_omitTimeStampingEKU = False, to_extraEKU = False, to_nonCriticalEKU = False, to_commonName = []\<rparr> of
        None \<Rightarrow> None
      | Some (Inl e) \<Rightarrow> Some (Inl (''issue development TSA certificate: '' @ e))
      | Some (Inr l) \<Rightarrow>
          Some (Inr (c, \<lparr>ms_opts = o', ms_signer = l, ms_auth = new_digest_auth, ms_requests = 0,
            ms_fault = mo_fault o'\<rparr>))))"

definition set_fault :: "string \<Rightarrow> 'k mock_server \<Rightarrow> 'k mock_server" where
  "set_fault flt s = s\<lparr>ms_fault := flt\<rparr>"

definition use_signer :: "'k \<Rightarrow> 'k mock_server \<Rightarrow> 'k mock_server" where
  "use_signer k s = s\<lparr>ms_signer := k\<rparr>"

definition max_body :: nat where "max_body = 1048576"

text \<open>The handler after authentication; \<open>None\<close> is a panic, which closes the connection.\<close>

definition answer_request :: "'k mock_env \<Rightarrow> 'k \<Rightarrow> options \<Rightarrow> time \<Rightarrow> string \<Rightarrow> http_request \<Rightarrow> reply option" where
  "answer_request E signer o' now flt req =
     (if map_get (hq_header req) ''Content-Type'' \<noteq> content_type_request
        then Some (http_error ''unexpected content type'' 415 [] [] [])
      else if flt = FaultHTTP500 then Some (http_error ''injected server error'' 500 [] [] [])
      else if flt = FaultHTTP429 then Some (http_error ''injected rate limit'' 429 [] [] ''1'')
      else if length (hq_body req) > max_body then Some (http_error ''cannot read request'' 400 [] [] [])
      else (case respond (me_lib E) signer o' now (hq_body req) flt of
         None \<Rightarrow> None
       | Some (Inl _) \<Rightarrow> Some (http_error ''cannot build response'' 500 [] [] [])
       | Some (Inr resp) \<Rightarrow>
           Some \<lparr>hp_status = 200, hp_wwwAuthenticate = [], hp_cookies = [],
             hp_contentType = (if flt = FaultBadContentType then ''text/html; charset=utf-8'' else content_type_response),
             hp_body = resp, hp_readError = None, hp_retryAfter = []\<rparr>))"

text \<open>\<^verbatim>\<open>serve\<close>; \<open>gone\<close> says that the client gives up during the artificial delay.\<close>

definition serve ::
    "'k mock_env \<Rightarrow> time \<Rightarrow> bool \<Rightarrow> http_request \<Rightarrow> 'k mock_server \<Rightarrow> reply option \<times> 'k mock_server" where
  "serve E now gone req s0 =
     (let s = s0\<lparr>ms_requests := s64 (ms_requests s0 + 1)\<rparr>; flt = ms_fault s; o' = ms_opts s in
      if mo_latency o' > 0 \<and> gone then (None, s)
      else if hq_method req \<noteq> ''POST''
        then (Some (http_error ''only POST is supported'' 405 [] [] []), s)
      else (case (if mo_digestUser o' \<noteq> [] then authorised E o' req (ms_auth s) else (None, ms_auth s)) of
         (Some r, d) \<Rightarrow> (Some r, s\<lparr>ms_auth := d\<rparr>)
       | (None, d) \<Rightarrow> (answer_request E (ms_signer s) o' now flt req, s\<lparr>ms_auth := d\<rparr>)))"

subsection \<open>Binding\<close>

text \<open>\<^verbatim>\<open>net.SplitHostPort\<close> and \<^verbatim>\<open>net.Listen\<close> are arguments.\<close>

definition listen_and_serve ::
    "world \<Rightarrow> (string \<Rightarrow> string + string \<times> string) \<Rightarrow> (string \<Rightarrow> string + 'l) \<Rightarrow> string \<Rightarrow> bool \<Rightarrow> string + 'l" where
  "listen_and_serve w split_host_port listen addr allowExternal =
     (case split_host_port addr of
        Inl e \<Rightarrow> Inl (''invalid address '' @ go_quote addr @ '': '' @ e)
      | Inr (host, _) \<Rightarrow>
          (if \<not> allowExternal \<and> \<not> is_loopback_host w host
           then Inl (''refusing to bind mock TSA to non-loopback address '' @ go_quote host @
                  ''; pass --bind-external to override'')
           else listen addr))"

end
