(* ===== verification/Commands.thy ===== *)
theory Commands
  imports Command_Output Mock
begin

text \<open>
  The other commands of \<^verbatim>\<open>cmd/tsa-bench\<close>: \<^verbatim>\<open>validate\<close> (validate.go), \<^verbatim>\<open>report\<close> (report.go),
  \<^verbatim>\<open>doctor\<close> (doctor.go), \<^verbatim>\<open>mock\<close> (mock.go), and the dispatch of main.go.  The values of parsed
  flags are arguments.  Files, environment and decoders are the fields of \<open>machine\<close>; what the network
  answers to \<^verbatim>\<open>doctor\<close> is \<open>doctor_env\<close>.
\<close>

record console =
  con_out :: string
  con_err :: string

definition warning_line :: "warning \<Rightarrow> string" where
  "warning_line w = line (''WARNING ['' @ wn_field w @ '']: '' @ wn_message w)"

subsection \<open>validate\<close>

record validate_flags =
  vf_cfgPath :: string
  vf_profilePath :: string
  vf_quiet :: bool

definition stage_line :: "(f64 \<Rightarrow> int) \<Rightarrow> stage \<Rightarrow> string" where
  "stage_line oob s =
     (if stg_mode s = ModeSequential
      then line (''  '' @ pad_right 16 (stg_name s) @ '' sequential  '' @ pad_left 6 (int_dec (stg_count s)) @ '' requests'')
      else line (''  '' @ pad_right 16 (stg_name s) @ '' '' @ pad_left 6 (fmt_fixed 0 (stg_tps s)) @ '' TPS x '' @
        pad_right 6 (duration_string (stg_duration s)) @ '' '' @ pad_left 6 (int_dec (planned oob s)) @ '' requests''))"

definition profile_text :: "(f64 \<Rightarrow> int) \<Rightarrow> profile \<Rightarrow> string" where
  "profile_text oob p =
     line (''profile '' @ prf_name p @ '': '' @ nat_dec (length (prf_stages p)) @ '' stages, '' @
       int_dec (total_planned oob p) @ '' planned requests, '' @ int_dec (prf_reserve p) @ '' reserved'') @
     concat (map (stage_line oob) (prf_stages p))"

definition check_profile :: "'c machine \<Rightarrow> string \<Rightarrow> config \<Rightarrow> exit_error + profile" where
  "check_profile M path cfg =
     and_then (map_error (\<lambda>e. fail 1 (mc_profileErrorText M e))
       (load_profile (mc_readFile M) (mc_decodeProfile M) (mc_oob M) path)) (\<lambda>p.
     and_then (map_error (fail 1) (budget cfg 0)) (\<lambda>b.
     (case check_against_quota (mc_oob M) p b (lm_hardCap (cf_limits cfg)) of
        Some e \<Rightarrow> Inl (fail 1 (mc_profileErrorText M e))
      | None \<Rightarrow> Inr p)))"

definition check_inputs :: "'c machine \<Rightarrow> validate_flags \<Rightarrow> exit_error + config \<times> profile option" where
  "check_inputs M f =
     (if vf_cfgPath f = [] then Inl (fail 2 ''--config is required'')
      else
     and_then (map_error (\<lambda>e. fail 1 (mc_configErrorText M e))
       (load_file (mc_world M) (mc_readFile M) (mc_decodeConfig M) (vf_cfgPath f))) (\<lambda>cfg.
     and_then (map_error (\<lambda>e. fail 1 (''credentials: '' @ e)) (resolve_credentials (mc_world M) cfg)) (\<lambda>_.
     (if vf_profilePath f = [] then Inr (cfg, None)
      else map_sum id (\<lambda>p. (cfg, Some p)) (check_profile M (vf_profilePath f) cfg)))))"

text \<open>\<open>None\<close> is the nil dereference of \<open>config_string\<close>.\<close>

definition run_validate :: "'c machine \<Rightarrow> validate_flags \<Rightarrow> (exit_error + console) option" where
  "run_validate M f =
     (case check_inputs M f of
        Inl e \<Rightarrow> Some (Inl e)
      | Inr (cfg, p) \<Rightarrow>
          (let ws = warnings (mc_world M) cfg;
               err = (if ws = [] then [] else line [] @ concat (map warning_line ws))
           in if vf_quiet f then Some (Inr \<lparr>con_out = [], con_err = err\<rparr>)
              else map_option (\<lambda>dump. Inr \<lparr>con_out =
                  (case p of None \<Rightarrow> [] | Some p \<Rightarrow> profile_text (mc_oob M) p) @
                  line ''configuration is valid (no network traffic was sent)'' @ line [] @ dump, con_err = err\<rparr>)
                (config_string (mc_world M) cfg)))"

subsection \<open>report\<close>

definition flag_name :: "string \<Rightarrow> string" where
  "flag_name a = dropWhile (\<lambda>c. c = CHR ''-'') a"

fun partition_args :: "(string \<Rightarrow> bool) \<Rightarrow> string list \<Rightarrow> string list \<times> string list" where
  "partition_args valueFlags [] = ([], [])"
| "partition_args valueFlags (a # args) =
     (if a = ''--'' then ([], args)
      else if \<not> has_prefix a ''-'' \<or> a = ''-''
        then (case partition_args valueFlags args of (flags, positional) \<Rightarrow> (flags, a # positional))
      else if CHR ''='' \<in> set (flag_name a) \<or> \<not> valueFlags (flag_name a)
        then (case partition_args valueFlags args of (flags, positional) \<Rightarrow> (a # flags, positional))
      else (case args of
          [] \<Rightarrow> ([a], [])
        | v # rest \<Rightarrow> (case partition_args valueFlags rest of (flags, positional) \<Rightarrow> (a # v # flags, positional))))"

text \<open>\<open>pe_parse\<close> is \<^verbatim>\<open>fs.Parse\<close>: the value of \<^verbatim>\<open>--output\<close> and what it left over.\<close>

record report_env =
  pe_parse :: "string list \<Rightarrow> string \<times> string list"
  pe_readFile :: "string \<Rightarrow> string + bytes"
  pe_unmarshal :: "bytes \<Rightarrow> string + summary"
  pe_disk :: os_env
  pe_encode :: "comparison \<Rightarrow> string + bytes"
  pe_parseTemplate :: "io_error option"
  pe_execute :: "comparison_data \<Rightarrow> string + bytes"
  pe_now :: time

fun load_summaries :: "report_env \<Rightarrow> string list \<Rightarrow> string + summary list" where
  "load_summaries E [] = Inr []"
| "load_summaries E (d # ds) =
     and_then (load_summary (pe_readFile E) (pe_unmarshal E) d) (\<lambda>s.
     and_then (load_summaries E ds) (\<lambda>ss. Inr (s # ss)))"

text \<open>\<^verbatim>\<open>filepath.Dir\<close>\<close>

definition path_dir :: "string \<Rightarrow> string" where
  "path_dir p = path_clean (rev (dropWhile (\<lambda>c. c \<noteq> CHR ''/'') (rev p)))"

definition entry_note :: "comparison_entry \<Rightarrow> string" where
  "entry_note e =
     (if ce_clientBottleneck e then ''  [client bottleneck: lower bound only]'' else []) @
     (if ce_partial e then ''  [partial run: '' @ ce_stopReason e @ '']'' else [])"

definition entry_line :: "comparison_entry \<Rightarrow> string" where
  "entry_line e = line (''  '' @ pad_right 20 (ce_provider e) @ '' '' @
     pad_left 8 (fmt_fixed 2 (ce_achievedTPS e)) @ '' TPS  success '' @
     pad_left 7 (fmt_fixed 3 (fmul (ce_successRate e) (Fin 100))) @ ''%  p95 '' @
     pad_left 8 (fmt_fixed 2 (ce_p95MS e)) @ '' ms  p99 '' @
     pad_left 8 (fmt_fixed 2 (ce_p99MS e)) @ '' ms'' @ entry_note e)"

definition fail_if :: "string \<Rightarrow> io_error option \<times> 'f \<Rightarrow> exit_error + 'f" where
  "fail_if what r = (case fst r of Some e \<Rightarrow> Inl (fail 1 (what @ e)) | None \<Rightarrow> Inr (snd r))"

record report_files =
  pf_json :: "out_file option"
  pf_csv :: "out_file option"
  pf_html :: "out_file option"

definition write_comparison :: "report_env \<Rightarrow> string \<Rightarrow> comparison \<Rightarrow> exit_error + report_files" where
  "write_comparison E target cmp =
     and_then (fail_if ''write comparison.json: ''
       (write_json_file (pe_disk E) (pe_encode E) (path_join [target, ''comparison.json'']) cmp)) (\<lambda>j.
     and_then (fail_if ''write comparison.csv: ''
       (write_comparison_csv (pe_disk E) (path_join [target, ''comparison.csv'']) cmp)) (\<lambda>c.
     and_then (fail_if ''write comparison.html: ''
       (write_comparison_html (pe_disk E) (pe_parseTemplate E) (pe_execute E) (path_join [target, ''comparison.html'']) cmp)) (\<lambda>h.
       Inr \<lparr>pf_json = j, pf_csv = c, pf_html = h\<rparr>)))"

definition run_report :: "report_env \<Rightarrow> string list \<Rightarrow> exit_error + comparison \<times> report_files \<times> string" where
  "run_report E args =
     (let (flags, positional) = partition_args (\<lambda>n. n = ''output'') args;
          (outDir, rest) = pe_parse E flags;
          dirs = positional @ rest in
      if dirs = [] then Inl (fail 2 ''at least one result directory is required'')
      else
      and_then (map_error (fail 1) (load_summaries E dirs)) (\<lambda>summaries.
      let target = (if outDir = [] then path_dir (path_clean (hd dirs)) else outDir) in
      (case os_mkdir (pe_disk E) target of
         Some e \<Rightarrow> Inl (fail 1 (''create output directory: '' @ e))
       | None \<Rightarrow>
          (let cmp = build_comparison dirs summaries (pe_now E) in
           and_then (write_comparison E target cmp) (\<lambda>files.
             Inr (cmp, files,
               line (''compared '' @ nat_dec (length (cm_entries cmp)) @ '' run(s):'') @
               concat (map entry_line (cm_entries cmp)) @ line [] @ line ''written:'' @
               line (''  '' @ path_join [target, ''comparison.json'']) @
               line (''  '' @ path_join [target, ''comparison.csv'']) @
               line (''  '' @ path_join [target, ''comparison.html''])))))))"

subsection \<open>doctor\<close>

definition host_port :: "string \<Rightarrow> string" where
  "host_port host =
     (let port = takeWhile (\<lambda>c. c \<noteq> CHR '':'') (rev host); cut = length host - length port - 1
      in if CHR '':'' \<in> set host \<and> valid_optional_port (drop cut host) then drop (cut + 1) host else [])"

definition port_or_default :: "url \<Rightarrow> string" where
  "port_or_default u =
     (let port = host_port (u_host u) in
      if port = [] then (if u_scheme u = ''https'' then ''443'' else ''80'') else port)"

text \<open>\<^verbatim>\<open>net.JoinHostPort\<close>\<close>

definition join_host_port :: "string \<Rightarrow> string \<Rightarrow> string" where
  "join_host_port host port =
     (if CHR '':'' \<in> set host then ''['' @ host @ '']:'' @ port else host @ '':'' @ port)"

record peer_cert =
  pc_subject :: string
  pc_issuer :: string
  pc_isCA :: bool
  pc_notBefore :: time
  pc_notAfter :: time
  pc_dnsNames :: "string list"

record tls_state =
  tl_version :: int
  tl_cipherSuite :: string
  tl_peers :: "peer_cert list"

text \<open>What the resolver, the dialers and the clock answer, each with the time it took.\<close>

record doctor_env =
  de_lookup :: "string \<Rightarrow> (goerr + string list) \<times> duration"
  de_dial :: "string \<Rightarrow> (goerr + string) \<times> duration"
  de_handshake :: "tls_config \<Rightarrow> string \<Rightarrow> (goerr + tls_state) \<times> duration"
  de_now :: time
  de_transport :: transport_env
  de_tsp :: tsp_lib
  de_hash :: "crypto_hash \<Rightarrow> bytes \<Rightarrow> bytes"
  de_create :: "crypto_hash \<Rightarrow> bytes \<Rightarrow> bool \<Rightarrow> int \<Rightarrow> oid option \<Rightarrow> string + bytes"
  de_payload :: "string + bytes"
  de_draws :: "(string + int) list"
  de_sentAt :: time
  de_receivedAt :: time

definition ms_text :: "duration \<Rightarrow> string" where
  "ms_text d = duration_string (duration_round d millisecond)"

definition redact_error :: "world \<Rightarrow> goerr \<Rightarrow> string" where
  "redact_error w e = redact_text (w_url w) (err_text e)"

definition hex04 :: "int \<Rightarrow> string" where
  "hex04 n = (let s = nat_hex (nat n) in replicate (4 - length s) CHR ''0'' @ s)"

definition tls_version_name :: "int \<Rightarrow> string" where
  "tls_version_name v =
     (if v = 771 then ''TLS 1.2'' else if v = 772 then ''TLS 1.3'' else ''0x'' @ hex04 v)"

definition duration_hours :: "duration \<Rightarrow> f64" where
  "duration_hours d = fadd (f64_of_int (d sdiv hour)) (fdiv (f64_of_int (d smod hour)) (f64_of_int hour))"

definition chain_role :: "nat \<Rightarrow> peer_cert \<Rightarrow> string" where
  "chain_role i c =
     (if i = 0 then ''leaf'' else if pc_isCA c \<and> pc_subject c = pc_issuer c then ''root'' else ''intermediate'')"

definition chain_status :: "(f64 \<Rightarrow> int) \<Rightarrow> time \<Rightarrow> peer_cert \<Rightarrow> string" where
  "chain_status oob now c =
     (let remaining = time_sub (pc_notAfter c) now in
      if now < pc_notBefore c then ''NOT YET VALID''
      else if now > pc_notAfter c then ''EXPIRED''
      else if remaining < 30 * 24 * hour
        then ''expires in '' @ int_dec (f64_to_i64 oob (fdiv (duration_hours remaining) (Fin 24))) @ '' days''
      else ''valid'')"

text \<open>\<^verbatim>\<open>t.UTC().Format(time.RFC3339)\<close>\<close>

definition format_rfc3339 :: "time \<Rightarrow> string" where
  "format_rfc3339 t =
     (case civil_of_day (t div nanos_per_day) of (y, m, d) \<Rightarrow>
      (let s = nat (t mod nanos_per_day) div 1000000000
       in go_year y @ ''-'' @ pad_dec 2 (nat m) @ ''-'' @ pad_dec 2 (nat d) @ ''T'' @
          pad_dec 2 (s div 3600) @ '':'' @ pad_dec 2 (s div 60 mod 60) @ '':'' @ pad_dec 2 (s mod 60) @ ''Z''))"

definition chain_entry :: "(f64 \<Rightarrow> int) \<Rightarrow> time \<Rightarrow> nat \<times> peer_cert \<Rightarrow> string" where
  "chain_entry oob now ic =
     (case ic of (i, c) \<Rightarrow>
        line (''  ['' @ nat_dec i @ ''] '' @ pad_right 12 (chain_role i c) @ '' '' @ pc_subject c) @
        line (''       issuer   '' @ pc_issuer c) @
        line (''       validity '' @ format_rfc3339 (pc_notBefore c) @ '' .. '' @ format_rfc3339 (pc_notAfter c) @
          '' ('' @ chain_status oob now c @ '')'') @
        (if pc_dnsNames c = [] then [] else line (''       names    '' @ join '', '' (pc_dnsNames c))))"

definition print_chain :: "(f64 \<Rightarrow> int) \<Rightarrow> time \<Rightarrow> peer_cert list \<Rightarrow> string" where
  "print_chain oob now cs = concat (map (chain_entry oob now) (enumerate 0 cs))"

text \<open>Every step yields what it printed, and the error it ended with.\<close>

definition doctor_tls ::
    "'c machine \<Rightarrow> doctor_env \<Rightarrow> config \<Rightarrow> string \<Rightarrow> string \<Rightarrow> string \<times> exit_error option" where
  "doctor_tls M D cfg host port =
     (case tls_config_of (mc_readFile M) (mc_fromPEM M) (mc_loadPair M) cfg of
        Inl e \<Rightarrow> ([], Some (fail 1 e))
      | Inr t0 \<Rightarrow>
          (let t = (if tl_serverName t0 = [] then t0\<lparr>tl_serverName := host\<rparr> else t0) in
           (case de_handshake D t (join_host_port host port) of
              (Inl e, _) \<Rightarrow> (line (''TLS         FAIL  '' @ redact_error (mc_world M) e), Some (fail 1 ''TLS handshake failed''))
            | (Inr st, d) \<Rightarrow>
                (line (''TLS         ok    '' @ tls_version_name (tl_version st) @ '' / '' @ tl_cipherSuite st @
                   '' ('' @ ms_text d @ '')'') @
                 (if tc_insecureSkipVerify (cf_tls cfg)
                  then line ''            NOTE  certificate verification was disabled for this check'' else []) @
                 line [] @ line ''Server certificate chain:'' @ print_chain (mc_oob M) (de_now D) (tl_peers st), None))))"

definition result_text :: "verify_result \<Rightarrow> string" where
  "result_text res =
     line [] @ line ''  verification  PASSED'' @
     line (''  genTime       '' @ format_rfc3339_nano (vr_genTime res) @ '' (skew '' @ ms_text (vr_clockSkew res) @ '')'') @
     line (''  accuracy      '' @ duration_string (vr_accuracy res)) @
     line (''  serial        '' @ int_dec (vr_serialNumber res)) @
     line (''  policy        '' @ vr_policy res) @
     line (''  signer        '' @ vr_signerSubject res) @
     line (''  issuer        '' @ vr_signerIssuer res) @
     line (''  signer expiry '' @ format_rfc3339 (vr_signerExpiry res)) @
     (if ess_present (vr_ess res)
      then line (''  ESS binding   SigningCertificate'' @ ess_version (vr_ess res) @ '' matched'')
      else line ''  ESS binding   absent (signer binding could not be checked)'') @
     concat (map (\<lambda>w. line (''  warning       '' @ w)) (vr_warnings res))"

text \<open>The response, from its headers to the verdict.  \<open>None\<close> is the panic of the verifier.\<close>

definition judge_response ::
    "doctor_env \<Rightarrow> world \<Rightarrow> verifier \<Rightarrow> string \<Rightarrow> request \<Rightarrow> http_reply \<Rightarrow> (string \<times> exit_error option) option" where
  "judge_response D w v src req resp =
     (case hp_readError resp of
        Some e \<Rightarrow> Some ([], Some (fail 1 (''read response: '' @ redact_error w e)))
      | None \<Rightarrow>
          (let head = line (''  HTTP status   '' @ int_dec (hp_status resp)) @
               line (''  Content-Type  '' @ hp_contentType resp) @
               line (''  round trip    '' @ ms_text (time_sub (de_receivedAt D) (de_sentAt D))) @
               line (''  trust anchor  '' @ src) in
           (case verify (de_tsp D) v req \<lparr>hr_statusCode = hp_status resp, hr_contentType = hp_contentType resp,
               hr_body = take max_response_bytes (hp_body resp), hr_sentAt = de_sentAt D, hr_receivedAt = de_receivedAt D\<rparr> of
              None \<Rightarrow> None
            | Some (_, Some e) \<Rightarrow>
                Some (head @ line [] @ line (''  VERIFICATION FAILED: '' @ error_key e) @ line (''  '' @ e_detail e),
                  Some (fail 1 ''the response is not an acceptable RFC 3161 timestamp''))
            | Some (Some res, None) \<Rightarrow> Some (head @ result_text res, None)
            | Some (None, None) \<Rightarrow> None)))"

definition auth_line :: "config \<Rightarrow> string" where
  "auth_line cfg =
     (if au_type (pv_auth (cf_provider cfg)) = AuthDigest
      then (if au_challengePerRequest (pv_auth (cf_provider cfg))
            then line ''  auth          digest challenge drawn for this request''
            else line ''  auth          digest challenge obtained'')
      else [])"

definition prepare_send :: "'c machine \<Rightarrow> config \<Rightarrow> exit_error + verifier \<times> string \<times> builder \<times> credentials" where
  "prepare_send M cfg =
     and_then (map_error (fail 1) (tsa_roots (mc_readFile M) (mc_fromPEM M) (mc_systemPool M) cfg)) (\<lambda>(roots, src).
     and_then (map_error (fail 1)
       (new_verifier roots (rc_maxClockSkew (cf_request cfg)) (rc_requireESS (cf_request cfg)))) (\<lambda>v.
     and_then (map_error (fail 1) (new_builder (builder_options_of cfg))) (\<lambda>b.
     and_then (map_error (fail 1) (tls_config_of (mc_readFile M) (mc_fromPEM M) (mc_loadPair M) cfg)) (\<lambda>_.
     and_then (map_error (\<lambda>e. fail 1 (''credentials: '' @ e)) (resolve_credentials (mc_world M) cfg)) (\<lambda>cr.
       Inr (v, src, b, cr))))))"

definition doctor_send_one ::
    "'c machine \<Rightarrow> doctor_env \<Rightarrow> config \<Rightarrow> net \<Rightarrow> ((string \<times> exit_error option) \<times> net) option" where
  "doctor_send_one M D cfg n =
     (let head = line [] @ line ''Sending one RFC 3161 request (consumes one unit of quota)...'' in
      (case prepare_send M cfg of
         Inl e \<Rightarrow> Some ((head, Some e), n)
       | Inr (v, src, b, cr) \<Rightarrow>
      (case build_request (de_hash D) (de_create D) b (de_payload D) (de_draws D) of
         None \<Rightarrow> None
       | Some (Inl e) \<Rightarrow> Some ((head, Some (fail 1 e)), n)
       | Some (Inr req) \<Rightarrow>
      (case prime (de_transport D) (new_authenticator cfg (Some cr)) n of
         (Some e, _, n1) \<Rightarrow> Some ((head, Some (fail 1 (err_text e))), n1)
       | (None, a, n1) \<Rightarrow>
      (case post_timestamp (de_transport D) (pv_endpoint (cf_provider cfg)) (rq_der req) a n1 of
         (Inl e, _, n2) \<Rightarrow>
           Some ((head @ auth_line cfg, Some (fail 1 (''request failed: '' @ redact_error (mc_world M) e))), n2)
       | (Inr resp, _, n2) \<Rightarrow>
           map_option (\<lambda>(out, e). ((head @ auth_line cfg @ out, e), n2)) (judge_response D (mc_world M) v src req resp))))))"

definition run_doctor ::
    "'c machine \<Rightarrow> doctor_env \<Rightarrow> string \<Rightarrow> bool \<Rightarrow> net \<Rightarrow> (console \<times> exit_error option \<times> net) option" where
  "run_doctor M D cfgPath sendOne n =
     (if cfgPath = [] then Some (\<lparr>con_out = [], con_err = []\<rparr>, Some (fail 2 ''--config is required''), n)
      else (case load_file (mc_world M) (mc_readFile M) (mc_decodeConfig M) cfgPath of
         Inl e \<Rightarrow> Some (\<lparr>con_out = [], con_err = []\<rparr>, Some (fail 1 (mc_configErrorText M e)), n)
       | Inr cfg \<Rightarrow>
      (let err = concat (map warning_line (warnings (mc_world M) cfg));
           stop = (\<lambda>out e n'. Some (\<lparr>con_out = out, con_err = err\<rparr>, e, n')) in
      (case url_parse (w_url (mc_world M)) (pv_endpoint (cf_provider cfg)) of
         None \<Rightarrow> stop [] (Some (fail 1 ''endpoint: parse error'')) n
       | Some u \<Rightarrow>
      (let host = url_hostname u; port = port_or_default u;
           o1 = line (''endpoint    '' @ redacted_endpoint (mc_world M) cfg) @
                line (''environment '' @ pv_environment (cf_provider cfg)) @ line [] in
      (case de_lookup D host of
         (Inl e, _) \<Rightarrow> stop (o1 @ line (''DNS         FAIL  '' @ redact_error (mc_world M) e)) (Some (fail 1 ''DNS resolution failed'')) n
       | (Inr ips, d) \<Rightarrow>
      (let o2 = o1 @ line (''DNS         ok    '' @ join '', '' ips @ '' ('' @ ms_text d @ '')'') in
      (case de_dial D (join_host_port host port) of
         (Inl e, _) \<Rightarrow> stop (o2 @ line (''TCP         FAIL  '' @ redact_error (mc_world M) e)) (Some (fail 1 ''TCP connection failed'')) n
       | (Inr remote, d2) \<Rightarrow>
      (let o3 = o2 @ line (''TCP         ok    '' @ remote @ '' ('' @ ms_text d2 @ '')'') in
      (case (if u_scheme u = ''https'' then doctor_tls M D cfg host port
             else (line ''TLS         skipped (endpoint is plaintext http)'', None)) of
         (o4, Some e) \<Rightarrow> stop (o3 @ o4) (Some e) n
       | (o4, None) \<Rightarrow>
           (if \<not> sendOne
            then stop (o3 @ o4 @ line [] @ line (''No timestamp request was sent. Pass --send-one to send exactly one '' @
                   ''request, which consumes one unit of provider quota.'')) None n
            else (case doctor_send_one M D cfg n of
               None \<Rightarrow> None
             | Some ((o5, e), n') \<Rightarrow> stop (o3 @ o4 @ o5) e n'))))))))))))"

subsection \<open>mock\<close>

record mock_flags =
  mf_addr :: string
  mf_bindExternal :: bool
  mf_caOut :: string
  mf_latency :: duration
  mf_useRSA :: bool

definition mock_options :: "mock_flags \<Rightarrow> options" where
  "mock_options f = \<lparr>mo_fault = FaultNone, mo_latency = mf_latency f, mo_timeOffset = 0, mo_digestUser = [],
     mo_digestPass = [], mo_nonceLifetime = 0, mo_sessionBoundNonce = False, mo_singleUseNonce = False\<rparr>"

text \<open>\<^verbatim>\<open>os.WriteFile\<close>\<close>

definition os_write_file :: "os_env \<Rightarrow> string \<Rightarrow> bytes \<Rightarrow> io_error option \<times> out_file option" where
  "os_write_file E path data = write_json_file E Inr path data"

definition write_ca :: "os_env \<Rightarrow> string \<Rightarrow> bytes \<Rightarrow> exit_error option" where
  "write_ca E path pem =
     (if path = [] then None
      else (case os_mkdir E (path_dir path) of
         Some e \<Rightarrow> Some (fail 1 (''create CA directory: '' @ e))
       | None \<Rightarrow> map_option (\<lambda>e. fail 1 (''write CA: '' @ e)) (fst (os_write_file E path pem))))"

text \<open>How serving ends: the context is cancelled, or the server fails.\<close>

datatype serve_end = Cancelled | Serve_Failed string

text \<open>The outer \<open>None\<close> is the panic of a failing random source.\<close>

definition run_mock ::
    "world \<Rightarrow> os_env \<Rightarrow> 'k x509_lib \<Rightarrow> (nat \<Rightarrow> time \<times> time) \<Rightarrow> (string \<Rightarrow> string + string \<times> string) \<Rightarrow>
     (string \<Rightarrow> string + 'l) \<Rightarrow> serve_end \<Rightarrow> mock_flags \<Rightarrow>
     (exit_error + 'k leaf mock_server \<times> 'l \<times> exit_error option) option" where
  "run_mock w E X nows split_host_port listen ending f =
     map_option (\<lambda>made.
       and_then (map_error (fail 1) made) (\<lambda>(c, srv).
       (case write_ca E (mf_caOut f) (ca_pem c) of
          Some e \<Rightarrow> Inl e
        | None \<Rightarrow>
       and_then (map_error (fail 2) (listen_and_serve w split_host_port listen (mf_addr f) (mf_bindExternal f))) (\<lambda>l.
         Inr (srv, l, case ending of Cancelled \<Rightarrow> None | Serve_Failed e \<Rightarrow> Some (fail 1 (''mock server: '' @ e)))))))
       (new_mock X nows None (if mf_useRSA f then RSA2048 else ECDSAP256) (mock_options f))"

subsection \<open>main\<close>

text \<open>The commands as functions from their arguments to the error they end with.\<close>

record commands =
  cmd_validate :: "string list \<Rightarrow> command_error option"
  cmd_doctor :: "string list \<Rightarrow> command_error option"
  cmd_run :: "string list \<Rightarrow> command_error option"
  cmd_report :: "string list \<Rightarrow> command_error option"
  cmd_mock :: "string list \<Rightarrow> command_error option"

definition main_exit :: "commands \<Rightarrow> string list \<Rightarrow> int" where
  "main_exit C osArgs =
     (case osArgs of
        prog # c # args \<Rightarrow>
          (if c = ''validate'' then exit_code (cmd_validate C args)
           else if c = ''doctor'' then exit_code (cmd_doctor C args)
           else if c = ''run'' then exit_code (cmd_run C args)
           else if c = ''report'' then exit_code (cmd_report C args)
           else if c = ''mock'' then exit_code (cmd_mock C args)
           else if c = ''version'' \<or> c \<in> {''-h'', ''--help'', ''help''} then 0
           else 2)
      | _ \<Rightarrow> 2)"

end
