(* ===== verification/Commands_Properties.thy ===== *)
theory Commands_Properties
  imports Commands Command_Properties
begin

text \<open>
  The commands against each other and against the configuration they load: what a loaded configuration
  guarantees to the code that dereferences it, that \<^verbatim>\<open>validate\<close> predicts the gates of \<^verbatim>\<open>run\<close>, what
  \<^verbatim>\<open>doctor\<close> sends, how \<^verbatim>\<open>report\<close> reads its arguments, and where \<^verbatim>\<open>mock\<close> binds.
\<close>

subsection \<open>Loaded configurations\<close>

lemma apply_defaults_certReq: "rc_certReq (cf_request (apply_defaults c)) \<noteq> None"
  by (cases "rc_certReq (cf_request c)") (auto simp: apply_defaults_def Let_def)

lemma load_file_Inr:
  assumes "load_file w read decode path = Inr cfg" "\<And>xs. set (map_order w xs) = set xs"
  shows "config_ok w cfg \<and> rc_certReq (cf_request cfg) = Some True"
proof -
  obtain raw where p: "parse_config w decode raw = Inr cfg"
    using assms(1) by (auto simp: load_file_def split: sum.splits)
  from parse_config_Inr [OF p] obtain c where v: "validate w cfg = []" and c: "cfg = apply_defaults c" by blast
  have ok: "config_ok w cfg" using v validate_Nil [OF assms(2)] by simp
  then have "rc_certReq (cf_request cfg) \<noteq> Some False" by (simp add: config_ok_def request_ok_def)
  then show ?thesis using ok apply_defaults_certReq [of c] c by (cases "rc_certReq (cf_request cfg)") auto
qed



subsection \<open>validate and run\<close>

lemma budget_zero: "limits_ok (cf_limits c) \<Longrightarrow> budget c 0 = Inr b \<Longrightarrow> 0 < m \<Longrightarrow>
    budget c m = (if m \<le> b then Inr m else budget c m) \<and> (b < m \<longrightarrow> (\<exists>e. budget c m = Inl e))"
  by (auto simp: budget_def limits_ok_def Let_def)

lemma fits_smaller:
  "check_against_quota oob p b cap = None \<Longrightarrow> m \<le> b \<Longrightarrow> 0 < m \<Longrightarrow>
   check_against_quota oob p m cap = None \<longleftrightarrow> total_planned oob p \<le> m"
  by (auto simp: check_against_quota_def Let_def split: if_splits)

lemma check_inputs_Inr:
  assumes "check_inputs M vf = Inr (cfg, Some p)"
  shows "load_file (mc_world M) (mc_readFile M) (mc_decodeConfig M) (vf_cfgPath vf) = Inr cfg \<and>
    load_profile (mc_readFile M) (mc_decodeProfile M) (mc_oob M) (vf_profilePath vf) = Inr p \<and>
    limits_ok (cf_limits cfg) \<and>
    (\<exists>b. budget cfg 0 = Inr b \<and> check_against_quota (mc_oob M) p b (lm_hardCap (cf_limits cfg)) = None)"
proof -
  have l: "load_file (mc_world M) (mc_readFile M) (mc_decodeConfig M) (vf_cfgPath vf) = Inr cfg"
    and c: "check_profile M (vf_profilePath vf) cfg = Inr p"
    using assms by (auto simp: check_inputs_def and_then_Inr map_sum_Inr split: if_splits)
  obtain raw where "parse_config (mc_world M) (mc_decodeConfig M) raw = Inr cfg"
    using l by (auto simp: load_file_def split: sum.splits)
  then have "validate (mc_world M) cfg = []" using parse_config_Inr by blast
  then have "limits_ok (cf_limits cfg)" by (simp add: validate_def limits_Nil)
  then show ?thesis using l c by (auto simp: check_profile_def and_then_Inr split: option.splits)
qed

text \<open>C5: \<^verbatim>\<open>validate\<close> predicts \<^verbatim>\<open>run\<close>.  When \<^verbatim>\<open>validate\<close> has accepted a configuration and a
  profile, then \<^verbatim>\<open>run\<close> on the same files gets past its own checks of them exactly if a live target is
  acknowledged and the operator's bound lies between what the profile plans and the budget that
  \<^verbatim>\<open>validate\<close> has checked it against.\<close>

theorem validate_predicts_run:
  assumes "check_inputs M vf = Inr (cfg, Some p)" "budget cfg 0 = Inr b"
    and "rf_cfgPath f = vf_cfgPath vf" "rf_profilePath f = vf_profilePath vf" "0 < rf_maxRequests f"
  shows "(\<exists>cfg'. load_inputs M f = Inr (cfg', p)) \<longleftrightarrow>
    (pv_environment (cf_provider cfg) = EnvLive \<longrightarrow> rf_ackLive f) \<and>
    total_planned (mc_oob M) p \<le> rf_maxRequests f \<and> rf_maxRequests f \<le> b"
proof -
  note c = check_inputs_Inr [OF assms(1)]
  define cfg1 where "cfg1 = (if rf_outputDir f \<noteq> [] then cfg\<lparr>cf_output_directory := rf_outputDir f\<rparr> else cfg)"
  have bs': "budget (cfg\<lparr>cf_output_directory := d\<rparr>) m = budget cfg m" for d m by (simp add: budget_def)
  have q: "check_against_quota (mc_oob M) p b (lm_hardCap (cf_limits cfg)) = None" using c assms(2) by auto
  have z: "budget cfg (rf_maxRequests f) = (if rf_maxRequests f \<le> b then Inr (rf_maxRequests f) else budget cfg (rf_maxRequests f)) \<and>
      (b < rf_maxRequests f \<longrightarrow> (\<exists>e. budget cfg (rf_maxRequests f) = Inl e))"
    using budget_zero c assms(2,5) by blast
  note fits = fits_smaller [OF q _ assms(5)]
  have "load_inputs M f =
     (if pv_environment (cf_provider cfg) = EnvLive \<and> \<not> rf_ackLive f
      then Inl (fail 2 (''provider.environment is '' @ go_quote ''live'' @ '': pass --acknowledge-live-environment to confirm '' @
       ''you intend to send load to a production service shared with real customer traffic''))
      else and_then (map_error (fail 2) (budget cfg (rf_maxRequests f))) (\<lambda>b.
        (case check_against_quota (mc_oob M) p b (lm_hardCap (cf_limits cfg)) of
           Some e \<Rightarrow> Inl (fail 2 (mc_profileErrorText M e)) | None \<Rightarrow> Inr (cfg1, p))))"
    unfolding cfg1_def using c bs'
    by (cases "rf_outputDir f = []") (simp_all add: load_inputs_def assms(3,4) Let_def)
  then show ?thesis using z fits
    by (cases "rf_maxRequests f \<le> b") (auto simp: not_le split: option.splits)
qed


lemma smoke_reserve: "prf_reserve smoke_profile = 3"
  by (simp add: smoke_profile_def)

lemma demo_checked:
  "check_inputs demo_machine \<lparr>vf_cfgPath = ''c.yaml'', vf_profilePath = ''p.yaml'', vf_quiet = False\<rparr> =
     Inr (demo_config, Some smoke_profile)" (is ?checked)
  "budget demo_config 0 = Inr 50000" "total_planned (mc_oob demo_machine) smoke_profile = 5"
  "pv_environment (cf_provider demo_config) \<noteq> EnvLive"
proof -
  have lim: "lm_hardCap (cf_limits demo_config) = 50000" "lm_maxRequests (cf_limits demo_config) = 0"
    by (simp_all add: demo_config_def apply_defaults_def default_config_def DefaultHardCap_def)
  have p: "cf_provider demo_config = demo_provider"
    by (simp add: demo_config_def apply_defaults_def default_config_def DefaultHardCap_def)
  show "pv_environment (cf_provider demo_config) \<noteq> EnvLive" by (simp add: p demo_provider_def environments)
  show b: "budget demo_config 0 = Inr 50000" by (simp add: budget_def lim)
  show t: "total_planned (mc_oob demo_machine) smoke_profile = 5"
    by (simp add: total_planned_def smoke_profile_def planned_def)
  obtain cr where cr: "resolve_credentials demo_world demo_config = Inr cr"
    by (simp add: resolve_credentials_def p demo_provider_def auth_types get_env_def demo_world_def)
  have "load_profile (mc_readFile demo_machine) (mc_decodeProfile demo_machine) (mc_oob demo_machine) ''p.yaml'' = Inr smoke_profile"
    using validate_profile_None [THEN iffD2, OF smoke_ok, of "\<lambda>_. 0"] by (simp add: load_profile_def demo_machine_def)
  moreover have "check_against_quota (mc_oob demo_machine) smoke_profile 50000 (lm_hardCap (cf_limits demo_config)) = None"
    using t smoke_reserve by (simp add: check_against_quota_def lim Let_def)
  ultimately have "check_profile demo_machine ''p.yaml'' demo_config = Inr smoke_profile"
    by (simp add: check_profile_def b)
  then show ?checked
    using demo_load cr by (simp add: check_inputs_def demo_machine_def)
qed

theorem validate_predicts_run_witness:
  "(\<exists>cfg'. load_inputs demo_machine demo_flags = Inr (cfg', smoke_profile)) \<and>
   \<not> (\<exists>cfg'. load_inputs demo_machine (demo_flags\<lparr>rf_maxRequests := 4\<rparr>) = Inr (cfg', smoke_profile))"
  using validate_predicts_run [OF demo_checked(1,2), of demo_flags]
    validate_predicts_run [OF demo_checked(1,2), of "demo_flags\<lparr>rf_maxRequests := 4\<rparr>"] demo_checked(3,4)
  by (simp add: demo_flags_def)

subsection \<open>doctor\<close>

text \<open>What a call sent: requests that satisfy \<^verbatim>\<open>P\<close>, after what was sent before.\<close>

definition sends :: "(http_request \<Rightarrow> bool) \<Rightarrow> net \<Rightarrow> net \<Rightarrow> bool" where
  "sends P n n' \<longleftrightarrow> (\<exists>sent. net_log n' = net_log n @ sent \<and> list_all P sent)"

lemma sends_refl: "net_log n' = net_log n \<Longrightarrow> sends P n n'"
  by (simp add: sends_def)

lemma sends_one: "net_log n' = net_log n @ [q] \<Longrightarrow> P q \<Longrightarrow> sends P n n'"
  by (simp add: sends_def)

lemma sends_trans: "sends P n n' \<Longrightarrow> sends P n' n'' \<Longrightarrow> sends P n n''"
  by (auto simp: sends_def)

lemma draw_sends: "draw T traced a n = (r, a', n') \<Longrightarrow> sends (\<lambda>q. hq_body q = []) n n' \<and> a' = count_request a"
proof (cases "te_new_request T (at_endpoint a)")
  case (Inl e)
  assume "draw T traced a n = (r, a', n')"
  with Inl show ?thesis by (auto simp: draw_def draw_digest_challenge_def sends_refl)
next
  case (Inr uri)
  assume "draw T traced a n = (r, a', n')"
  from draw_log [OF this Inr] show ?thesis by (auto intro: sends_one)
qed

lemma prime_sends:
  assumes "prime T a n = (e, a', n')"
  shows "sends (\<lambda>q. hq_body q = []) n n'" and "at_endpoint a' = at_endpoint a"
    and "at_requests a' \<in> {at_requests a, s64 (at_requests a + 1)}"
proof -
  obtain r a1 n1 where d: "draw T False a n = (r, a1, n1)" by (cases "draw T False a n")
  note s = draw_sends [OF d]
  show "sends (\<lambda>q. hq_body q = []) n n'"
    using assms d s by (auto simp: prime_def sends_refl split: if_splits sum.splits prod.splits)
  show "at_endpoint a' = at_endpoint a"
    using assms d s by (auto simp: prime_def count_request_def split: if_splits sum.splits prod.splits)
  show "at_requests a' \<in> {at_requests a, s64 (at_requests a + 1)}"
    using assms d s by (auto simp: prime_def count_request_def split: if_splits sum.splits prod.splits)
qed

lemma build_post_sends:
  assumes "build_post T endpoint der a n = (r, a', n')" "te_new_request T (at_endpoint a) = Inr uri"
  shows "sends (\<lambda>q. hq_body q \<in> {[], der}) n n'"
  using build_post_effect [OF assms] by (auto intro: sends_refl sends_one split: if_splits)

lemma client_do_sends: "client_do T traced req n = (r, n') \<Longrightarrow> P req \<Longrightarrow> sends P n n'"
  using client_do_log by (blast intro: sends_one)

lemma post_sends:
  assumes post: "post_timestamp T endpoint der a n = (r, a', n')" and uri: "te_new_request T (at_endpoint a) = Inr uri"
  shows "sends (\<lambda>q. hq_body q \<in> {[], der}) n n'"
proof -
  obtain b a1 n1 where b: "build_post T endpoint der a n = (b, a1, n1)" by (cases "build_post T endpoint der a n")
  note bs = build_post_sends [OF b uri] and be = build_post_effect [OF b uri]
  show ?thesis
  proof (cases b)
    case (Inl e)
    then show ?thesis using post b bs by (simp add: post_timestamp_def)
  next
    case (Inr req)
    obtain r2 n2 where d: "client_do T True req n1 = (r2, n2)" by fastforce
    have s2: "sends (\<lambda>q. hq_body q \<in> {[], der}) n n2"
      using sends_trans [OF bs client_do_sends [OF d]] be Inr by simp
    show ?thesis
    proof (cases "n' = n2")
      case False
      then obtain resp a2 c a3 n3 where r2: "r2 = Inr resp" and rs: "retry_stale T resp a1 = ((True, None), a2)"
        and c: "build_post T endpoint der a2 n2 = (c, a3, n3)"
        and rest: "case c of Inl _ \<Rightarrow> n' = n3 | Inr req2 \<Rightarrow> \<exists>r. client_do T True req2 n3 = (r, n')"
        using post b Inr d by (auto simp: post_timestamp_def split: sum.splits prod.splits bool.splits option.splits)
      have uri2: "te_new_request T (at_endpoint a2) = Inr uri" using retry_stale_effect [OF rs] be uri by simp
      have s3: "sends (\<lambda>q. hq_body q \<in> {[], der}) n n3"
        by (rule sends_trans [OF s2 build_post_sends [OF c uri2]])
      show ?thesis
      proof (cases c)
        case (Inr req2)
        then show ?thesis using rest build_post_effect [OF c uri2] sends_trans [OF s3 client_do_sends] by fastforce
      qed (use s3 rest in simp)
    qed (use s2 in simp)
  qed
qed

lemma post_length:
  assumes post: "post_timestamp T endpoint der a n = (r, a', n')" and uri: "te_new_request T (at_endpoint a) = Inr uri"
  shows "length (net_log n') \<le> length (net_log n) + 2"
proof -
  obtain b a1 n1 where b: "build_post T endpoint der a n = (b, a1, n1)" by (cases "build_post T endpoint der a n")
  note be = build_post_effect [OF b uri]
  have l1: "length (net_log n1) \<le> length (net_log n) + (if per_request a then 1 else 0)"
    using be by (auto split: if_splits)
  show ?thesis
  proof (cases b)
    case (Inl e)
    then show ?thesis using post b l1 by (auto simp: post_timestamp_def split: if_splits)
  next
    case (Inr req)
    obtain r2 n2 where d: "client_do T True req n1 = (r2, n2)" by fastforce
    have l2: "length (net_log n2) = length (net_log n1) + 1" using client_do_log [OF d] by simp
    show ?thesis
    proof (cases "n' = n2")
      case False
      then obtain resp a2 c a3 n3 where rs: "retry_stale T resp a1 = ((True, None), a2)"
        and c: "build_post T endpoint der a2 n2 = (c, a3, n3)"
        and rest: "case c of Inl _ \<Rightarrow> n' = n3 | Inr req2 \<Rightarrow> \<exists>r. client_do T True req2 n3 = (r, n')"
        using post b Inr d by (auto simp: post_timestamp_def split: sum.splits prod.splits bool.splits option.splits)
      note re = retry_stale_effect [OF rs]
      have uri2: "te_new_request T (at_endpoint a2) = Inr uri" using re be uri by simp
      have "net_log n3 = net_log n2" using build_post_effect [OF c uri2] re by simp
      moreover have "length (net_log n') \<le> length (net_log n3) + 1"
        using rest client_do_log by (fastforce split: sum.splits)
      ultimately show ?thesis using l1 l2 re be by simp
    qed (use l1 l2 in \<open>simp split: if_splits\<close>)
  qed
qed

text \<open>The requests that carry a timestamp query: the others have no body.\<close>

definition posts :: "http_request list \<Rightarrow> http_request list" where
  "posts sent = filter (\<lambda>q. hq_body q \<noteq> []) sent"

lemma posts_blank: "list_all (\<lambda>q. hq_body q = []) sent \<Longrightarrow> posts (sent @ rest) = posts rest"
  by (induction sent) (auto simp: posts_def)

lemma posts_der: "list_all (\<lambda>q. hq_body q \<in> {[], der}) sent \<Longrightarrow> der \<noteq> [] \<Longrightarrow>
    posts sent = filter (\<lambda>q. hq_body q = der) sent"
  by (induction sent) (auto simp: posts_def)

lemma posts_both: "length (posts sent) = 2 \<Longrightarrow> length sent \<le> 2 \<Longrightarrow>
    \<exists>q q'. sent = [q, q'] \<and> length (posts [q]) = 1"
  by (cases sent; cases "tl sent") (auto simp: posts_def split: if_splits)

text \<open>What one timestamp sends after \<^verbatim>\<open>n\<close>: at most two queries, the second only after a 401 with a
  stale challenge to the first, and at least one when a reply came back.\<close>

definition spends :: "transport_env \<Rightarrow> net \<Rightarrow> bool \<Rightarrow> net \<Rightarrow> bool" where
  "spends T n answered n' \<longleftrightarrow> (\<exists>sent. net_log n' = net_log n @ sent \<and> length (posts sent) \<le> 2 \<and>
     (answered \<longrightarrow> posts sent \<noteq> []) \<and>
     (length (posts sent) = 2 \<longrightarrow> (\<exists>before after resp. sent = before @ after \<and> length (posts before) = 1 \<and>
        ex_result (te_server T (net_log n @ before)) = Inr resp \<and>
        hp_status resp = 401 \<and> is_stale_challenge 401 (hp_wwwAuthenticate resp))))"

lemma spends_none: "sends (\<lambda>q. hq_body q = []) n n' \<Longrightarrow> spends T n False n'"
  using posts_blank [of _ "[]"] by (auto simp: sends_def spends_def posts_def)

lemma spends_more: "spends T n True n' \<Longrightarrow> spends T n answered n'"
  by (auto simp: spends_def)

lemma post_spends:
  assumes post: "post_timestamp T (at_endpoint a) der a n = (r, a', n')" and der: "der \<noteq> []"
    and small: "0 \<le> at_requests a" "at_requests a < 2 ^ 62"
  shows "spends T n (\<exists>resp. r = Inr resp) n'"
proof (cases "te_new_request T (at_endpoint a)")
  case (Inl e)
  then show ?thesis using post by (auto simp: post_timestamp_def build_post_def spends_def posts_def)
next
  case (Inr uri)
  obtain sent where sent: "net_log n' = net_log n @ sent" "list_all (\<lambda>q. hq_body q \<in> {[], der}) sent"
    using post_sends [OF post Inr] by (auto simp: sends_def)
  have ok: "traffic_ok T der a n (r, a', n')" using post_traffic [OF Inr der small] post by metis
  let ?k = "length (posts sent)"
  have two: "?k \<le> 2" "?k = 0 \<longrightarrow> (\<exists>e. r = Inl e)"
    "?k = 2 \<longrightarrow> (\<exists>resp. ex_result (te_server T (net_log n @ [hd sent])) = Inr resp
             \<and> hp_status resp = 401 \<and> is_stale_challenge 401 (hp_wwwAuthenticate resp))"
    using ok sent(1) by (auto simp: traffic_ok_def Let_def posts_der [OF sent(2) der])
  have short: "length sent \<le> 2" using post_length [OF post Inr] sent(1) by simp
  have "\<exists>before after resp. sent = before @ after \<and> length (posts before) = 1 \<and>
        ex_result (te_server T (net_log n @ before)) = Inr resp \<and>
        hp_status resp = 401 \<and> is_stale_challenge 401 (hp_wwwAuthenticate resp)" if k: "?k = 2"
  proof -
    obtain q q' where "sent = [q] @ [q']" "length (posts [q]) = 1" using posts_both [OF k short] by auto
    moreover obtain resp where "ex_result (te_server T (net_log n @ [hd sent])) = Inr resp"
        "hp_status resp = 401" "is_stale_challenge 401 (hp_wwwAuthenticate resp)"
      using two(3) k by blast
    ultimately show ?thesis by (intro exI [of _ "[q]"] exI [of _ "[q']"] exI [of _ resp]) simp
  qed
  moreover have "(\<exists>resp. r = Inr resp) \<longrightarrow> posts sent \<noteq> []" using two(2) by auto
  ultimately show ?thesis using sent(1) two(1) unfolding spends_def by (intro exI [of _ sent]) simp
qed

lemma spends_after:
  assumes "sends (\<lambda>q. hq_body q = []) n n1" "spends T n1 answered n2"
  shows "spends T n answered n2"
proof -
  obtain s0 where s0: "net_log n1 = net_log n @ s0" "list_all (\<lambda>q. hq_body q = []) s0"
    using assms(1) by (auto simp: sends_def)
  obtain s where s: "net_log n2 = net_log n1 @ s" "length (posts s) \<le> 2" "answered \<longrightarrow> posts s \<noteq> []"
    and two: "length (posts s) = 2 \<longrightarrow> (\<exists>before after resp. s = before @ after \<and> length (posts before) = 1 \<and>
        ex_result (te_server T (net_log n1 @ before)) = Inr resp \<and>
        hp_status resp = 401 \<and> is_stale_challenge 401 (hp_wwwAuthenticate resp))"
    using assms(2) by (auto simp: spends_def)
  have p: "posts (s0 @ t) = posts t" for t by (rule posts_blank [OF s0(2)])
  have "\<exists>before after resp. s0 @ s = before @ after \<and> length (posts before) = 1 \<and>
        ex_result (te_server T (net_log n @ before)) = Inr resp \<and>
        hp_status resp = 401 \<and> is_stale_challenge 401 (hp_wwwAuthenticate resp)" if k: "length (posts s) = 2"
  proof -
    obtain before after resp where b: "s = before @ after" "length (posts before) = 1"
        "ex_result (te_server T (net_log n1 @ before)) = Inr resp"
        "hp_status resp = 401" "is_stale_challenge 401 (hp_wwwAuthenticate resp)"
      using two k by blast
    show ?thesis
      by (rule exI [of _ "s0 @ before"], rule exI [of _ after], rule exI [of _ resp]) (use b s0(1) p in simp)
  qed
  then show ?thesis using s s0(1) p unfolding spends_def by (intro exI [of _ "s0 @ s"]) simp
qed

lemma doctor_send_one_spends:
  assumes "doctor_send_one M D cfg n = Some ((out, e), n')"
    and create: "\<And>alg payload certReq nonce policy. de_create D alg payload certReq nonce policy \<noteq> Inr []"
  shows "spends (de_transport D) n (e = None) n'"
proof -
  let ?T = "de_transport D"
  have none: "spends ?T n False n" by (rule spends_none) (simp add: sends_refl)
  show ?thesis
  proof (cases "prepare_send M cfg")
    case (Inl e)
    then show ?thesis using assms(1) none by (auto simp: doctor_send_one_def)
  next
    case (Inr p)
    obtain v src b cr where p: "p = (v, src, b, cr)" by (metis prod.exhaust)
    note P = Inr [unfolded p]
    show ?thesis
    proof (cases "\<exists>req. build_request (de_hash D) (de_create D) b (de_payload D) (de_draws D) = Some (Inr req)")
      case False
      then show ?thesis using assms(1) P none
        by (auto simp: doctor_send_one_def Let_def split: option.splits sum.splits)
    next
      case True
      then obtain req where req: "build_request (de_hash D) (de_create D) b (de_payload D) (de_draws D) = Some (Inr req)" by blast
      have der: "rq_der req \<noteq> []"
        using req create by (auto simp: build_request_def Let_def split: sum.splits option.splits)
      obtain pe a n1 where pr: "prime ?T (new_authenticator cfg (Some cr)) n = (pe, a, n1)" by (metis prod.exhaust)
      note ps = prime_sends [OF pr]
      show ?thesis
      proof (cases pe)
        case (Some e')
        then show ?thesis using assms(1) P req pr spends_none [OF ps(1)]
          by (auto simp: doctor_send_one_def Let_def)
      next
        case None
        obtain r a2 n2 where po: "post_timestamp ?T (pv_endpoint (cf_provider cfg)) (rq_der req) a n1 = (r, a2, n2)"
          by (metis prod.exhaust)
        have ep: "at_endpoint a = pv_endpoint (cf_provider cfg)" using ps(2) by (simp add: new_authenticator_def)
        have small: "0 \<le> at_requests a" "at_requests a < 2 ^ 62" using ps(3) by (auto simp: new_authenticator_def)
        have sp: "spends ?T n (\<exists>resp. r = Inr resp) n2"
          by (rule spends_after [OF ps(1) post_spends [OF po [folded ep] der small]])
        show ?thesis
        proof (cases r)
          case (Inl x)
          then show ?thesis using assms(1) P req pr None po sp by (auto simp: doctor_send_one_def Let_def)
        next
          case r: (Inr resp)
          then have "spends ?T n True n2" using sp by simp
          then show ?thesis using assms(1) P req pr None po r spends_more
            by (auto simp: doctor_send_one_def Let_def)
        qed
      qed
    qed
  qed
qed

lemma run_doctor_end:
  assumes "run_doctor M D path sendOne n = Some (c, e, n')"
  shows "(n' = n \<and> (sendOne \<longrightarrow> e \<noteq> None)) \<or>
    (sendOne \<and> (\<exists>cfg out. doctor_send_one M D cfg n = Some ((out, e), n')))"
  using assms
  by (auto simp: run_doctor_def Let_def split: if_splits sum.splits option.splits prod.splits)

text \<open>C11: what \<^verbatim>\<open>doctor\<close> spends.  Without \<^verbatim>\<open>--send-one\<close> it sends no HTTP request at all, whatever it
  finds.  With it, it sends at most two timestamp queries, the second only after the server answered the
  first with 401 and a stale challenge, every other request (the drawing of challenges) carries no query,
  and the command succeeds only when a query was sent.  (A query the library encodes is not empty.)\<close>

theorem doctor_spends:
  assumes "run_doctor M D path sendOne n = Some (c, e, n')"
    and "\<And>alg payload certReq nonce policy. de_create D alg payload certReq nonce policy \<noteq> Inr []"
  shows "\<exists>sent. net_log n' = net_log n @ sent \<and> (\<not> sendOne \<longrightarrow> sent = []) \<and>
    length (posts sent) \<le> 2 \<and> (sendOne \<and> e = None \<longrightarrow> posts sent \<noteq> []) \<and>
    (length (posts sent) = 2 \<longrightarrow> (\<exists>before after resp. sent = before @ after \<and> length (posts before) = 1 \<and>
        ex_result (te_server (de_transport D) (net_log n @ before)) = Inr resp \<and>
        hp_status resp = 401 \<and> is_stale_challenge 401 (hp_wwwAuthenticate resp)))"
proof (cases "n' = n \<and> (sendOne \<longrightarrow> e \<noteq> None)")
  case True
  then show ?thesis by (intro exI [of _ "[]"]) (auto simp: posts_def)
next
  case False
  then obtain cfg out where one: "sendOne" "doctor_send_one M D cfg n = Some ((out, e), n')"
    using run_doctor_end [OF assms(1)] by blast
  show ?thesis using doctor_send_one_spends [OF one(2) assms(2)] one(1) by (auto simp: spends_def)
qed

text \<open>A reachable service whose reply breaks off while it is read.\<close>

definition demo_doctor :: doctor_env where
  "demo_doctor = \<lparr>de_lookup = (\<lambda>_. (Inr [''192.0.2.1''], 0)), de_dial = (\<lambda>_. (Inr ''192.0.2.1:443'', 0)),
     de_handshake = (\<lambda>_ _. (Inr \<lparr>tl_version = 772, tl_cipherSuite = ''TLS_AES_128_GCM_SHA256'', tl_peers = []\<rparr>, 0)),
     de_now = unix_epoch, de_transport = demo_transport\<lparr>te_server := (\<lambda>_. \<lparr>ex_written = True,
       ex_result = Inr \<lparr>hp_status = 200, hp_wwwAuthenticate = [], hp_cookies = [], hp_contentType = [], hp_body = [],
         hp_readError = Some (plain_error ''unexpected EOF'')\<rparr>\<rparr>)\<rparr>,
     de_tsp = demo_tsp_lib, de_hash = (\<lambda>_ _. []), de_create = (\<lambda>_ _ _ _ _. Inr ''query''), de_payload = Inr [],
     de_draws = [Inr 1], de_sentAt = unix_epoch, de_receivedAt = unix_epoch\<rparr>"

lemma demo_prepare_send: "\<exists>v src b cr. prepare_send demo_machine demo_config = Inr (v, src, b, cr)"
proof -
  have cfg: "cf_tls demo_config = (cf_tls default_config)\<lparr>tc_minVersion := ''1.2''\<rparr>"
    "cf_request demo_config = (cf_request default_config)\<lparr>rc_certReq := Some True\<rparr>" "cf_provider demo_config = demo_provider"
    by (simp_all add: demo_config_def apply_defaults_def default_config_def DefaultHardCap_def)
  obtain v where v: "new_verifier (Some []) (rc_maxClockSkew (cf_request demo_config)) (rc_requireESS (cf_request demo_config)) = Inr v"
    by (simp add: new_verifier_def cfg default_config_def duration_defs)
  obtain b where b: "new_builder (builder_options_of demo_config) = Inr b"
    by (simp add: new_builder_def builder_options_of_def cfg default_config_def hash_by_name_def to_lower_def to_lower_char_def
        trim_space_def is_space_def)
  obtain t where t: "tls_config_of (\<lambda>_. Inr []) (\<lambda>_. None) (\<lambda>_ _. Inl []) demo_config = Inr t"
    by (simp add: tls_config_of_def min_tls_version_def load_cert_pool_def cfg default_config_def)
  obtain cr where cr: "resolve_credentials demo_world demo_config = Inr cr"
    by (simp add: resolve_credentials_def cfg demo_provider_def auth_types get_env_def demo_world_def)
  have roots: "tsa_roots (\<lambda>_. Inr []) (\<lambda>_. None) (Inr []) demo_config = Inr (Some [], ''system'')"
    by (simp add: tsa_roots_def cfg default_config_def)
  show ?thesis by (simp add: prepare_send_def demo_machine_def roots v b t cr)
qed

lemma demo_send_one: "\<exists>out e n'. doctor_send_one demo_machine demo_doctor demo_config n = Some ((out, e), n')"
proof -
  obtain v src b cr where p: "prepare_send demo_machine demo_config = Inr (v, src, b, cr)" using demo_prepare_send by blast
  obtain req where r: "build_request (de_hash demo_doctor) (de_create demo_doctor) b (de_payload demo_doctor) (de_draws demo_doctor) = Some (Inr req)"
    by (simp add: build_request_def demo_doctor_def new_nonce.simps)
  obtain pe a n1 where pr: "prime (de_transport demo_doctor) (new_authenticator demo_config (Some cr)) n = (pe, a, n1)"
    by (metis prod.exhaust)
  have read: "client_do (de_transport demo_doctor) True q m = (x, m') \<Longrightarrow>
      x = Inr \<lparr>hp_status = 200, hp_wwwAuthenticate = [], hp_cookies = [], hp_contentType = [], hp_body = [],
         hp_readError = Some (plain_error ''unexpected EOF'')\<rparr>" for q m m' x
    by (auto simp: client_do_def demo_doctor_def)
  obtain x a2 n2 where po: "post_timestamp (de_transport demo_doctor) (pv_endpoint (cf_provider demo_config)) (rq_der req) a n1 = (x, a2, n2)"
    by (metis prod.exhaust)
  have "\<exists>e. hp_readError resp = Some e" if "x = Inr resp" for resp
    using po that
    by (auto simp: post_timestamp_def dest!: read split: sum.splits prod.splits bool.splits option.splits)
  then show ?thesis using p r pr po
    by (cases pe; cases x) (auto simp: doctor_send_one_def Let_def judge_response_def)
qed

lemma demo_doctor_runs: "\<exists>c e n'. run_doctor demo_machine demo_doctor ''c.yaml'' True n = Some (c, e, n')"
proof -
  obtain out e n' where s: "doctor_send_one demo_machine demo_doctor demo_config n = Some ((out, e), n')"
    using demo_send_one by blast
  show ?thesis
    using demo_load s by (auto simp: run_doctor_def demo_machine_def Let_def split: prod.splits option.splits sum.splits)
qed

theorem doctor_spends_witness:
  "\<exists>c e n' sent. run_doctor demo_machine demo_doctor ''c.yaml'' True \<lparr>net_log = [], net_wrote = False\<rparr> = Some (c, e, n') \<and>
     net_log n' = sent \<and> length (posts sent) \<le> 2"
proof -
  let ?n = "\<lparr>net_log = [], net_wrote = False\<rparr>"
  obtain c e n' where r: "run_doctor demo_machine demo_doctor ''c.yaml'' True ?n = Some (c, e, n')"
    using demo_doctor_runs by blast
  have "de_create demo_doctor alg payload certReq nonce policy \<noteq> Inr []" for alg payload certReq nonce policy
    by (simp add: demo_doctor_def)
  from doctor_spends [OF r this] r show ?thesis by auto
qed

subsection \<open>mock and report\<close>

text \<open>The responder listens on a loopback address unless the operator asked for more, without faults and
  without authentication.\<close>

lemma mock_stays_local:
  assumes "run_mock w E X nows split_host_port listen ending f = Some (Inr (srv, l, e))"
  shows "\<exists>host port. split_host_port (mf_addr f) = Inr (host, port) \<and> listen (mf_addr f) = Inr l \<and>
    (mf_bindExternal f \<or> is_loopback_host w host) \<and> ms_fault srv = FaultNone \<and> mo_digestUser (ms_opts srv) = []"
proof -
  obtain c where c: "new_mock X nows None (if mf_useRSA f then RSA2048 else ECDSAP256) (mock_options f) = Some (Inr (c, srv))"
      "listen_and_serve w split_host_port listen (mf_addr f) (mf_bindExternal f) = Inr l"
    using assms
    by (auto simp: run_mock_def and_then_Inr map_error_Inr split: option.splits prod.splits)
  then have "ms_opts srv = mock_options f \<and> ms_fault srv = mo_fault (mock_options f)"
    by (auto simp: new_mock_def split: option.splits sum.splits)
  then show ?thesis using c(2)
    by (auto simp: listen_and_serve_def mock_options_def split: sum.splits if_splits)
qed

text \<open>Partitioning the arguments of \<^verbatim>\<open>report\<close> loses none of them and reorders none on either side, except
  for the separator.\<close>

definition parted :: "string list \<Rightarrow> string list \<Rightarrow> string list \<Rightarrow> bool" where
  "parted args flags positional \<longleftrightarrow> args \<in> shuffles flags positional \<or>
     (\<exists>pre early rest. args = pre @ ''--'' # rest \<and> positional = early @ rest \<and> pre \<in> shuffles flags early)"

lemma parted_flag: "parted args flags positional \<Longrightarrow> parted (a # args) (a # flags) positional"
  unfolding parted_def by (metis Cons_in_shuffles_leftI append_Cons)

lemma parted_positional: "parted args flags positional \<Longrightarrow> parted (a # args) flags (a # positional)"
  unfolding parted_def by (metis Cons_in_shuffles_rightI append_Cons)

lemma partition_args_parted:
  "partition_args vf args = (flags, positional) \<Longrightarrow> parted args flags positional"
proof (induction vf args arbitrary: flags positional rule: partition_args.induct)
  case (1 vf)
  then show ?case by (simp add: parted_def)
next
  case (2 vf a args)
  show ?case
  proof (cases "a = ''--''")
    case True
    then have "a # args = [] @ ''--'' # args \<and> positional = [] @ args \<and> [] \<in> shuffles flags []"
      using "2.prems" by simp
    then show ?thesis unfolding parted_def by blast
  next
    case sep: False
    show ?thesis
    proof (cases "\<not> has_prefix a ''-'' \<or> a = ''-''")
      case True
      then obtain p where "partition_args vf args = (flags, p)" "positional = a # p"
        using "2.prems" sep by (auto split: prod.splits)
      then show ?thesis using "2.IH"(1) sep True parted_positional by simp
    next
      case dash: False
      show ?thesis
      proof (cases "CHR ''='' \<in> set (flag_name a) \<or> \<not> vf (flag_name a)")
        case True
        then obtain fs where "partition_args vf args = (fs, positional)" "flags = a # fs"
          using "2.prems" sep dash by (auto split: prod.splits)
        then show ?thesis using "2.IH"(2) sep dash True parted_flag by simp
      next
        case val: False
        show ?thesis
        proof (cases args)
          case Nil
          then show ?thesis using "2.prems" sep dash val by (auto simp: parted_def)
        next
          case (Cons v rest)
          then obtain fs where f: "partition_args vf rest = (fs, positional)" "flags = a # v # fs"
            using "2.prems" sep dash val by (auto split: prod.splits)
          have "parted rest fs positional" by (rule "2.IH"(3) [OF sep dash val Cons f(1)])
          then show ?thesis using f(2) Cons parted_flag by simp
        qed
      qed
    qed
  qed
qed

end
