(* ===== verification/Mock_Properties.thy ===== *)
theory Mock_Properties
  imports Mock Digest_State
begin

text \<open>
  The responder and the client together.  The nonces of the responder under any interleaving of its
  handlers, and one exchange of the client of \<^verbatim>\<open>internal/transport\<close> with the responder as its server.
\<close>

subsection \<open>Single-use nonces under concurrency\<close>

text \<open>The steps of \<open>authorised_single_use\<close> on the shared state, of any number of handlers: a valid request
  spends a nonce or fails to, a challenge issues one, a rejection reads the shared one.  The second
  component lists what was spent.\<close>

type_synonym single_use_state = "digest_auth \<times> (string \<times> string) list"

inductive single_use_step :: "'k mock_env \<Rightarrow> options \<Rightarrow> single_use_state \<Rightarrow> single_use_state \<Rightarrow> bool" for E o' where
  spend: "single_use_verdict (me_digest E) o' req p = Spend c n \<Longrightarrow> consume c n d = (ok, d') \<Longrightarrow>
    single_use_step E o' (d, gs) (d', if ok then gs @ [(c, n)] else gs)"
| challenge: "issue (me_rand E) d = (sess, n, d') \<Longrightarrow> single_use_step E o' (d, gs) (d', gs)"
| reject: "current_nonce (me_rand E) d = (n, d') \<Longrightarrow> single_use_step E o' (d, gs) (d', gs)"

inductive single_use_reach :: "'k mock_env \<Rightarrow> options \<Rightarrow> single_use_state \<Rightarrow> single_use_state \<Rightarrow> bool" for E o' where
  start: "single_use_reach E o' st st"
| step: "single_use_reach E o' st0 st \<Longrightarrow> single_use_step E o' st st' \<Longrightarrow> single_use_reach E o' st0 st'"

lemma reach_one: "single_use_step E o' st st' \<Longrightarrow> single_use_reach E o' st st'"
  by (rule single_use_reach.step [OF single_use_reach.start])

text \<open>What the sessions hold, and what was spent, are pairs of consecutive draws; no draw is in both.\<close>

definition drawn :: "(nat \<Rightarrow> bytes option) \<Rightarrow> nat \<Rightarrow> string \<times> string \<Rightarrow> bool" where
  "drawn R k g \<longleftrightarrow> (\<exists>i. Suc i < k \<and> g = (random_nonce R i, random_nonce R (Suc i)))"

definition nonce_inv :: "(nat \<Rightarrow> bytes option) \<Rightarrow> single_use_state \<Rightarrow> bool" where
  "nonce_inv R st \<longleftrightarrow> (case st of (d, gs) \<Rightarrow>
     (\<forall>c n. da_sessions d c = Some n \<longrightarrow> drawn R (da_draws d) (c, n) \<and> (c, n) \<notin> set gs) \<and>
     (\<forall>g \<in> set gs. drawn R (da_draws d) g) \<and> distinct gs)"

lemma drawn_mono: "drawn R k g \<Longrightarrow> k \<le> k' \<Longrightarrow> drawn R k' g"
  by (auto simp: drawn_def intro: less_le_trans)

lemma drawn_fresh: "inj (random_nonce R) \<Longrightarrow> drawn R k (c, n) \<Longrightarrow> c \<noteq> random_nonce R k"
  by (auto simp: drawn_def dest: injD)

lemma drawn_issued: "drawn R (Suc (Suc k)) (random_nonce R k, random_nonce R (Suc k))"
  by (auto simp: drawn_def)

lemma nonce_inv_step:
  assumes "single_use_step E o' st st'" "inj (random_nonce (me_rand E))" "nonce_inv (me_rand E) st"
  shows "nonce_inv (me_rand E) st'"
  using assms(1)
proof cases
  case (spend req p c n d ok d' gs)
  then show ?thesis using assms(3)
    by (auto simp: nonce_inv_def consume_def split: option.splits if_splits)
next
  case (challenge d sess n d' gs)
  let ?R = "me_rand E"
  have d': "d' = d\<lparr>da_sessions := (da_sessions d)(sess \<mapsto> n), da_draws := Suc (Suc (da_draws d))\<rparr>"
    and s: "sess = random_nonce ?R (da_draws d)" "n = random_nonce ?R (Suc (da_draws d))"
    using challenge(3) by (auto simp: issue_def Let_def)
  have new: "drawn ?R (Suc (Suc (da_draws d))) (sess, n)" unfolding s by (rule drawn_issued)
  have fresh: "(sess, m) \<notin> set gs" for m
    using assms(3) challenge(1) drawn_fresh [OF assms(2), of "da_draws d" sess m] s(1)
    by (auto simp: nonce_inv_def)
  have up: "drawn ?R (da_draws d) g \<Longrightarrow> drawn ?R (Suc (Suc (da_draws d))) g" for g
    by (erule drawn_mono) simp
  show ?thesis
    using assms(3) challenge(1,2) d' new fresh up by (auto simp: nonce_inv_def)
next
  case (reject d n d' gs)
  then have "da_sessions d' = da_sessions d" "da_draws d \<le> da_draws d'"
    by (auto simp: current_nonce_def Let_def split: if_splits)
  then show ?thesis using assms(3) reject(1,2) drawn_mono by (fastforce simp: nonce_inv_def)
qed

lemma nonce_inv_reach:
  "single_use_reach E o' st0 st \<Longrightarrow> inj (random_nonce (me_rand E)) \<Longrightarrow> nonce_inv (me_rand E) st0 \<Longrightarrow>
   nonce_inv (me_rand E) st"
  by (induction rule: single_use_reach.induct) (auto intro: nonce_inv_step)

text \<open>A whole handler is such a sequence of steps, and lets a request pass exactly by spending.\<close>

lemma authorised_single_use_steps:
  assumes "mo_singleUseNonce o'" "authorised_single_use E o' req p d = (r, d')"
  shows "\<exists>gs'. single_use_reach E o' (d, gs) (d', gs @ gs') \<and>
    (case r of None \<Rightarrow> \<exists>c. cookies_named session_cookie req = [c] \<and> gs' = [(c, map_get p ''nonce'')]
     | Some rep \<Rightarrow> gs' = [] \<and> hp_status rep = 401)"
proof -
  have ch: "\<exists>rep. refused (challenge_client E o' False d0) = (Some rep, d1) \<and> hp_status rep = 401 \<and>
      single_use_step E o' (d0, gs) (d1, gs)"
    if "d1 = snd (refused (challenge_client E o' False d0))" for d0 d1
    using that assms(1) single_use_step.challenge [of E d0 _ _ _ o' gs]
    by (auto simp: challenge_client_def draw_nonce_def refused_def http_error_def split: prod.splits)
  show ?thesis
  proof (cases "single_use_verdict (me_digest E) o' req p")
    case Challenge_It
    then show ?thesis using assms(2) ch [of d' d] reach_one
      by (intro exI [of _ "[]"]) (auto simp: authorised_single_use_def)
  next
    case Reject_It
    obtain n d1 where c: "current_nonce (me_rand E) d = (n, d1)" by fastforce
    show ?thesis using assms(2) Reject_It c reach_one [OF single_use_step.reject [OF c, of o' gs]]
      by (intro exI [of _ "[]"]) (auto simp: authorised_single_use_def refused_def reject_def http_error_def)
  next
    case (Spend c n)
    obtain ok d1 where k: "consume c n d = (ok, d1)" by fastforce
    note sp = reach_one [OF single_use_step.spend [OF Spend k, of gs]]
    have c: "cookies_named session_cookie req = [c]" "n = map_get p ''nonce''"
      using Spend by (auto simp: single_use_verdict_def split: list.splits if_splits)
    show ?thesis
    proof (cases ok)
      case True
      then show ?thesis using assms(2) Spend k sp c
        by (intro exI [of _ "[(c, n)]"]) (auto simp: authorised_single_use_def)
    next
      case False
      then show ?thesis using assms(2) Spend k sp ch [of d' d1] single_use_reach.step
        by (intro exI [of _ "[]"]) (fastforce simp: authorised_single_use_def)
    qed
  qed
qed

text \<open>A response that does not match is answered with the shared nonce and no cookie, in this mode
  too: the offered nonce belongs to no session, so no answer to it can pass.\<close>

lemma rejection_offers_no_session:
  assumes "single_use_verdict (me_digest E) o' req p = Reject_It"
    "authorised_single_use E o' req p new_digest_auth = (r, d')"
  shows "\<exists>rep. r = Some rep \<and> hp_wwwAuthenticate rep = challenge_header (da_nonce d') \<and> hp_cookies rep = [] \<and>
    (\<forall>c n. \<not> fst (consume c n d'))"
  using assms
  by (auto simp: authorised_single_use_def refused_def reject_def current_nonce_def http_error_def
      new_digest_auth_def consume_def Let_def)



text \<open>One session is opened and its nonce spent.\<close>

definition demo_mock_env :: "bytes mock_env" where
  "demo_mock_env = \<lparr>me_digest = \<lparr>dl_md5 = (\<lambda>_. []), dl_sha256 = (\<lambda>_. [])\<rparr>,
     me_rand = (\<lambda>i. Some (replicate i CHR ''a'')),
     me_lib = \<lparr>tl_parseRequest = (\<lambda>b. Inr \<lparr>tq_hashAlgorithm = SHA256, tq_hashedMessage = b, tq_nonce = None, tq_policy = None\<rparr>),
       tl_rejection = (\<lambda>_. Inr ''rejected''), tl_createResponse = (\<lambda>k t. Inr (k @ ta_hashedMessage t))\<rparr>\<rparr>"

definition demo_options :: options where
  "demo_options = \<lparr>mo_fault = FaultNone, mo_latency = 0, mo_timeOffset = 0, mo_digestUser = ''user'',
     mo_digestPass = ''secret'', mo_nonceLifetime = 0, mo_sessionBoundNonce = False, mo_singleUseNonce = True\<rparr>"

lemma length_hex_encode: "length (hex_encode b) = 2 * length b"
  by (induction b) (simp_all add: hex_encode_def)

lemma demo_draws_inj: "inj (random_nonce (me_rand demo_mock_env))"
proof (rule injI)
  fix i j assume "random_nonce (me_rand demo_mock_env) i = random_nonce (me_rand demo_mock_env) j"
  then have "length (random_nonce (me_rand demo_mock_env) i) = length (random_nonce (me_rand demo_mock_env) j)" by simp
  then show "i = j" by (simp add: random_nonce_def demo_mock_env_def length_hex_encode)
qed


subsection \<open>The client meets the responder\<close>

text \<open>The responder as the server of the transport: the state after the requests of a reqs, and what
  happens to the newest.  A handler that panics closes the connection.\<close>

definition mock_after :: "'k mock_env \<Rightarrow> (nat \<Rightarrow> time) \<Rightarrow> 'k mock_server \<Rightarrow> http_request list \<Rightarrow> 'k mock_server" where
  "mock_after E now S reqs = snd (foldl (\<lambda>(i, s) req. (Suc i, snd (serve E (now i) False req s))) (0, S) reqs)"

definition mock_exchange :: "'k mock_env \<Rightarrow> (nat \<Rightarrow> time) \<Rightarrow> 'k mock_server \<Rightarrow> http_request list \<Rightarrow> exchange" where
  "mock_exchange E now S reqs =
     \<lparr>ex_written = True,
      ex_result = (case fst (serve E (now (length reqs - 1)) False (last reqs) (mock_after E now S (butlast reqs))) of
        None \<Rightarrow> Inl (plain_error ''EOF'') | Some rep \<Rightarrow> Inr (http_reply.truncate rep))\<rparr>"

lemma mock_after_index:
  "fst (foldl (\<lambda>(i, s) req. (Suc i, snd (serve E (now i) False req s))) (0, S) reqs) = length reqs"
  by (induction reqs rule: rev_induct) (simp_all add: split_beta)

lemma mock_after_snoc:
  "mock_after E now S (reqs @ [q]) = snd (serve E (now (length reqs)) False q (mock_after E now S reqs))"
  by (simp add: mock_after_def split_beta mock_after_index)

lemma serve_frame:
  "ms_opts (snd (serve E t g q s)) = ms_opts s \<and> ms_signer (snd (serve E t g q s)) = ms_signer s \<and>
   ms_fault (snd (serve E t g q s)) = ms_fault s"
  by (auto simp: serve_def Let_def split: prod.split option.split)

lemma mock_after_frame:
  "ms_opts (mock_after E now S reqs) = ms_opts S \<and> ms_signer (mock_after E now S reqs) = ms_signer S \<and>
   ms_fault (mock_after E now S reqs) = ms_fault S"
  by (induction reqs rule: rev_induct) (simp_all add: mock_after_snoc serve_frame, simp_all add: mock_after_def)

text \<open>Drawn nonces are plain, so the challenge and the cookie are read as they were meant.\<close>

definition nonce_char :: "char \<Rightarrow> bool" where
  "nonce_char c \<longleftrightarrow> byte c = 45 \<or> 48 \<le> byte c \<and> byte c \<le> 57 \<or> 97 \<le> byte c \<and> byte c \<le> 122"

lemma nonce_char_facts:
  assumes "nonce_char c"
  shows "byte c < 128" "cookie_byte c" "\<not> ascii_space c" "c \<noteq> CHR 0x22" "c \<noteq> CHR 0x5C" "c \<noteq> CHR '';''"
proof -
  have b: "c = CHR 0x22 \<Longrightarrow> byte c = 34" "c = CHR 0x5C \<Longrightarrow> byte c = 92" "c = CHR '';'' \<Longrightarrow> byte c = 59"
    "ascii_space c \<Longrightarrow> byte c \<in> {9, 10, 13, 32}"
    by (auto simp: byte_def ascii_space_def)
  show "byte c < 128" "\<not> ascii_space c" "c \<noteq> CHR 0x22" "c \<noteq> CHR 0x5C" "c \<noteq> CHR '';''"
    using assms b by (auto simp: nonce_char_def)
  then show "cookie_byte c" using assms by (auto simp: cookie_byte_def nonce_char_def)
qed

lemma nonce_text:
  assumes "list_all nonce_char v"
  shows "CHR 0x22 \<notin> set v" "CHR 0x5C \<notin> set v" "CHR '';'' \<notin> set v" "list_all cookie_byte v" "ascii v"
proof -
  have v: "\<forall>c \<in> set v. nonce_char c" using assms by (simp add: list_all_iff)
  have out: "x \<notin> set v" if "\<And>c. nonce_char c \<Longrightarrow> c \<noteq> x" for x using v that by blast
  show "CHR 0x22 \<notin> set v" by (rule out [OF nonce_char_facts(4)])
  show "CHR 0x5C \<notin> set v" by (rule out [OF nonce_char_facts(5)])
  show "CHR '';'' \<notin> set v" by (rule out [OF nonce_char_facts(6)])
  show "list_all cookie_byte v" "ascii v" using v nonce_char_facts(1,2) by (simp_all add: list_all_iff ascii_def)
qed

lemma random_nonce_plain: "list_all nonce_char (random_nonce R i)"
proof -
  have "nonce_char (Digest.hex_digit d)" if "d < 16" for d
    using Digest.hex_digit_byte [OF that] that by (auto simp: nonce_char_def)
  moreover have "of_char c div 16 < (16 :: nat)" "of_char c mod 16 < (16 :: nat)" for c :: char
    using byte_range(2) [of c] by (simp_all add: byte_def less_mult_imp_div_less)
  moreover have "list_all nonce_char ''static-nonce''" by (simp add: nonce_char_def byte_def)
  ultimately show ?thesis by (auto simp: random_nonce_def Digest.hex_encode_def list_all_iff split: option.split)
qed


lemma map_to_lower: "to_lower (s @ t) = to_lower s @ to_lower t"
  by (simp add: to_lower_def)

lemma plain_quote:
  assumes "CHR 0x22 \<notin> set s" "CHR 0x5C \<notin> set s"
  shows "quote_digest s = go_quote s"
proof -
  have "concat (map quote_byte s) = s"
    using assms by (induction s) (auto simp: quote_byte_def)
  then show ?thesis by (simp add: quote_digest_def go_quote_def)
qed

lemma challenge_parsed:
  assumes "list_all nonce_char n"
  shows "parse_challenge (challenge_header n) =
    Inr \<lparr>ch_realm = digest_realm, ch_nonce = n, ch_opaque = [], ch_qop = ''auth'', ch_algorithm = []\<rparr>"
proof -
  let ?f = "(''realm'', quote_digest digest_realm, digest_realm)"
  let ?fs = "[(''qop'', quote_digest ''auth'', ''auth''), (''nonce'', quote_digest n, n)]"
  have n: "CHR 0x22 \<notin> set n" "CHR 0x5C \<notin> set n" "ascii n"
    by (rule nonce_text [OF assms])+
  have q: "quote_digest digest_realm = go_quote digest_realm" "quote_digest ''auth'' = go_quote ''auth''"
    by code_simp+
  have h: "challenge_header n = ''Digest'' @ join '','' (map (\<lambda>f. '' '' @ part f) (?f # ?fs))"
    using plain_quote [OF n(1,2)] by (simp add: challenge_header_def part_def q)
  have k: "list_all token_key [''realm'', ''qop'', ''nonce'']" by code_simp
  have a: "ascii digest_realm" "ascii ''auth''" by (simp_all add: digest_realm_def byte_def)
  have "parse_digest_challenge (challenge_header n) = Inr (map_of (map (\<lambda>(k, raw, v). (k, v)) (?f # ?fs)))"
    unfolding h using k reads_quote a n(3) by (intro parse_parts) (simp_all add: field_ok_def ascii_quote)
  moreover have "has_suffix (to_upper []) ''-SESS'' = False" "to_upper [] = []"
    "list_ex (\<lambda>v. trim_space v = ''auth'') (split_on CHR '','' ''auth'')" by code_simp+
  ultimately show ?thesis by (simp add: parse_challenge_def map_get_def Let_def)
qed

lemma split_on_none: "c \<notin> set s \<Longrightarrow> split_on c s = [s]"
  by (induction s) auto

lemma trim_ascii_id: "s \<noteq> [] \<Longrightarrow> \<not> ascii_space (hd s) \<Longrightarrow> \<not> ascii_space (last s) \<Longrightarrow> trim_ascii s = s"
  by (simp add: trim_ascii_def dropWhile_eq_self_iff [THEN iffD2] hd_rev)

text \<open>The session cookie comes back as the one value of its name.\<close>

lemma session_cookie_read:
  assumes "list_all nonce_char v" "hq_header req ''Cookie'' = Some (join_cookies [(session_cookie, v)])"
  shows "cookies_named session_cookie req = [v]"
proof -
  let ?line = "session_cookie @ CHR ''='' # v"
  have line: "join_cookies [(session_cookie, v)] = ?line" by (simp add: join_cookies_def)
  have nc: "CHR '';'' \<notin> set v" "list_all cookie_byte v" "CHR 0x22 \<notin> set v"
    by (rule nonce_text [OF assms(1)])+
  have sc: "CHR '';'' \<notin> set session_cookie" "CHR ''='' \<notin> set session_cookie" "trim_ascii session_cookie = session_cookie"
    by code_simp+
  have sp: "\<not> ascii_space (last v)" if "v \<noteq> []"
    using assms(1) that nonce_char_facts(3) by (auto simp: list_all_iff)
  have t: "trim_ascii ?line = ?line"
    using sp by (intro trim_ascii_id) (auto simp: session_cookie_def ascii_space_def)
  have "split_on CHR '';'' ?line = [?line]" using sc(1) nc(1) by (intro split_on_none) auto
  moreover have "read_cookie session_cookie ?line = Some v"
  proof -
    have "cookie_value v = Some v" using nc by (cases v) (auto simp: cookie_value_def)
    then show ?thesis using index_of_single [OF sc(2), of v] t sc(3) by (simp add: read_cookie_def)
  qed
  ultimately show ?thesis using assms(2) line t by (simp add: cookies_named_def List.map_filter_def)
qed

subsection \<open>One exchange\<close>

lemma hash_default: "digest_hash L [] s = digest_hash L ''MD5'' s"
proof -
  have "equal_fold (trim_suffix [] ''-sess'') ''SHA-256'' = equal_fold (trim_suffix ''MD5'' ''-sess'') ''SHA-256''" by code_simp
  then show ?thesis by (simp only: digest_hash_def)
qed

lemma hex08_one: "hex08 1 = ''00000001''"
  by code_simp

lemma header_keys: "canonical_key ''Content-Type'' = ''Content-Type''" "canonical_key ''Accept'' = ''Accept''"
  "canonical_key ''Cookie'' = ''Cookie''" "canonical_key ''Authorization'' = ''Authorization''"
  by code_simp+

text \<open>The challenge the responder gives to a request without credentials.\<close>

lemma serve_challenge:
  assumes "mo_singleUseNonce (ms_opts s)" "mo_digestUser (ms_opts s) \<noteq> []" "hq_method q = ''POST''"
    and "hq_header q ''Authorization'' = None" "issue (me_rand E) (ms_auth s) = (c, n, d)"
  shows "serve E t False q s =
    (Some (http_error ''authentication required'' 401 (challenge_header n) [(session_cookie, c)] []),
     s\<lparr>ms_requests := s64 (ms_requests s + 1), ms_auth := d\<rparr>)"
proof -
  have "has_prefix (to_lower []) ''digest '' = False" by code_simp
  then show ?thesis
    using assms by (simp add: serve_def authorised_def map_get_def refused_def challenge_client_def draw_nonce_def Let_def)
qed

text \<open>The responder accepts what \<open>authorize_once\<close> writes for its challenge.\<close>

definition mock_challenge :: "string \<Rightarrow> challenge" where
  "mock_challenge n = \<lparr>ch_realm = digest_realm, ch_nonce = n, ch_opaque = [], ch_qop = ''auth'', ch_algorithm = []\<rparr>"

lemma header_accepted:
  assumes opts: "mo_singleUseNonce o'" "mo_digestUser o' = cr_username cr" "ascii (cr_username cr)"
    and ha1: "ha1 = digest_hash (me_digest E) [] (cr_username cr @ '':'' @ digest_realm @ '':'' @ mo_digestPass o')"
    and n: "list_all nonce_char n" "list_all nonce_char c" and req: "ascii (hq_uri req)" "hq_method q = hq_method req"
    and hdr: "hq_header q ''Cookie'' = Some (join_cookies [(session_cookie, c)])"
      "hq_header q ''Authorization'' =
         Some (digest_header (me_digest E) rdm cr req (mock_challenge n) ha1 ''00000001'')"
    and d: "da_sessions d c = Some n"
  shows "authorised E o' q d = (None, d\<lparr>da_sessions := (da_sessions d)(c := None)\<rparr>)"
proof -
  let ?L = "me_digest E" and ?ch = "mock_challenge n"
  let ?h = "digest_header ?L rdm cr req ?ch ha1 ''00000001''"
  let ?p = "map_of (map (\<lambda>(k, raw, v). (k, v)) (header_fields ?L rdm cr req ?ch ha1 ''00000001''))"
  have up: "to_upper [] = []" by code_simp
  have "parse_digest_challenge (digest_header ?L rdm cr req ?ch ha1 (hex08 1)) =
      Inr (map_of (map (\<lambda>(k, raw, v). (k, v)) (header_fields ?L rdm cr req ?ch ha1 (hex08 1))))"
    using opts(3) req(1) nonce_text(5) [OF n(1)] up
    by (intro digest_header_parsed) (simp_all add: mock_challenge_def digest_realm_def byte_def)
  then have parsed: "parse_digest_challenge ?h = Inr ?p" by (simp only: hex08_one)
  have pre: "has_prefix (to_lower ?h) ''digest ''"
  proof -
    obtain t where t: "?h = ''Digest username='' @ t" unfolding digest_header_def Let_def append_assoc by blast
    have "to_lower ''Digest username='' = ''digest '' @ ''username=''" by code_simp
    then have "to_lower ?h = ''digest '' @ ''username='' @ to_lower t" unfolding t map_to_lower by simp
    then show ?thesis by simp
  qed
  have nc: "map_get ?p ''nc'' = ''00000001''" and nonce: "map_get ?p ''nonce'' = n"
    by (simp_all add: map_get_def header_fields_def mock_challenge_def Let_def)
  have m: "response_matches ?L o' ?p (hq_method q) n"
    using opts(2) req(2)
    by (simp add: response_matches_def map_get_def header_fields_def mock_challenge_def digest_response_def
        hash_default ha1 Let_def)
  have "single_use_verdict ?L o' q ?p = Spend c n"
    using session_cookie_read [OF n(2) hdr(1)] nc nonce m by (simp add: single_use_verdict_def)
  then show ?thesis
    using opts(1) d parsed pre
    by (simp add: authorised_def map_get_def hdr(2) authorised_single_use_def consume_def)
qed


text \<open>C9: The pre-flight promise of the responder.  A client that draws a challenge per request, as the
  configuration asks for a service with single-use nonces, is served by the responder whatever was sent
  before: from any log of requests, one timestamp POST costs exactly one request without a body and one
  with the query, the reply is the responder's answer to this query, and the session it opened is gone.\<close>

theorem client_served:
  assumes resp: "mo_singleUseNonce (ms_opts S)" "mo_digestUser (ms_opts S) = cr_username cr" "cr_username cr \<noteq> []"
    and client: "per_request a" "at_creds a = Some cr" "creds_ok (te_digest T) (cr_username cr) (mo_digestPass (ms_opts S)) cr"
    and link: "te_server T = mock_exchange E now S" "te_digest T = me_digest E"
    and uris: "te_new_request T (at_endpoint a) = Inr u" "te_new_request T endpoint = Inr uri"
    and ascii: "ascii (cr_username cr)" "ascii uri"
    and flt: "ms_fault S \<notin> {FaultHTTP500, FaultHTTP429, FaultBadContentType}" "length der \<le> max_body"
    and answer: "respond (me_lib E) (ms_signer S) (ms_opts S) (now (Suc (length (net_log n)))) der (ms_fault S) = Some (Inr out)"
  shows "\<exists>rep a' n' q1 q2. post_timestamp T endpoint der a n = (Inr rep, a', n') \<and>
    hp_status rep = 200 \<and> hp_contentType rep = content_type_response \<and> hp_body rep = out \<and>
    net_log n' = net_log n @ [q1, q2] \<and> hq_body q1 = [] \<and> hq_body q2 = der \<and>
    at_requests a' = s64 (at_requests a + 1) \<and>
    (\<forall>c v. da_sessions (ms_auth (mock_after E now S (net_log n'))) c = Some v \<longrightarrow>
       da_sessions (ms_auth (mock_after E now S (net_log n))) c = Some v)"
proof -
  define s where "s = mock_after E now S (net_log n)"
  have s: "ms_opts s = ms_opts S" "ms_signer s = ms_signer S" "ms_fault s = ms_fault S"
    using mock_after_frame [of E now S "net_log n"] by (simp_all add: s_def)
  obtain c v d where i: "issue (me_rand E) (ms_auth s) = (c, v, d)" by (metis prod.exhaust)
  then have plain: "list_all nonce_char c" "list_all nonce_char v" and sess: "da_sessions d c = Some v"
    "da_sessions d = (da_sessions (ms_auth s))(c \<mapsto> v)"
    using random_nonce_plain by (auto simp: issue_def Let_def)
  define q1 where "q1 = header_set ''Content-Type'' content_type_request (new_request u [])"
  have q1: "hq_method q1 = ''POST''" "hq_header q1 ''Authorization'' = None" "hq_body q1 = []"
    by (simp_all add: q1_def header_set_def new_request_def header_keys)
  define s1 where "s1 = s\<lparr>ms_requests := s64 (ms_requests s + 1), ms_auth := d\<rparr>"
  have "mo_singleUseNonce (ms_opts s)" "mo_digestUser (ms_opts s) \<noteq> []" using resp by (simp_all add: s)
  from serve_challenge [OF this q1(1,2) i]
  have one: "serve E (now (length (net_log n))) False q1 s =
      (Some (http_error ''authentication required'' 401 (challenge_header v) [(session_cookie, c)] []), s1)"
    by (simp add: serve_def s1_def)
  define n1 where "n1 = n\<lparr>net_log := net_log n @ [q1], net_wrote := True\<rparr>"
  let ?cookie = "join_cookies [(session_cookie, c)]"
  have ck: "?cookie \<noteq> []" by (simp add: join_cookies_def session_cookie_def)
  have ch: "challenge_header v \<noteq> []" by (simp add: challenge_header_def)
  have do1: "client_do T True q1 n = (Inr (http_reply.truncate
      (http_error ''authentication required'' 401 (challenge_header v) [(session_cookie, c)] [])), n1)"
    using one by (simp add: client_do_def link(1) mock_exchange_def n1_def flip: s_def)
  have dr: "draw T True a n = (Inr (challenge_header v, ?cookie), count_request a, n1)"
    using uris(1) do1 ch by (simp add: draw_def draw_digest_challenge_def http_error_def http_reply.truncate_def flip: q1_def)
  define rdm where "rdm = te_rand T (length (net_log n))"
  define req where "req = header_set ''Cookie'' ?cookie (header_set ''Accept'' content_type_response
    (header_set ''Content-Type'' content_type_request (new_request uri der)))"
  obtain ha1 cr' where h: "ha1_for (te_digest T) cr (mock_challenge v) = (ha1, cr')" by fastforce
  have h1: "ha1 = digest_hash (me_digest E) [] (cr_username cr @ '':'' @ digest_realm @ '':'' @ mo_digestPass (ms_opts S))"
    and h2: "cr_username cr' = cr_username cr"
    using ha1_for_ok [OF client(3), of "mock_challenge v"] h link(2)
    by (auto simp: mock_challenge_def creds_ok_def)
  define q2 where "q2 = header_set ''Authorization''
    (digest_header (me_digest E) rdm cr' req (mock_challenge v) ha1 ''00000001'') req"
  have ao: "authorize_once (te_digest T) rdm (Some cr) req (challenge_header v) = (Inr q2, Some cr')"
    using challenge_parsed [OF plain(2)] h link(2) by (simp add: authorize_once_def q2_def flip: mock_challenge_def)
  have bp: "build_post T endpoint der a n = (Inr q2, (count_request a)\<lparr>at_creds := Some cr'\<rparr>, n1)"
    using uris(2) client(1,2) dr ao ck
    by (simp add: build_post_def authorize_def per_request_def count_request_def Let_def flip: req_def rdm_def)
  have q2: "hq_method q2 = ''POST''" "hq_uri req = uri" "hq_body q2 = der" "hq_header q2 ''Cookie'' = Some ?cookie"
    "map_get (hq_header q2) ''Content-Type'' = content_type_request"
    "hq_header q2 ''Authorization'' = Some (digest_header (me_digest E) rdm cr' req (mock_challenge v) ha1 ''00000001'')"
    by (simp_all add: q2_def req_def header_set_def new_request_def header_keys map_get_def)
  define d' where "d' = d\<lparr>da_sessions := (da_sessions d)(c := None)\<rparr>"
  have acc: "authorised E (ms_opts S) q2 d = (None, d')"
    unfolding d'_def
    by (rule header_accepted [where cr = cr', OF _ _ _ _ plain(2,1) _ _ q2(4,6) sess(1)])
      (use resp ascii q2 h1 h2 in \<open>simp_all add: q2_def req_def header_set_def new_request_def\<close>)
  have two: "\<exists>rep. serve E (now (Suc (length (net_log n)))) False q2 s1 =
      (Some rep, s1\<lparr>ms_requests := s64 (ms_requests s1 + 1), ms_auth := d'\<rparr>) \<and>
      hp_status rep = 200 \<and> hp_contentType rep = content_type_response \<and> hp_body rep = out"
    using q2(1,3,5) acc resp flt answer
    by (simp add: serve_def s1_def s answer_request_def Let_def)
  then obtain rep where rep: "serve E (now (Suc (length (net_log n)))) False q2 s1 =
      (Some rep, s1\<lparr>ms_requests := s64 (ms_requests s1 + 1), ms_auth := d'\<rparr>)"
    "hp_status rep = 200" "hp_contentType rep = content_type_response" "hp_body rep = out" by blast
  have a1: "mock_after E now S (net_log n @ [q1]) = s1" using one by (simp add: mock_after_snoc flip: s_def)
  have a2: "mock_after E now S ((net_log n @ [q1]) @ [q2]) = s1\<lparr>ms_requests := s64 (ms_requests s1 + 1), ms_auth := d'\<rparr>"
    using mock_after_snoc [of E now S "net_log n @ [q1]" q2] a1 rep(1) by simp
  define n2 where "n2 = n1\<lparr>net_log := net_log n @ [q1, q2], net_wrote := True\<rparr>"
  have do2: "client_do T True q2 n1 = (Inr (http_reply.truncate rep), n2)"
    using rep(1) a1 by (simp add: client_do_def link(1) mock_exchange_def n1_def n2_def butlast_append)
  have rs: "retry_stale T (http_reply.truncate rep) ((count_request a)\<lparr>at_creds := Some cr'\<rparr>) =
      ((False, None), (count_request a)\<lparr>at_creds := Some cr'\<rparr>)"
    using rep(2) by (simp add: retry_stale_def http_reply.truncate_def)
  have "post_timestamp T endpoint der a n = (Inr (http_reply.truncate rep), (count_request a)\<lparr>at_creds := Some cr'\<rparr>, n2)"
    using bp do2 rs by (simp add: post_timestamp_def)
  then show ?thesis
    using rep(2-4) q1(3) q2(3) a2 sess(2)
    by (auto simp: http_reply.truncate_def n2_def count_request_def d'_def s_def [symmetric] intro!: exI split: if_splits)
qed


definition demo_credentials :: credentials where
  "demo_credentials = \<lparr>cr_username = ''user'', cr_password = ''secret'', cr_token = [], cr_headers = [],
     cr_digest = Some new_digest_state\<rparr>"

theorem client_served_witness:
  "\<exists>(S :: bytes mock_server) T a n rep a' n'.
     S = \<lparr>ms_opts = demo_options, ms_signer = ''sig'', ms_auth = new_digest_auth, ms_requests = 0, ms_fault = FaultNone\<rparr> \<and>
     te_server T = mock_exchange demo_mock_env (\<lambda>i. unix_epoch) S \<and> net_log n = [] \<and>
     post_timestamp T ''https://tsa'' ''query'' a n = (Inr rep, a', n') \<and>
     hp_status rep = 200 \<and> hp_body rep = ''sigquery'' \<and> length (net_log n') = 2"
proof -
  define S :: "bytes mock_server" where "S = \<lparr>ms_opts = demo_options, ms_signer = ''sig'', ms_auth = new_digest_auth,
    ms_requests = 0, ms_fault = FaultNone\<rparr>"
  define T where "T = demo_transport\<lparr>te_digest := me_digest demo_mock_env, te_new_request := (\<lambda>_. Inr ''/''),
    te_server := mock_exchange demo_mock_env (\<lambda>i. unix_epoch) S\<rparr>"
  define a where "a = \<lparr>at_creds = Some demo_credentials, at_authType = AuthDigest, at_perRequest = True,
    at_endpoint = ''https://tsa'', at_requests = 0\<rparr>"
  define n where "n = \<lparr>net_log = [], net_wrote = False\<rparr>"
  have resp: "mo_singleUseNonce (ms_opts S)" "mo_digestUser (ms_opts S) = cr_username demo_credentials" "cr_username demo_credentials \<noteq> []"
    by (simp_all add: S_def demo_options_def demo_credentials_def)
  have client: "per_request a" "at_creds a = Some demo_credentials"
    "creds_ok (te_digest T) (cr_username demo_credentials) (mo_digestPass (ms_opts S)) demo_credentials"
    by (simp_all add: a_def per_request_def S_def demo_options_def demo_credentials_def creds_ok_def ha1_ok_def new_digest_state_def)
  have link: "te_server T = mock_exchange demo_mock_env (\<lambda>i. unix_epoch) S" "te_digest T = me_digest demo_mock_env"
    "te_new_request T (at_endpoint a) = Inr ''/''" "te_new_request T ''https://tsa'' = Inr ''/''"
    by (simp_all add: T_def)
  have asc: "ascii (cr_username demo_credentials)" "ascii ''/''" by (simp_all add: demo_credentials_def byte_def)
  have flt: "ms_fault S \<notin> {FaultHTTP500, FaultHTTP429, FaultBadContentType}" "length ''query'' \<le> max_body"
    by (simp_all add: S_def FaultNone_def FaultHTTP500_def FaultHTTP429_def FaultBadContentType_def max_body_def)
  have ans: "respond (me_lib demo_mock_env) (ms_signer S) (ms_opts S) unix_epoch ''query'' (ms_fault S) = Some (Inr ''sigquery'')"
    by (simp add: S_def respond_def answer_of_def demo_mock_env_def FaultNone_def FaultMalformedBody_def FaultRejection_def
        FaultWrongImprint_def FaultBrokenSignature_def)
  obtain rep a' n' where "post_timestamp T ''https://tsa'' ''query'' a n = (Inr rep, a', n')" "hp_status rep = 200"
    "hp_body rep = ''sigquery''" "length (net_log n') = 2"
    using client_served [OF resp client link asc flt ans, where n = n] by (auto simp: n_def)
  then show ?thesis using link(1) by (intro exI [of _ S] exI [of _ T] exI [of _ a] exI [of _ n] exI [of _ rep] exI [of _ a'] exI [of _ n'])
    (simp add: S_def n_def)
qed

end
