(* ===== verification/Spec2Isabelle.thy ===== *)
theory Spec2Isabelle
  imports Quota Breaker Scheduler Profile Collector Verify Digest_State Run_Properties
    Command_Corners Commands_Properties Mock_Properties
begin

text \<open>
  A verification library for \<^verbatim>\<open>tsa-bench\<close>, a load generator for RFC 3161 timestamp
  authorities written in Go.  The program reads a provider configuration and a load profile,
  checks them against each other and against the operator's written limits, sends timestamp
  requests at a controlled rate while a guard counts every one of them, verifies each response,
  aggregates latencies and errors, and leaves an audit record and a summary on disk.  Its other
  commands check a configuration, probe an endpoint, compare runs, and serve timestamps locally.

  \<^bold>\<open>The parts, and the theories that model them.\<close>

  \<^item> Vocabulary.  \<^verbatim>\<open>Prelude\<close> (int64 with wrap-around as \<open>s64\<close>, durations and instants
    in nanoseconds, package strings, decimal rendering), \<^verbatim>\<open>Go_Float\<close> (float64 as exact
    rationals rounded to nearest even after every operation, with NaN and the infinities),
    \<^verbatim>\<open>Go_Time\<close> and \<^verbatim>\<open>Timestamps\<close> (package time: durations, civil dates, RFC 3339 and a reader for it),
    \<^verbatim>\<open>Utf8\<close> (range over a string), \<^verbatim>\<open>Asn1\<close> (the subset of \<^verbatim>\<open>encoding/asn1\<close> the parsers rely on, with
    a reference encoder), \<^verbatim>\<open>Csv\<close> (\<^verbatim>\<open>encoding/csv\<close> with a reader), \<^verbatim>\<open>Go_Files\<close> (an \<^verbatim>\<open>os.File\<close> under a
    \<^verbatim>\<open>bufio.Writer\<close>, on a disk that may fail at every call).
  \<^item> Safety of a run, \<^verbatim>\<open>internal/load\<close>.  \<^verbatim>\<open>Quota\<close> (quota.go), \<^verbatim>\<open>Breaker\<close> (breaker.go), \<^verbatim>\<open>Clock\<close> (clock.go),
    \<^verbatim>\<open>Scheduler\<close> (scheduler.go), \<^verbatim>\<open>Profile\<close> (profile.go), \<^verbatim>\<open>Runner\<close> (runner.go).
  \<^item> Protocol, \<^verbatim>\<open>internal/tsp\<close> and \<^verbatim>\<open>internal/transport\<close>.  \<^verbatim>\<open>Request\<close> (request.go), \<^verbatim>\<open>Statusinfo\<close>
    (statusinfo.go), \<^verbatim>\<open>Gentime\<close> (gentime.go), \<^verbatim>\<open>Ess\<close> (ess.go), \<^verbatim>\<open>Verify\<close> (verify.go), \<^verbatim>\<open>Transport\<close>
    (auth.go, challenge.go, transport.go).
  \<^item> Configuration and secrets, \<^verbatim>\<open>internal/config\<close> and \<^verbatim>\<open>internal/redact\<close>.  \<^verbatim>\<open>Config\<close> (config.go,
    validate.go), \<^verbatim>\<open>Digest\<close> and \<^verbatim>\<open>Digest_State\<close> (auth.go, digest.go), \<^verbatim>\<open>Redact\<close> (redact.go).
  \<^item> Measurement, \<^verbatim>\<open>internal/metrics\<close> and \<^verbatim>\<open>internal/errclass\<close>.  \<^verbatim>\<open>Errclass\<close> (errclass.go), \<^verbatim>\<open>Histogram\<close>
    (histogram.go), \<^verbatim>\<open>Collector\<close> (collector.go), \<^verbatim>\<open>Resources\<close> (runtime.go and the rusage variants).
  \<^item> Results, \<^verbatim>\<open>internal/report\<close>.  \<^verbatim>\<open>Report_Writer\<close> (writer.go), \<^verbatim>\<open>Artifacts\<close> (artifacts.go),
    \<^verbatim>\<open>Report_Summary\<close> (summary.go), \<^verbatim>\<open>Report_Comparison\<close> (comparison.go), \<^verbatim>\<open>Report_Html\<close> (html.go).
  \<^item> Commands, \<^verbatim>\<open>cmd/tsa-bench\<close>.  \<^verbatim>\<open>Command_Run\<close> and \<^verbatim>\<open>Command_Output\<close> (run.go), \<^verbatim>\<open>Commands\<close>
    (validate.go, report.go, doctor.go, mock.go, main.go).
  \<^item> The local responder.  \<^verbatim>\<open>Mock\<close> (\<^verbatim>\<open>internal/mock\<close>), \<^verbatim>\<open>Pki\<close> (\<^verbatim>\<open>internal/testutil\<close>).

  \<^bold>\<open>How they interact.\<close>  A record per Go struct holds the state of a component, one definition per
  function or method is its operation, and the caller's definition composes the callee's as the code
  does: \<^verbatim>\<open>Runner\<close> threads its record through \<open>acquire\<close> of the quota, \<open>build_request\<close>, \<open>post_timestamp\<close>,
  \<open>verify\<close>, \<open>record_attempt\<close>, \<open>record_outcome\<close> and the sink; \<^verbatim>\<open>Command_Run\<close> wires a runner from the
  configuration, opens the writer, runs, closes, and checks the record; \<^verbatim>\<open>Commands\<close> uses the same
  configuration, transport and verifier for one request.  A failure is the left side of a sum; an outer
  \<open>None\<close> is a panic, or, for random draws and schedules given as lists, a list that is too short.  Goroutines are
  steps at points a list of choices selects (the workers of the runner), or an inductive step relation
  (\<open>acquire_step\<close>, \<open>digest_step\<close>, \<open>artifact_step\<close>, \<open>writer_step\<close>, \<open>single_use_step\<close>).  An interface is a locale,
  interpreted on the model: \<open>clock\<close> by the fake and the real clock, \<open>budget_guard\<close> by the quota,
  \<open>run_preserves\<close> by the ledger of a run, \<open>strict_order\<close> by the two sort orders of the summary.

  \<^bold>\<open>What the lemmas show.\<close>

  \<^item> The components alone: the quota hands out each unit once under any interleaving, the breaker
    refines a specification over the history, the scheduler is exact, drift-free and burst-free, the
    histogram's percentiles are bucket tops of exact ranks, the collector is the tally of its calls,
    the decoders invert reference encoders and classify everything else, the verifier accepts exactly
    a declarative predicate, validation is equivalent to the rules it documents, redaction and the
    configuration dump are independent of secrets, a digest header is read back as written.
  \<^item> A run as a whole: \<^verbatim>\<open>Run_Invariants\<close> (what each part leaves alone), \<^verbatim>\<open>Run_Audit\<close> (the books: quota,
    collector, sink and workers agree), \<^verbatim>\<open>Run_Progress\<close> (a run ends, and a complete one issued its
    plan), \<^verbatim>\<open>Run_Properties\<close> (the theorems about \<^verbatim>\<open>Run\<close>).
  \<^item> The record of a run: \<^verbatim>\<open>Report_Audit\<close> (what \<^verbatim>\<open>Close\<close> without an error means on any disk),
    \<^verbatim>\<open>Summary_Properties\<close> (order independence, proportions), \<^verbatim>\<open>Run_Report\<close> (summary.json and
    requests.csv agree), \<^verbatim>\<open>Command_Properties\<close> (the gates, the record check, the exit status),
    \<^verbatim>\<open>Command_Corners\<close> (concrete inputs on which the code differs from its comments).
  \<^item> The other commands: \<^verbatim>\<open>Commands_Properties\<close> (what a loaded configuration guarantees, that \<^verbatim>\<open>validate\<close>
    predicts \<^verbatim>\<open>run\<close>, what \<^verbatim>\<open>doctor\<close> spends, where \<^verbatim>\<open>mock\<close> listens, how \<^verbatim>\<open>report\<close> splits its arguments).
  \<^item> The responder: \<^verbatim>\<open>Mock_Properties\<close> (a single-use nonce is accepted once; the client with a challenge
    per request is served in two HTTP requests), \<^verbatim>\<open>Pki\<close> (the verifier judges an issued certificate by
    the defects that were asked for).

  \<^bold>\<open>Bounds and fuel.\<close>  No definition uses fuel.  Loops are structural, or recursive with a measure that
  is proved to decrease (the bytes left to parse, the ticks left to release, the workers still running);
  draws of a random source and choices of the scheduler are lists, and a theorem states how long they
  must be where it matters.  Widths are the code's: \<open>s64\<close> wraps where Go's int64 does, and where a
  theorem needs no wrap-around the bound is a hypothesis, discharged in its witness.

  \<^bold>\<open>Not modelled, and why.\<close>

  \<^item> Libraries the sources only call are parameters of the definitions: YAML, JSON and
    \<^verbatim>\<open>html/template\<close>, \<^verbatim>\<open>net/url\<close>, name resolution and sockets, \<^verbatim>\<open>crypto/tls\<close>, \<^verbatim>\<open>crypto/x509\<close>, hash functions,
    random bytes, the CMS and timestamp libraries.  A theorem that relies on documented behaviour of one
    of them says so in a hypothesis, and its witness has a concrete instance.
  \<^item> Package flag: the definitions take the values of the parsed flags, so the usage texts are left out.
  \<^item> Log lines of \<^verbatim>\<open>slog\<close>, which no result depends on; \<^verbatim>\<open>Command_Output\<close> has the console of \<^verbatim>\<open>run\<close>.
  \<^item> \<^verbatim>\<open>http.Client.Do\<close> is a function of the requests sent so far; connection pooling, the cookie jar and
    the timeouts of \<^verbatim>\<open>net/http\<close> are its settings (\<open>new_client\<close>), not its behaviour.
  \<^item> \<^verbatim>\<open>scripts/challenge-probe\<close>: a stand-alone script that prints what a server answers at fixed rates;
    it shares no code with the commands and decides nothing.
  \<^item> The interleaving of two workers inside one attempt: a worker runs as one step, except where a
    component's own shared state is the point, and there the atomic operations are the steps.
\<close>

end
